(* ===== verification/Prelude.thy ===== *)
theory Prelude
  imports Main "HOL-Library.AList" "HOL-Library.Char_ord"
begin

text \<open>
  Shared vocabulary of the development: the names of the model's types, the
  collections of rewrite rules the component theories feed, and generic lemmas
  on lists, association lists and sums that several components use.
  Python strings are \<open>string\<close> (a list of bytes; the pipeline only inspects
  ASCII characters), Python's unbounded integers are \<open>int\<close>, a Python
  dictionary, whose iteration order is insertion order, is an association list
  updated with \<open>AList.update\<close> (which replaces a key in place and appends a new
  key at the end, as dictionary assignment does).
\<close>

named_theorems keeps_rules \<open>frame rules: which files an I/O action may change\<close>

type_synonym path = string
type_synonym contents = string
type_synonym ('k, 'v) dict = "('k \<times> 'v) list"

subsection \<open>Lists\<close>

text \<open>\<open>py_join d\<close> is Python's \<open>d.join\<close> for a one-character separator.\<close>

fun py_join :: "char \<Rightarrow> string list \<Rightarrow> string" where
  "py_join d [] = []"
| "py_join d [t] = t"
| "py_join d (t # ts) = t @ d # py_join d ts"

text \<open>\<open>py_join_str sep\<close> is \<open>sep.join\<close> for any separator.\<close>

fun py_join_str :: "string \<Rightarrow> string list \<Rightarrow> string" where
  "py_join_str sep [] = []"
| "py_join_str sep [t] = t"
| "py_join_str sep (t # ts) = t @ sep @ py_join_str sep ts"

lemma py_join_Cons_Cons [simp]: "py_join d ((c # t) # ts) = c # py_join d (t # ts)"
  by (cases ts) auto


lemma ball_set_neq_iff [simp]: "(\<forall>x\<in>set xs. x \<noteq> d) \<longleftrightarrow> d \<notin> set xs"
  by auto

lemma sum_list_map_append_split:
  "(\<Sum>x\<leftarrow>xs @ ys. f x) = (\<Sum>x\<leftarrow>xs. f x) + (\<Sum>x\<leftarrow>ys. (f x :: nat))"
  by simp

lemma length_concat_map:
  "length (concat (map f xs)) = (\<Sum>x\<leftarrow>xs. length (f x))"
  by (induction xs) auto

lemma filter_concat_map:
  "filter P (concat (map f xs)) = concat (map (\<lambda>x. filter P (f x)) xs)"
  by (induction xs) auto

text \<open>
  \<open>first_seen\<close> keeps the first occurrence of each element, in order (the
  library's \<open>remdups\<close> keeps the last one).
\<close>

definition first_seen :: "'a list \<Rightarrow> 'a list" where
  "first_seen xs = rev (remdups (rev xs))"

lemma first_seen_Nil [simp]: "first_seen [] = []"
  by (simp add: first_seen_def)

lemma first_seen_snoc [simp]:
  "first_seen (xs @ [x]) = (if x \<in> set xs then first_seen xs else first_seen xs @ [x])"
  by (simp add: first_seen_def)

lemma set_first_seen [simp]: "set (first_seen xs) = set xs"
  by (simp add: first_seen_def)

lemma distinct_first_seen [simp]: "distinct (first_seen xs)"
  by (simp add: first_seen_def)

lemma sum_filter_snoc:
  "(\<Sum>y\<leftarrow>filter (\<lambda>y. g y = c) (xs @ [x]). h y) =
   (\<Sum>y\<leftarrow>filter (\<lambda>y. g y = c) xs. h y) + (if g x = c then h x else (0::nat))"
  by simp

lemma sum_first_seen_filter:
  "(\<Sum>c\<leftarrow>first_seen (map g xs). \<Sum>x\<leftarrow>filter (\<lambda>x. g x = c) xs. h x) =
   (\<Sum>x\<leftarrow>xs. h x :: nat)"
proof (induction xs rule: rev_induct)
  case (snoc x xs)
  let ?S = "\<lambda>ys c. \<Sum>y\<leftarrow>filter (\<lambda>y. g y = c) ys. h y"
  let ?D = "\<lambda>c. if g x = c then h x else 0"
  have split: "(\<Sum>c\<leftarrow>cs. ?S (xs @ [x]) c) = (\<Sum>c\<leftarrow>cs. ?S xs c) + (\<Sum>c\<leftarrow>cs. ?D c)"
    for cs by (simp only: sum_filter_snoc sum_list_addf)
  show ?case
  proof (cases "g x \<in> set (map g xs)")
    case True
    have "(\<Sum>c\<leftarrow>first_seen (map g xs). ?D c) = h x"
      using True by (simp add: sum_list_distinct_conv_sum_set)
    with True snoc.IH split show ?thesis
      by simp
  next
    case False
    have "(\<Sum>c\<leftarrow>first_seen (map g xs). ?D c) = 0"
      using False by (force intro: sum_list_0)
    moreover have "filter (\<lambda>y. g y = g x) xs = []"
      using False by (auto simp: filter_empty_conv image_iff)
    then have "?S xs (g x) = 0" by simp
    ultimately show ?thesis
      using False snoc.IH split [of "first_seen (map g xs)"] by simp
  qed
qed simp

lemma sorted_take_drop_le:
  "sorted (map f xs) \<Longrightarrow> x \<in> set (take n xs) \<Longrightarrow> y \<in> set (drop n xs) \<Longrightarrow> f x \<le> f y"
proof -
  assume s: "sorted (map f xs)" and x: "x \<in> set (take n xs)" and y: "y \<in> set (drop n xs)"
  have "sorted (map f (take n xs) @ map f (drop n xs))"
    using s by (simp only: map_append [symmetric] append_take_drop_id)
  with x y show ?thesis by (auto simp: sorted_append)
qed

subsection \<open>Association lists as Python dictionaries\<close>

lemma update_absent:
  "k \<notin> set (map fst al) \<Longrightarrow> AList.update k v al = al @ [(k, v)]"
  by (induction al) auto

lemma map_replace_absent:
  "k \<notin> set (map fst al) \<Longrightarrow> map (\<lambda>(k', v'). if k' = k then (k', f v') else (k', v')) al = al"
  by (induction al) auto

lemma update_replace:
  "distinct (map fst al) \<Longrightarrow> map_of al k = Some v0 \<Longrightarrow>
   AList.update k (f v0) al = map (\<lambda>(k', v'). if k' = k then (k', f v') else (k', v')) al"
proof (induction al)
  case (Cons kv al)
  then show ?case
    by (cases kv) (auto simp: map_replace_absent split: if_splits)
qed simp


lemma update_keys_append:
  "k \<notin> set (map fst al) \<Longrightarrow> map fst (AList.update k v al) = map fst al @ [k]"
  by (induction al) auto

lemma update_keys_same:
  "k \<in> set (map fst al) \<Longrightarrow> map fst (AList.update k v al) = map fst al"
  by (induction al) auto

lemma update_distinct [intro]:
  "distinct (map fst al) \<Longrightarrow> distinct (map fst (AList.update k v al))"
  by (simp add: distinct_update)

lemma set_update_values:
  "set (map snd (AList.update k v al)) \<subseteq> insert v (set (map snd al))"
  by (induction al) auto

subsection \<open>Sums as results\<close>

text \<open>
  The exceptions the programs can raise: \<open>ValueError\<close> (from \<open>pd.concat\<close>
  of nothing), the two parser errors of \<open>pd.read_csv\<close>, the operating
  system errors of opening, reading and writing files and creating
  directories, \<open>KeyError\<close> for a missing column and \<open>TypeError\<close> for
  arithmetic on text.
\<close>

datatype py_error =
    ValueError string
  | EmptyDataError string
  | ParserError string
  | FileNotFoundError path
  | OSError path
  | KeyError string
  | TypeError string

text \<open>
  A Python call that may raise is a value of \<open>'e + 'a\<close>: \<open>Inl\<close> is the
  exception, \<open>Inr\<close> the normal return. \<open>bindE\<close> sequences two such calls and
  propagates the first exception, as an unhandled raise does.
\<close>

definition bindE :: "'e + 'a \<Rightarrow> ('a \<Rightarrow> 'e + 'b) \<Rightarrow> 'e + 'b" where
  "bindE m f = (case m of Inl e \<Rightarrow> Inl e | Inr a \<Rightarrow> f a)"

lemma bindE_simps [simp]:
  "bindE (Inl e) f = Inl e"
  "bindE (Inr a) f = f a"
  by (simp_all add: bindE_def)

lemma bindE_Inr_iff:
  "bindE m f = Inr b \<longleftrightarrow> (\<exists>a. m = Inr a \<and> f a = Inr b)"
  by (cases m) auto

end
