(* ===== verification/Country.thy ===== *)
theory Country
  imports Prelude
begin

text \<open>
  The country classifier, \<open>extract_country_from_filename\<close> of
  \<open>src/merge_csv.py\<close> (lines 6--13): Python's \<open>str.split('-')\<close>, the test
  \<open>len(parts) > 1\<close>, \<open>str.upper()\<close> of the second part, and the fallback
  \<open>"UNKNOWN"\<close>. \<open>py_split\<close> follows \<open>str.split\<close> with an explicit separator:
  every occurrence splits, empty parts are kept, and the result is never empty.
  \<open>py_upper\<close> is \<open>str.upper\<close> on ASCII: it maps \<open>a\<close>..\<open>z\<close> to \<open>A\<close>..\<open>Z\<close>
  and leaves every other byte alone.
\<close>

subsection \<open>Definitions\<close>

fun split_cons :: "char \<Rightarrow> string list \<Rightarrow> string list" where
  "split_cons c [] = [[c]]"
| "split_cons c (t # ts) = (c # t) # ts"

fun py_split :: "char \<Rightarrow> string \<Rightarrow> string list" where
  "py_split d [] = [[]]"
| "py_split d (c # cs) =
     (if c = d then [] # py_split d cs else split_cons c (py_split d cs))"

definition upper_char :: "char \<Rightarrow> char" where
  "upper_char c =
     (if CHR ''a'' \<le> c \<and> c \<le> CHR ''z'' then char_of (of_char c - (32::nat)) else c)"

definition py_upper :: "string \<Rightarrow> string" where
  "py_upper s = map upper_char s"

definition extract_country_from_filename :: "string \<Rightarrow> string" where
  "extract_country_from_filename file_name =
     (let parts = py_split CHR ''-'' file_name
      in if length parts > 1 then py_upper (parts ! 1) else ''UNKNOWN'')"

subsection \<open>Splitting\<close>

lemma split_cons_not_Nil [simp]: "split_cons c ts \<noteq> []"
  by (cases ts) auto

lemma py_split_not_Nil [simp]: "py_split d s \<noteq> []"
  by (induction s) auto

lemma length_split_cons [simp]: "ts \<noteq> [] \<Longrightarrow> length (split_cons c ts) = length ts"
  by (cases ts) auto

lemma length_py_split: "length (py_split d s) = count_list s d + 1"
  by (induction s) auto

lemma py_split_no_sep:
  "d \<notin> set s \<Longrightarrow> py_split d s = [s]"
  by (induction s) auto

lemma py_split_sep:
  "d \<notin> set a \<Longrightarrow> py_split d (a @ d # b) = a # py_split d b"
  by (induction a) auto

lemma hd_py_split: "hd (py_split d s) = takeWhile (\<lambda>c. c \<noteq> d) s"
proof (induction s)
  case (Cons c cs)
  then show ?case by (cases "py_split d cs") auto
qed simp

lemma py_split_parts_no_sep: "t \<in> set (py_split d s) \<Longrightarrow> d \<notin> set t"
proof (induction s arbitrary: t)
  case Nil
  then show ?case by simp
next
  case (Cons c cs)
  obtain u us where u: "py_split d cs = u # us"
    by (cases "py_split d cs") auto
  with Cons.IH have "d \<notin> set u" and "\<forall>v\<in>set us. d \<notin> set v" by auto
  with Cons.prems u show ?case by (auto split: if_splits)
qed

lemma py_join_py_split: "py_join d (py_split d s) = s"
proof (induction s)
  case (Cons c cs)
  then show ?case by (cases "py_split d cs") auto
qed simp

lemma py_split_py_join:
  "ts \<noteq> [] \<Longrightarrow> \<forall>t\<in>set ts. d \<notin> set t \<Longrightarrow> py_split d (py_join d ts) = ts"
proof (induction d ts rule: py_join.induct)
  case (3 d t v vs)
  then show ?case by (simp add: py_split_sep)
qed (simp_all add: py_split_no_sep)

subsection \<open>Upper-casing\<close>

lemma upper_char_idem [simp]: "upper_char (upper_char c) = upper_char c"
  by (auto simp: upper_char_def less_eq_char_def)

lemma py_upper_idem [simp]: "py_upper (py_upper s) = py_upper s"
  by (simp add: py_upper_def comp_def)

lemma upper_char_not_lower:
  "\<not> (CHR ''a'' \<le> upper_char c \<and> upper_char c \<le> CHR ''z'')"
  by (auto simp: upper_char_def less_eq_char_def)

lemma upper_char_not_hyphen: "c \<noteq> CHR ''-'' \<Longrightarrow> upper_char c \<noteq> CHR ''-''"
proof
  assume "c \<noteq> CHR ''-''" and eq: "upper_char c = CHR ''-''"
  then have low: "97 \<le> (of_char c :: nat) \<and> (of_char c :: nat) \<le> 122"
    by (auto simp: upper_char_def less_eq_char_def split: if_splits)
  with eq have "of_char (char_of (of_char c - (32::nat)) :: char) = (of_char CHR ''-'' :: nat)"
    by (simp add: upper_char_def less_eq_char_def)
  moreover from low have "of_char c - 32 < (256::nat)" by arith
  ultimately have "of_char c - 32 = (45::nat)" by simp
  with low show False by arith
qed

lemma length_py_upper [simp]: "length (py_upper s) = length s"
  by (simp add: py_upper_def)

subsection \<open>The classifier\<close>

text \<open>
  Two parts exist exactly when the name contains a hyphen; the second part is
  then the text between the first and the second hyphen (or the end).
\<close>

lemma second_part_py_split:
  "d \<in> set s \<Longrightarrow>
   1 < length (py_split d s) \<and>
   py_split d s ! 1 = takeWhile (\<lambda>c. c \<noteq> d) (tl (dropWhile (\<lambda>c. c \<noteq> d) s))"
proof -
  assume "d \<in> set s"
  then obtain a b where s: "s = a @ d # b" and a: "d \<notin> set a"
    by (metis (mono_tags) split_list_first)
  have drop: "dropWhile (\<lambda>c. c \<noteq> d) s = d # b"
    using a by (auto simp: s dropWhile_append3 dropWhile_eq_self_iff)
  from a have "py_split d s = a # py_split d b"
    by (simp add: s py_split_sep)
  with drop show ?thesis
    by (cases "py_split d b") (auto simp: hd_py_split [of d b, symmetric])
qed

lemma one_part_py_split: "d \<notin> set s \<Longrightarrow> length (py_split d s) = 1"
  by (simp add: py_split_no_sep)

text \<open>The rules that evaluate the classifier on a concrete file name.\<close>

lemmas classifier_eval =
  extract_country_from_filename_def py_upper_def upper_char_def less_eq_char_def char_of_eq_iff

lemma py_split_two_parts:
  "d \<notin> set a \<Longrightarrow> d \<notin> set b \<Longrightarrow> py_split d (a @ d # b) = [a, b]"
  by (simp add: py_split_sep py_split_no_sep)

lemma set_py_split_subset: "t \<in> set (py_split d s) \<Longrightarrow> set t \<subseteq> set s"
proof (induction s arbitrary: t)
  case (Cons c cs)
  obtain u us where u: "py_split d cs = u # us"
    by (cases "py_split d cs") auto
  with Cons.IH have "set u \<subseteq> set cs" and "\<forall>v\<in>set us. set v \<subseteq> set cs" by auto
  with Cons.prems u show ?case by (auto split: if_splits)
qed simp

text \<open>Every character of a country code is a letter of \<open>UNKNOWN\<close> or the upper-cased form of a character of the name other than the hyphen.\<close>

lemma country_chars:
  "c \<in> set (extract_country_from_filename fn) \<Longrightarrow>
   c \<in> set ''UNKNOWN'' \<or> (\<exists>x\<in>set fn. x \<noteq> CHR ''-'' \<and> c = upper_char x)"
proof -
  assume c: "c \<in> set (extract_country_from_filename fn)"
  let ?parts = "py_split CHR ''-'' fn"
  show ?thesis
  proof (cases "1 < length ?parts")
    case True
    then have p: "?parts ! 1 \<in> set ?parts" by simp
    from c True obtain x where x: "x \<in> set (?parts ! 1)" and cx: "c = upper_char x"
      by (auto simp: extract_country_from_filename_def py_upper_def)
    have "x \<in> set fn" using set_py_split_subset [OF p] x by blast
    moreover have "x \<noteq> CHR ''-''" using py_split_parts_no_sep [OF p] x by blast
    ultimately show ?thesis using cx by blast
  next
    case False
    with c show ?thesis by (simp add: extract_country_from_filename_def)
  qed
qed

lemma upper_char_upper_range:
  "CHR ''a'' \<le> x \<Longrightarrow> x \<le> CHR ''z'' \<Longrightarrow> CHR ''A'' \<le> upper_char x \<and> upper_char x \<le> CHR ''Z''"
proof -
  assume a: "CHR ''a'' \<le> x" and z: "x \<le> CHR ''z''"
  then have low: "97 \<le> (of_char x :: nat) \<and> (of_char x :: nat) \<le> 122"
    by (simp add: less_eq_char_def)
  then have "of_char x - 32 < (256::nat)" by arith
  then have "of_char (char_of (of_char x - (32::nat)) :: char) = (of_char x - 32 :: nat)"
    by (simp add: of_char_of)
  with low a z show ?thesis
    by (simp add: upper_char_def less_eq_char_def; arith)
qed

lemma upper_char_fixed:
  assumes u: "upper_char x = c" and nc: "\<not> (CHR ''A'' \<le> c \<and> c \<le> CHR ''Z'')"
  shows "x = c"
proof (cases "CHR ''a'' \<le> x \<and> x \<le> CHR ''z''")
  case True
  with upper_char_upper_range [of x] u nc show ?thesis by simp
next
  case False
  with u show ?thesis by (simp add: upper_char_def)
qed

subsection \<open>Properties of the classifier\<close>

text \<open>
  C6. The classifier returns \<open>UNKNOWN\<close> exactly for names without a hyphen;
  for any other name it returns the upper-cased text between the first hyphen
  and the next hyphen or the end of the name.
\<close>

theorem extract_country_spec:
  "extract_country_from_filename fn =
     (if CHR ''-'' \<in> set fn
      then py_upper (takeWhile (\<lambda>c. c \<noteq> CHR ''-'') (tl (dropWhile (\<lambda>c. c \<noteq> CHR ''-'') fn)))
      else ''UNKNOWN'')"
proof (cases "CHR ''-'' \<in> set fn")
  case True
  then show ?thesis
    using second_part_py_split [OF True] by (simp add: extract_country_from_filename_def)
next
  case False
  then show ?thesis
    by (simp add: extract_country_from_filename_def one_part_py_split)
qed

text \<open>
  C33. A name with exactly one hyphen yields its whole second part, file
  extension included: \<open>regional-au.csv\<close> is classified as \<open>AU.CSV\<close>, not
  \<open>AU\<close>.
\<close>

theorem extract_country_two_parts:
  "CHR ''-'' \<notin> set a \<Longrightarrow> CHR ''-'' \<notin> set b \<Longrightarrow>
   extract_country_from_filename (a @ CHR ''-'' # b) = py_upper b"
  by (simp add: extract_country_from_filename_def py_split_two_parts)

theorem extract_country_two_parts_witness:
  "CHR ''-'' \<notin> set ''regional'' \<and> CHR ''-'' \<notin> set ''au.csv'' \<and>
   extract_country_from_filename (''regional'' @ CHR ''-'' # ''au.csv'') = ''AU.CSV''"
proof -
  have a: "CHR ''-'' \<notin> set ''regional''" and b: "CHR ''-'' \<notin> set ''au.csv''"
    by simp_all
  have "py_upper ''au.csv'' = ''AU.CSV''"
    by (simp add: classifier_eval)
  with extract_country_two_parts [OF a b] a b show ?thesis
    by simp
qed

text \<open>
  C34. A country code never contains a hyphen nor a lower-case ASCII letter,
  whatever the file name.
\<close>

theorem extract_country_shape:
  "CHR ''-'' \<notin> set (extract_country_from_filename fn) \<and>
   (\<forall>c\<in>set (extract_country_from_filename fn). \<not> (CHR ''a'' \<le> c \<and> c \<le> CHR ''z''))"
proof -
  have "c \<noteq> CHR ''-'' \<and> \<not> (CHR ''a'' \<le> c \<and> c \<le> CHR ''z'')"
    if c: "c \<in> set (extract_country_from_filename fn)" for c
  proof (cases "c \<in> set ''UNKNOWN''")
    case True
    then show ?thesis by (auto simp: less_eq_char_def)
  next
    case False
    with country_chars [OF c] obtain x where "x \<noteq> CHR ''-''" "c = upper_char x" by blast
    then show ?thesis using upper_char_not_lower [of x] upper_char_not_hyphen [of x] by simp
  qed
  then show ?thesis by blast
qed

theorem extract_country_shape_witness:
  "extract_country_from_filename ''regional-au-weekly-2023-06-15.csv'' = ''AU'' \<and>
   CHR ''-'' \<notin> set (extract_country_from_filename ''regional-au-weekly-2023-06-15.csv'') \<and>
   list_all (\<lambda>c. \<not> (CHR ''a'' \<le> c \<and> c \<le> CHR ''z''))
     (extract_country_from_filename ''regional-au-weekly-2023-06-15.csv'')"
proof -
  have "extract_country_from_filename ''regional-au-weekly-2023-06-15.csv'' = ''AU''"
    by (simp add: classifier_eval)
  with extract_country_shape [of "''regional-au-weekly-2023-06-15.csv''"] show ?thesis
    by (simp add: list_all_iff)
qed

end
