(* ===== verification/Frame.thy ===== *)
theory Frame
  imports Prelude
begin

text \<open>
  The tabular record set: the part of a pandas \<open>DataFrame\<close> the pipeline uses.
  A frame has an ordered list of column names and a list of rows, each row a
  list of cells aligned with the columns (a default integer index is implied
  by the row order; the code always concatenates with \<open>ignore_index=True\<close>).
  A cell is a missing value (\<open>NaN\<close>), an integer or a string.
  The operations are the two the code performs:
  \<^item> \<open>set_column\<close>: \<open>df['country'] = country\<close> (\<open>src/merge_csv.py\<close> line 91),
    which overwrites an existing column in place or appends a new one;
  \<^item> \<open>concat2\<close> and \<open>concat_frames\<close>: \<open>pd.concat([a, b], ignore_index=True)\<close>
    (line 96) and \<open>pd.concat(values, ignore_index=True)\<close> (line 116), an outer
    join on the columns: the result's columns are the union in order of first
    appearance, and a row lacking a column reads \<open>NaN\<close> there. \<open>pd.concat\<close> of
    no frame raises \<open>ValueError\<close>.
  The abstraction \<open>records\<close> reads a frame as the list of its rows as partial
  maps from column names to non-missing cells (the \<open>orient='records'\<close> view);
  under it concatenation is list append.
\<close>

subsection \<open>Data\<close>

datatype cell = NaN | IntVal int | StrVal string

record frame =
  columns :: "string list"
  rows :: "cell list list"

definition wf_frame :: "frame \<Rightarrow> bool" where
  "wf_frame df \<longleftrightarrow>
     distinct (columns df) \<and> (\<forall>r\<in>set (rows df). length r = length (columns df))"

definition row_count :: "frame \<Rightarrow> nat" where
  "row_count df = length (rows df)"

subsection \<open>Operations\<close>

text \<open>\<open>cell_at cols r c\<close>: the cell of row \<open>r\<close> (laid out by \<open>cols\<close>) in column \<open>c\<close>; \<open>NaN\<close> when the row has no such column, as reindexing gives.\<close>

definition cell_at :: "string list \<Rightarrow> cell list \<Rightarrow> string \<Rightarrow> cell" where
  "cell_at cols r c = (case map_of (zip cols r) c of Some v \<Rightarrow> v | None \<Rightarrow> NaN)"

definition realign :: "string list \<Rightarrow> string list \<Rightarrow> cell list \<Rightarrow> cell list" where
  "realign cols cols' r = map (cell_at cols r) cols'"

definition set_column :: "string \<Rightarrow> cell \<Rightarrow> frame \<Rightarrow> frame" where
  "set_column name v df =
     (if name \<in> set (columns df)
      then \<lparr>columns = columns df,
            rows = map (\<lambda>r. map (\<lambda>(c, x). if c = name then v else x) (zip (columns df) r))
                     (rows df)\<rparr>
      else \<lparr>columns = columns df @ [name], rows = map (\<lambda>r. r @ [v]) (rows df)\<rparr>)"

definition union_columns :: "string list \<Rightarrow> string list \<Rightarrow> string list" where
  "union_columns cs cs' = cs @ filter (\<lambda>c. c \<notin> set cs) cs'"

definition concat2 :: "frame \<Rightarrow> frame \<Rightarrow> frame" where
  "concat2 a b =
     (let cs = union_columns (columns a) (columns b)
      in \<lparr>columns = cs,
          rows = map (realign (columns a) cs) (rows a) @ map (realign (columns b) cs) (rows b)\<rparr>)"

definition concat_frames :: "frame list \<Rightarrow> py_error + frame" where
  "concat_frames dfs =
     (if dfs = [] then Inl (ValueError ''No objects to concatenate'')
      else let cs = foldl union_columns [] (map columns dfs)
           in Inr \<lparr>columns = cs,
                   rows = concat (map (\<lambda>df. map (realign (columns df) cs) (rows df)) dfs)\<rparr>)"

subsection \<open>The records view\<close>

fun present :: "cell \<Rightarrow> cell option" where
  "present NaN = None"
| "present v = Some v"

definition row_record :: "string list \<Rightarrow> cell list \<Rightarrow> string \<Rightarrow> cell option" where
  "row_record cols r c = (case map_of (zip cols r) c of None \<Rightarrow> None | Some v \<Rightarrow> present v)"

definition records :: "frame \<Rightarrow> (string \<Rightarrow> cell option) list" where
  "records df = map (row_record (columns df)) (rows df)"

subsection \<open>Lemmas\<close>


lemma map_of_zip_SomeD: "map_of (zip xs ys) x = Some y \<Longrightarrow> x \<in> set xs"
  by (auto dest: map_of_SomeD set_zip_leftD)

lemma cell_at_in:
  "length r = length cols \<Longrightarrow> c \<in> set cols \<Longrightarrow> map_of (zip cols r) c = Some (cell_at cols r c)"
  by (auto simp: cell_at_def dest: map_of_zip_is_Some [THEN iffD1] split: option.splits)

lemma cell_at_notin: "c \<notin> set cols \<Longrightarrow> cell_at cols r c = NaN"
proof -
  assume "c \<notin> set cols"
  then have "map_of (zip cols r) c = None"
    by (auto simp: map_of_eq_None_iff dest: set_zip_leftD)
  then show ?thesis by (simp add: cell_at_def)
qed

lemma length_realign [simp]: "length (realign cs cs' r) = length cs'"
  by (simp add: realign_def)

lemma realign_realign:
  "set cs \<subseteq> set cs' \<Longrightarrow> realign cs' cs'' (realign cs cs' r) = realign cs cs'' r"
  by (auto simp: realign_def cell_at_def map_of_zip_map intro!: map_cong
           dest: map_of_zip_SomeD split: option.splits)

lemma realign_id:
  "distinct cs \<Longrightarrow> length r = length cs \<Longrightarrow> realign cs cs r = r"
proof -
  assume d: "distinct cs" and l: "length r = length cs"
  have "map (cell_at cs r) cs = r"
  proof (rule nth_equalityI)
    fix i assume "i < length (map (cell_at cs r) cs)"
    with d l show "map (cell_at cs r) cs ! i = r ! i"
      by (simp add: cell_at_def map_of_zip_nth)
  qed (simp add: l)
  then show ?thesis by (simp add: realign_def)
qed

lemma row_record_realign:
  "set cs \<subseteq> set cs' \<Longrightarrow> row_record cs' (realign cs cs' r) = row_record cs r"
  by (auto simp: fun_eq_iff row_record_def realign_def map_of_zip_map cell_at_def
           dest: map_of_zip_SomeD split: option.splits)

lemma set_union_columns [simp]: "set (union_columns cs cs') = set cs \<union> set cs'"
  by (auto simp: union_columns_def)

lemma distinct_union_columns:
  "distinct cs \<Longrightarrow> distinct cs' \<Longrightarrow> distinct (union_columns cs cs')"
  by (auto simp: union_columns_def)

lemma wf_concat2: "wf_frame a \<Longrightarrow> wf_frame b \<Longrightarrow> wf_frame (concat2 a b)"
  by (auto simp: wf_frame_def concat2_def Let_def distinct_union_columns)

lemma records_concat2:
  "records (concat2 a b) = records a @ records b"
  by (simp add: records_def concat2_def Let_def comp_def row_record_realign)

lemma row_count_concat2 [simp]: "row_count (concat2 a b) = row_count a + row_count b"
  by (simp add: row_count_def concat2_def Let_def)


lemma union_columns_Nil [simp]: "union_columns [] cs = cs"
  by (simp add: union_columns_def)

lemma columns_concat2 [simp]: "columns (concat2 a b) = union_columns (columns a) (columns b)"
  by (simp add: concat2_def Let_def)

lemma rows_concat2:
  "rows (concat2 a b) =
     map (realign (columns a) (union_columns (columns a) (columns b))) (rows a) @
     map (realign (columns b) (union_columns (columns a) (columns b))) (rows b)"
  by (simp add: concat2_def Let_def)

lemma foldl_union_columns_mono:
  "set cs \<subseteq> set (foldl union_columns cs css)"
proof (induction css arbitrary: cs)
  case (Cons c css)
  have "set cs \<subseteq> set (union_columns cs c)" by simp
  with Cons.IH [of "union_columns cs c"] show ?case by simp
qed simp

lemma foldl_concat2:
  "wf_frame a \<Longrightarrow> \<forall>d\<in>set dfs. wf_frame d \<Longrightarrow>
   foldl concat2 a dfs =
     (let cs = foldl union_columns (columns a) (map columns dfs)
      in \<lparr>columns = cs,
          rows = concat (map (\<lambda>df. map (realign (columns df) cs) (rows df)) (a # dfs))\<rparr>)"
proof (induction dfs arbitrary: a)
  case Nil
  then show ?case by (simp add: wf_frame_def realign_id map_idI)
next
  case (Cons d ds)
  let ?u = "union_columns (columns a) (columns d)"
  let ?C = "foldl union_columns ?u (map columns ds)"
  have wf: "wf_frame (concat2 a d)"
    using Cons.prems by (simp add: wf_concat2)
  have sub: "set ?u \<subseteq> set ?C"
    by (rule foldl_union_columns_mono)
  have "map (realign ?u ?C) (rows (concat2 a d)) =
        map (realign (columns a) ?C) (rows a) @ map (realign (columns d) ?C) (rows d)"
    using sub by (simp add: rows_concat2 realign_realign)
  with Cons.IH [OF wf] Cons.prems show ?case
    by (simp add: Let_def)
qed

lemma map_of_zip_set:
  "length cols = length r \<Longrightarrow>
   map_of (zip cols (map (\<lambda>(c, x). if c = n then v else x) (zip cols r))) c =
   map_option (\<lambda>x. if c = n then v else x) (map_of (zip cols r) c)"
  by (induction cols r rule: list_induct2) auto

lemma records_set_column:
  "wf_frame df \<Longrightarrow>
   records (set_column n v df) = map (\<lambda>m. m(n := present v)) (records df)"
proof (cases "n \<in> set (columns df)")
  case True
  assume "wf_frame df"
  then have "\<forall>r\<in>set (rows df). length r = length (columns df)"
    by (simp add: wf_frame_def)
  with True show ?thesis
    by (auto simp: records_def set_column_def row_record_def map_of_zip_set fun_eq_iff
             dest: map_of_zip_SomeD split: option.splits)
next
  case False
  assume "wf_frame df"
  then have "\<forall>r\<in>set (rows df). length r = length (columns df)"
    by (simp add: wf_frame_def)
  with False show ?thesis
    by (auto simp: records_def set_column_def row_record_def fun_eq_iff map_add_def
             dest: map_of_zip_SomeD split: option.splits)
qed

lemma wf_set_column: "wf_frame df \<Longrightarrow> wf_frame (set_column n v df)"
  by (auto simp: wf_frame_def set_column_def)

lemma set_columns_set_column:
  "set (columns (set_column n v df)) = insert n (set (columns df))"
  by (auto simp: set_column_def)

lemma row_count_set_column [simp]: "row_count (set_column n v df) = row_count df"
  by (simp add: row_count_def set_column_def)

lemma concat_frames_Inr: "dfs \<noteq> [] \<Longrightarrow> \<exists>m. concat_frames dfs = Inr m"
  by (simp add: concat_frames_def Let_def)

lemma set_foldl_union_columns:
  "set (foldl union_columns cs css) = set cs \<union> \<Union> (set ` set css)"
  by (induction css arbitrary: cs) auto

lemma length_records [simp]: "length (records df) = row_count df"
  by (simp add: records_def row_count_def)

lemma records_concat_frames:
  "concat_frames dfs = Inr m \<Longrightarrow> records m = concat (map records dfs)"
proof -
  assume m: "concat_frames dfs = Inr m"
  let ?C = "foldl union_columns [] (map columns dfs)"
  have sub: "df \<in> set dfs \<Longrightarrow> set (columns df) \<subseteq> set ?C" for df
    by (auto simp: set_foldl_union_columns)
  from m have "dfs \<noteq> []" and
    m': "m = \<lparr>columns = ?C, rows = concat (map (\<lambda>df. map (realign (columns df) ?C) (rows df)) dfs)\<rparr>"
    by (auto simp: concat_frames_def Let_def split: if_splits)
  have "map (row_record ?C) (map (realign (columns df) ?C) (rows df)) = records df"
    if "df \<in> set dfs" for df
    using sub [OF that] by (simp add: records_def row_record_realign)
  then show ?thesis
    by (simp add: m' records_def [of "\<lparr>columns = _, rows = _\<rparr>"] map_concat comp_def
                  cong: map_cong)
qed

lemma distinct_foldl_union_columns:
  "distinct cs \<Longrightarrow> \<forall>c\<in>set css. distinct c \<Longrightarrow> distinct (foldl union_columns cs css)"
  by (induction css arbitrary: cs) (auto simp: distinct_union_columns)

lemma wf_concat_frames:
  "\<forall>d\<in>set dfs. wf_frame d \<Longrightarrow> concat_frames dfs = Inr m \<Longrightarrow> wf_frame m"
  by (auto simp: concat_frames_def wf_frame_def Let_def distinct_foldl_union_columns split: if_splits)

subsection \<open>Properties of the DataFrame operations\<close>

text \<open>
  C30. \<open>pd.concat\<close> of a non-empty list of well-formed frames equals folding
  the two-frame \<open>pd.concat\<close> over the list from the left, which is what the
  per-country accumulation does file by file.
\<close>

theorem concat_frames_pairwise:
  "\<forall>d\<in>set (df # dfs). wf_frame d \<Longrightarrow> concat_frames (df # dfs) = Inr (foldl concat2 df dfs)"
  by (simp add: concat_frames_def foldl_concat2 Let_def)

theorem concat_frames_pairwise_witness:
  "list_all wf_frame [\<lparr>columns = [''track'', ''streams''], rows = [[StrVal ''a'', IntVal 3]]\<rparr>,
                     \<lparr>columns = [''track''], rows = [[StrVal ''b'']]\<rparr>] \<and>
   concat_frames [\<lparr>columns = [''track'', ''streams''], rows = [[StrVal ''a'', IntVal 3]]\<rparr>,
                  \<lparr>columns = [''track''], rows = [[StrVal ''b'']]\<rparr>] =
   Inr (concat2 \<lparr>columns = [''track'', ''streams''], rows = [[StrVal ''a'', IntVal 3]]\<rparr>
                \<lparr>columns = [''track''], rows = [[StrVal ''b'']]\<rparr>)"
proof -
  have h: "\<forall>d\<in>set [\<lparr>columns = [''track'', ''streams''], rows = [[StrVal ''a'', IntVal 3]]\<rparr>,
             \<lparr>columns = [''track''], rows = [[StrVal ''b'']]\<rparr>]. wf_frame d"
    by (simp add: wf_frame_def)
  show ?thesis
    using h concat_frames_pairwise [OF h] by simp
qed

text \<open>
  C31. Concatenating two well-formed frames gives a well-formed frame whose
  columns are those of the first followed by the new ones of the second, whose
  row count is the sum, and whose records are those of the first followed by
  those of the second: no row is lost, duplicated or reordered, and a column a
  row lacked reads as missing.
\<close>

theorem concat2_correct:
  "wf_frame a \<Longrightarrow> wf_frame b \<Longrightarrow>
   wf_frame (concat2 a b) \<and>
   columns (concat2 a b) = columns a @ filter (\<lambda>c. c \<notin> set (columns a)) (columns b) \<and>
   row_count (concat2 a b) = row_count a + row_count b \<and>
   records (concat2 a b) = records a @ records b"
  by (simp add: wf_concat2 records_concat2 union_columns_def)

theorem concat2_correct_witness:
  "wf_frame \<lparr>columns = [''track'', ''streams''], rows = [[StrVal ''a'', IntVal 3]]\<rparr> \<and>
   wf_frame \<lparr>columns = [''streams'', ''country''], rows = [[IntVal 5, StrVal ''US'']]\<rparr> \<and>
   columns (concat2 \<lparr>columns = [''track'', ''streams''], rows = [[StrVal ''a'', IntVal 3]]\<rparr>
                    \<lparr>columns = [''streams'', ''country''], rows = [[IntVal 5, StrVal ''US'']]\<rparr>) =
     [''track'', ''streams'', ''country''] \<and>
   row_count (concat2 \<lparr>columns = [''track'', ''streams''], rows = [[StrVal ''a'', IntVal 3]]\<rparr>
                      \<lparr>columns = [''streams'', ''country''], rows = [[IntVal 5, StrVal ''US'']]\<rparr>) = 2"
proof -
  have a: "wf_frame \<lparr>columns = [''track'', ''streams''], rows = [[StrVal ''a'', IntVal 3]]\<rparr>"
    and b: "wf_frame \<lparr>columns = [''streams'', ''country''], rows = [[IntVal 5, StrVal ''US'']]\<rparr>"
    by (simp_all add: wf_frame_def)
  from concat2_correct [OF a b] a b show ?thesis
    by (simp add: row_count_def)
qed

text \<open>
  C32. \<open>df['country'] = country\<close> keeps a frame well formed and its row count,
  makes \<open>country\<close> one of its columns, and sets that column of every record
  to the value, whether the column existed (overwritten in place) or not
  (appended).
\<close>

theorem set_column_correct:
  "wf_frame df \<Longrightarrow>
   wf_frame (set_column n v df) \<and>
   set (columns (set_column n v df)) = insert n (set (columns df)) \<and>
   row_count (set_column n v df) = row_count df \<and>
   records (set_column n v df) = map (\<lambda>m. m(n := present v)) (records df)"
  by (simp add: wf_set_column records_set_column set_columns_set_column)

theorem set_column_correct_witness:
  "wf_frame \<lparr>columns = [''track'', ''country''], rows = [[StrVal ''a'', StrVal ''xx'']]\<rparr> \<and>
   set_column ''country'' (StrVal ''AU'')
     \<lparr>columns = [''track'', ''country''], rows = [[StrVal ''a'', StrVal ''xx'']]\<rparr> =
   \<lparr>columns = [''track'', ''country''], rows = [[StrVal ''a'', StrVal ''AU'']]\<rparr> \<and>
   row_count (set_column ''country'' (StrVal ''AU'')
     \<lparr>columns = [''track'', ''country''], rows = [[StrVal ''a'', StrVal ''xx'']]\<rparr>) = 1"
proof -
  have h: "wf_frame \<lparr>columns = [''track'', ''country''], rows = [[StrVal ''a'', StrVal ''xx'']]\<rparr>"
    by (simp add: wf_frame_def)
  from set_column_correct [OF h, of "''country''" "StrVal ''AU''"] h show ?thesis
    by (simp add: set_column_def row_count_def)
qed

end
