(* ===== verification/Paths.thy ===== *)
theory Paths
  imports Prelude
begin

text \<open>
  File discovery, \<open>src/merge_csv.py\<close> lines 77--81, and the two \<open>os.path\<close>
  functions the code calls. The directory walk itself (\<open>os.walk\<close>) is an
  input of the model: the list of \<open>(root, files)\<close> pairs in the order the
  walk yields them (the code ignores the sub-directory lists). POSIX paths:
  \<open>os.path.join(a, b)\<close> is \<open>b\<close> when \<open>b\<close> is absolute, \<open>a + b\<close> when \<open>a\<close> is
  empty or ends in a slash, and \<open>a + '/' + b\<close> otherwise; \<open>os.path.basename\<close>
  is the text after the last slash.
\<close>

definition py_endswith :: "string \<Rightarrow> string \<Rightarrow> bool" where
  "py_endswith s suf \<longleftrightarrow> length suf \<le> length s \<and> drop (length s - length suf) s = suf"

definition path_join :: "path \<Rightarrow> string \<Rightarrow> path" where
  "path_join a b =
     (if b \<noteq> [] \<and> hd b = CHR ''/'' then b
      else if a = [] \<or> last a = CHR ''/'' then a @ b
      else a @ CHR ''/'' # b)"

definition basename :: "path \<Rightarrow> string" where
  "basename p = rev (takeWhile (\<lambda>c. c \<noteq> CHR ''/'') (rev p))"

text \<open>
  \<open>collect_csv_files\<close> is the nested loop of lines 78--81: for each walk entry
  in order, each file name in order, keep the names ending in \<open>.csv\<close> and join
  them to their root.
\<close>

fun collect_csv_files :: "(path \<times> string list) list \<Rightarrow> path list" where
  "collect_csv_files [] = []"
| "collect_csv_files ((root, files) # walk) =
     map (path_join root) (filter (\<lambda>file. py_endswith file ''.csv'') files) @
     collect_csv_files walk"

lemma basename_path_join:
  assumes "CHR ''/'' \<notin> set f"
  shows "basename (path_join r f) = f"
proof -
  have f: "takeWhile (\<lambda>c. c \<noteq> CHR ''/'') (rev f) = rev f"
    using assms by (simp add: takeWhile_eq_all_conv)
  have f2: "takeWhile (\<lambda>c. c \<noteq> CHR ''/'') (rev f @ CHR ''/'' # xs) = rev f" for xs
    using assms by (subst takeWhile_append2) auto
  have nh: "\<not> (f \<noteq> [] \<and> hd f = CHR ''/'')"
    using assms by (cases f) auto
  show ?thesis
  proof (cases "r = [] \<or> last r = CHR ''/''")
    case True
    then consider "r = []" | r' where "r = r' @ [CHR ''/'']"
      by (metis append_butlast_last_id)
    then show ?thesis
    proof cases
      case 1
      with nh show ?thesis by (simp add: path_join_def basename_def f)
    next
      case 2
      with nh show ?thesis by (auto simp: path_join_def basename_def f2)
    qed
  next
    case False
    with nh show ?thesis by (auto simp: path_join_def basename_def f2)
  qed
qed

lemma set_collect_csv_files:
  "p \<in> set (collect_csv_files walk) \<longleftrightarrow>
   (\<exists>(root, files)\<in>set walk. \<exists>f\<in>set files. py_endswith f ''.csv'' \<and> p = path_join root f)"
  by (induction walk rule: collect_csv_files.induct) auto

lemma basename_no_slash: "CHR ''/'' \<notin> set (basename p)"
  by (auto simp: basename_def dest: set_takeWhileD)

lemma py_endswith_iff: "py_endswith s suf \<longleftrightarrow> (\<exists>x. s = x @ suf)"
proof
  assume "py_endswith s suf"
  then have "s = take (length s - length suf) s @ suf"
    unfolding py_endswith_def by (metis append_take_drop_id)
  then show "\<exists>x. s = x @ suf" ..
next
  assume "\<exists>x. s = x @ suf"
  then show "py_endswith s suf" by (auto simp: py_endswith_def)
qed

lemma py_endswith_path_join: "py_endswith b suf \<Longrightarrow> py_endswith (path_join a b) suf"
  by (auto simp: py_endswith_iff path_join_def)


end
