(* ===== verification/Accumulate.thy ===== *)
theory Accumulate
  imports Country Frame Paths
begin

text \<open>
  Per-country accumulation, the loop of \<open>src/merge_csv.py\<close> lines 84--96
  once each file has been read: the file's country is classified from its base
  name (\<open>country_of\<close>, lines 88--89), the frame gets the \<open>country\<close> column
  (\<open>tag_country\<close>, line 91), and the dictionary \<open>country_data\<close> either gets a
  new entry or has its entry replaced by the concatenation
  (\<open>add_country_frame\<close>, lines 93--96). \<open>accumulate\<close> runs the loop over
  the files in discovery order; the reading of each file is added by the
  orchestrator. \<open>country_groups\<close> is the specification of the result:
  countries in first-seen order, each with the records of its files in file
  order; \<open>records_dict\<close> abstracts the dictionary to it.
\<close>

subsection \<open>Definitions\<close>

definition country_of :: "path \<Rightarrow> string" where
  "country_of file_path = extract_country_from_filename (basename file_path)"

definition tag_country :: "path \<Rightarrow> frame \<Rightarrow> string \<times> frame" where
  "tag_country file_path df =
     (let country = country_of file_path
      in (country, set_column ''country'' (StrVal country) df))"

definition add_country_frame ::
  "(string, frame) dict \<Rightarrow> string \<Rightarrow> frame \<Rightarrow> (string, frame) dict" where
  "add_country_frame country_data country df =
     (case map_of country_data country of
        None \<Rightarrow> AList.update country df country_data
      | Some old \<Rightarrow> AList.update country (concat2 old df) country_data)"

definition accumulate_file :: "(string, frame) dict \<Rightarrow> path \<Rightarrow> frame \<Rightarrow> (string, frame) dict" where
  "accumulate_file country_data file_path df =
     (let (country, df') = tag_country file_path df
      in add_country_frame country_data country df')"

fun accumulate :: "(string, frame) dict \<Rightarrow> (path \<times> frame) list \<Rightarrow> (string, frame) dict" where
  "accumulate country_data [] = country_data"
| "accumulate country_data ((file_path, df) # fs) =
     accumulate (accumulate_file country_data file_path df) fs"

definition tagged_records :: "path \<times> frame \<Rightarrow> (string \<Rightarrow> cell option) list" where
  "tagged_records f = records (snd (tag_country (fst f) (snd f)))"

definition country_groups ::
  "(path \<times> frame) list \<Rightarrow> (string \<times> (string \<Rightarrow> cell option) list) list" where
  "country_groups fs =
     map (\<lambda>c. (c, concat (map tagged_records (filter (\<lambda>f. country_of (fst f) = c) fs))))
       (first_seen (map (country_of \<circ> fst) fs))"

definition records_dict ::
  "(string, frame) dict \<Rightarrow> (string \<times> (string \<Rightarrow> cell option) list) list" where
  "records_dict cd = map (\<lambda>(c, df). (c, records df)) cd"

text \<open>
  An input for the witnesses below: two Australian files and one American
  file, discovered in the order AU, US, AU.
\<close>

definition example_files :: "(path \<times> frame) list" where
  "example_files =
     [(''data/regional-au-weekly-2023-06-15.csv'',
       \<lparr>columns = [''track'', ''streams''], rows = [[StrVal ''a'', IntVal 10], [StrVal ''b'', IntVal 7]]\<rparr>),
      (''data/regional-us-weekly-2023-06-15.csv'',
       \<lparr>columns = [''track'', ''streams''], rows = [[StrVal ''c'', IntVal 12]]\<rparr>),
      (''data/regional-au-weekly-2023-06-22.csv'',
       \<lparr>columns = [''track''], rows = [[StrVal ''d'']]\<rparr>)]"

subsection \<open>Lemmas\<close>

lemma accumulate_snoc:
  "accumulate cd (fs @ [(p, df)]) = accumulate_file (accumulate cd fs) p df"
  by (induction cd fs rule: accumulate.induct) auto

lemma accumulate_file_eq:
  "accumulate_file cd p df =
     add_country_frame cd (country_of p) (set_column ''country'' (StrVal (country_of p)) df)"
  by (simp add: accumulate_file_def tag_country_def Let_def)

lemma keys_add_country_frame:
  "map fst (add_country_frame cd c df) =
     (if c \<in> set (map fst cd) then map fst cd else map fst cd @ [c])"
  by (auto simp: add_country_frame_def update_keys_same update_keys_append
           split: option.splits)

lemma keys_accumulate:
  "map fst (accumulate [] fs) = first_seen (map (country_of \<circ> fst) fs)"
proof (induction fs rule: rev_induct)
  case (snoc f fs)
  obtain p df where f: "f = (p, df)" by (cases f)
  have "set (map fst (accumulate [] fs)) = set (map (country_of \<circ> fst) fs)"
    using snoc.IH by (metis set_first_seen)
  with snoc.IH show ?case
    by (simp add: f accumulate_snoc accumulate_file_eq keys_add_country_frame)
qed simp


lemma country_groups_snoc:
  "country_groups (fs @ [f]) =
     (if country_of (fst f) \<in> set (map (country_of \<circ> fst) fs)
      then map (\<lambda>(k, r). if k = country_of (fst f) then (k, r @ tagged_records f) else (k, r))
             (country_groups fs)
      else country_groups fs @ [(country_of (fst f), tagged_records f)])"
proof (cases "country_of (fst f) \<in> set (map (country_of \<circ> fst) fs)")
  case True
  then show ?thesis
    by (auto simp: country_groups_def intro!: map_cong)
next
  case False
  then have "filter (\<lambda>g. country_of (fst g) = country_of (fst f)) fs = []"
    by (force simp: filter_empty_conv image_iff)
  with False show ?thesis
    by (auto simp: country_groups_def intro!: map_cong)
qed

lemma records_dict_add_country_frame:
  "distinct (map fst cd) \<Longrightarrow>
   records_dict (add_country_frame cd c df) =
     (if c \<in> set (map fst cd)
      then map (\<lambda>(k, r). if k = c then (k, r @ records df) else (k, r)) (records_dict cd)
      else records_dict cd @ [(c, records df)])"
proof (cases "map_of cd c")
  case None
  then have "c \<notin> set (map fst cd)"
    by (simp add: map_of_eq_None_iff image_iff)
  with None show ?thesis
    by (simp add: add_country_frame_def update_absent records_dict_def)
next
  case (Some old)
  assume d: "distinct (map fst cd)"
  from Some have c: "c \<in> set (map fst cd)"
    by (force dest: map_of_SomeD)
  have "add_country_frame cd c df =
          map (\<lambda>(k', v'). if k' = c then (k', concat2 v' df) else (k', v')) cd"
    using update_replace [OF d Some, of "\<lambda>v. concat2 v df"] Some
    by (simp add: add_country_frame_def)
  with c show ?thesis
    by (auto simp: records_dict_def records_concat2 intro!: map_cong)
qed

lemma tagged_records_eq:
  "tagged_records (p, df) = records (set_column ''country'' (StrVal (country_of p)) df)"
  by (simp add: tagged_records_def tag_country_def Let_def)

lemma records_dict_accumulate:
  "records_dict (accumulate [] fs) = country_groups fs"
proof (induction fs rule: rev_induct)
  case Nil
  then show ?case by (simp add: records_dict_def country_groups_def)
next
  case (snoc f fs)
  obtain p df where f: "f = (p, df)" by (cases f)
  have d: "distinct (map fst (accumulate [] fs))"
    by (simp add: keys_accumulate)
  have k: "set (map fst (accumulate [] fs)) = set (map (country_of \<circ> fst) fs)"
    by (metis keys_accumulate set_first_seen)
  have t: "tagged_records f = records (set_column ''country'' (StrVal (country_of p)) df)"
    by (simp add: f tagged_records_eq)
  show ?case
    using snoc.IH d k
    by (simp add: f accumulate_snoc accumulate_file_eq records_dict_add_country_frame
                  country_groups_snoc t [unfolded f] cong: if_cong)
qed

lemma map_of_records_dict:
  "map_of (records_dict cd) c = map_option records (map_of cd c)"
  by (induction cd) (auto simp: records_dict_def)

lemma map_of_country_groups:
  "map_of (country_groups fs) c =
     (if c \<in> set (map (country_of \<circ> fst) fs)
      then Some (concat (map tagged_records (filter (\<lambda>f. country_of (fst f) = c) fs)))
      else None)"
  by (simp add: country_groups_def map_of_map_restrict del: set_map)

lemma length_tagged_records [simp]: "length (tagged_records f) = row_count (snd f)"
  by (simp add: tagged_records_def tag_country_def Let_def)

lemma accumulate_Nil_iff: "accumulate [] fs = [] \<longleftrightarrow> fs = []"
  using keys_accumulate [of fs] by (auto simp: first_seen_def)

lemma merged_records:
  "concat_frames (map snd (accumulate [] fs)) = Inr merged \<Longrightarrow>
   records merged = concat (map snd (country_groups fs))"
proof -
  assume "concat_frames (map snd (accumulate [] fs)) = Inr merged"
  then have "records merged = concat (map records (map snd (accumulate [] fs)))"
    by (rule records_concat_frames)
  also have "\<dots> = concat (map snd (records_dict (accumulate [] fs)))"
    by (simp add: records_dict_def split_def comp_def)
  finally show ?thesis
    by (simp add: records_dict_accumulate)
qed

lemma length_concat_country_groups:
  "length (concat (map snd (country_groups fs))) = (\<Sum>f\<leftarrow>fs. row_count (snd f))"
proof -
  have "length (concat (map snd (country_groups fs))) =
        (\<Sum>c\<leftarrow>first_seen (map (country_of \<circ> fst) fs).
            \<Sum>f\<leftarrow>filter (\<lambda>f. country_of (fst f) = c) fs. row_count (snd f))"
    by (simp add: country_groups_def length_concat_map comp_def)
  also have "\<dots> = (\<Sum>f\<leftarrow>fs. row_count (snd f))"
    using sum_first_seen_filter [where g = "country_of \<circ> fst" and xs = fs
                                      and h = "\<lambda>f. row_count (snd f)"]
    by (simp add: comp_def)
  finally show ?thesis .
qed

lemma country_of_example_files:
  "map (country_of \<circ> fst) example_files = [''AU'', ''US'', ''AU'']"
  by (simp add: example_files_def country_of_def basename_def classifier_eval)

lemma country_of_no_slash: "CHR ''/'' \<notin> set (country_of p)"
proof
  assume "CHR ''/'' \<in> set (country_of p)"
  then have "CHR ''/'' \<in> set ''UNKNOWN'' \<or> (\<exists>x\<in>set (basename p). x \<noteq> CHR ''-'' \<and> CHR ''/'' = upper_char x)"
    unfolding country_of_def by (rule country_chars)
  moreover have "\<not> (CHR ''A'' \<le> CHR ''/'' \<and> CHR ''/'' \<le> CHR ''Z'')"
    by (simp add: less_eq_char_def)
  ultimately show False
    using upper_char_fixed basename_no_slash [of p] by fastforce
qed

lemma country_of_no_lower: "c \<in> set (country_of p) \<Longrightarrow> \<not> (CHR ''a'' \<le> c \<and> c \<le> CHR ''z'')"
proof (cases "c \<in> set ''UNKNOWN''")
  case True
  then show ?thesis by (auto simp: less_eq_char_def)
next
  case False
  assume "c \<in> set (country_of p)"
  with False country_chars obtain x where "c = upper_char x"
    unfolding country_of_def by blast
  then show ?thesis using upper_char_not_lower [of x] by simp
qed

lemma wf_add_country_frame:
  "\<forall>d\<in>set (map snd cd). wf_frame d \<Longrightarrow> wf_frame df \<Longrightarrow>
   \<forall>d\<in>set (map snd (add_country_frame cd c df)). wf_frame d"
proof -
  assume cd: "\<forall>d\<in>set (map snd cd). wf_frame d" and df: "wf_frame df"
  have new: "wf_frame (case map_of cd c of None \<Rightarrow> df | Some old \<Rightarrow> concat2 old df)"
  proof (cases "map_of cd c")
    case (Some old)
    then have "old \<in> set (map snd cd)" by (force dest: map_of_SomeD)
    with cd df Some show ?thesis by (auto intro: wf_concat2)
  qed (simp add: df)
  let ?v = "case map_of cd c of None \<Rightarrow> df | Some old \<Rightarrow> concat2 old df"
  have eq: "add_country_frame cd c df = AList.update c ?v cd"
    by (simp add: add_country_frame_def split: option.splits)
  have "set (map snd (AList.update c ?v cd)) \<subseteq> insert ?v (set (map snd cd))"
    by (rule set_update_values)
  then show ?thesis
    unfolding eq using cd new by blast
qed

lemma wf_accumulate:
  "\<forall>d\<in>set (map snd cd). wf_frame d \<Longrightarrow> \<forall>f\<in>set fs. wf_frame (snd f) \<Longrightarrow>
   \<forall>d\<in>set (map snd (accumulate cd fs)). wf_frame d"
proof (induction cd fs rule: accumulate.induct)
  case (2 cd p df fs)
  have "wf_frame (set_column ''country'' (StrVal (country_of p)) df)"
    using "2.prems"(2) by (simp add: wf_set_column)
  with "2.prems"(1) have "\<forall>d\<in>set (map snd (add_country_frame cd (country_of p)
      (set_column ''country'' (StrVal (country_of p)) df))). wf_frame d"
    by (rule wf_add_country_frame)
  then have "\<forall>d\<in>set (map snd (accumulate_file cd p df)). wf_frame d"
    by (simp add: accumulate_file_def tag_country_def Let_def)
  with 2 show ?case by simp
qed simp

subsection \<open>Properties of the accumulation\<close>

text \<open>
  C3. The accumulated dictionary refines the grouping specification: its keys
  are distinct and in first-seen order of the files' countries, and the entry of
  each country holds exactly the records of that country's files, each with its
  \<open>country\<close> field set, in discovery order and without deduplication.
\<close>

theorem accumulate_refines_groups:
  "distinct (map fst (accumulate [] fs)) \<and>
   map fst (accumulate [] fs) = first_seen (map (country_of \<circ> fst) fs) \<and>
   records_dict (accumulate [] fs) = country_groups fs"
  by (simp add: keys_accumulate records_dict_accumulate)

text \<open>
  C4. Accumulation is non-lossy: the row count of a country's record set is the
  sum of the row counts of the files classified to that country.
\<close>

theorem accumulate_country_rows:
  assumes "c \<in> set (map (country_of \<circ> fst) fs)"
  shows "\<exists>df. map_of (accumulate [] fs) c = Some df \<and>
           row_count df = (\<Sum>f\<leftarrow>filter (\<lambda>f. country_of (fst f) = c) fs. row_count (snd f))"
proof -
  let ?G = "concat (map tagged_records (filter (\<lambda>f. country_of (fst f) = c) fs))"
  have "map_of (records_dict (accumulate [] fs)) c = Some ?G"
    using assms by (simp only: records_dict_accumulate map_of_country_groups if_True)
  then have "map_option records (map_of (accumulate [] fs) c) = Some ?G"
    by (simp only: map_of_records_dict)
  then obtain df where df: "map_of (accumulate [] fs) c = Some df" and r: "records df = ?G"
    by auto
  have "row_count df = length ?G"
    by (simp only: r [symmetric] length_records)
  also have "\<dots> = (\<Sum>f\<leftarrow>filter (\<lambda>f. country_of (fst f) = c) fs. row_count (snd f))"
    by (simp add: length_concat_map)
  finally show ?thesis
    using df by blast
qed

theorem accumulate_country_rows_witness:
  "''AU'' \<in> set (map (country_of \<circ> fst) example_files) \<and>
   (\<exists>df. map_of (accumulate [] example_files) ''AU'' = Some df \<and> row_count df = 3)"
proof -
  have h: "''AU'' \<in> set (map (country_of \<circ> fst) example_files)"
    by (simp add: country_of_example_files)
  have "(\<Sum>f\<leftarrow>filter (\<lambda>f. country_of (fst f) = ''AU'') example_files. row_count (snd f)) = 3"
    by (simp add: example_files_def country_of_def basename_def classifier_eval row_count_def)
  with accumulate_country_rows [OF h] h show ?thesis
    by simp
qed

text \<open>
  C5. The merged record set (\<open>pd.concat\<close> of the dictionary's values, line
  116) holds the countries' records one country after the other in first-seen
  order, and its row count is the sum of the row counts of all files: no row is
  dropped or duplicated.
\<close>

theorem merged_rows:
  "concat_frames (map snd (accumulate [] fs)) = Inr merged \<Longrightarrow>
   records merged = concat (map snd (country_groups fs)) \<and>
   row_count merged = (\<Sum>f\<leftarrow>fs. row_count (snd f))"
proof -
  assume m: "concat_frames (map snd (accumulate [] fs)) = Inr merged"
  then have r: "records merged = concat (map snd (country_groups fs))"
    by (rule merged_records)
  have "row_count merged = length (records merged)"
    by simp
  with r show ?thesis
    by (simp add: length_concat_country_groups)
qed

theorem merged_rows_witness:
  "\<exists>merged. concat_frames (map snd (accumulate [] example_files)) = Inr merged \<and>
            row_count merged = 4"
proof -
  have "example_files \<noteq> []"
    by (simp add: example_files_def)
  then have "accumulate [] example_files \<noteq> []"
    by (simp only: accumulate_Nil_iff not_False_eq_True)
  then obtain merged where m: "concat_frames (map snd (accumulate [] example_files)) = Inr merged"
    using concat_frames_Inr by blast
  have "(\<Sum>f\<leftarrow>example_files. row_count (snd f)) = 4"
    by (simp add: example_files_def row_count_def)
  with merged_rows [OF m] m show ?thesis
    by auto
qed

text \<open>
  C15. A country's record set is only ever appended to: after a file is
  accumulated, every country already in the dictionary is still there and
  its records start with the records it had, whatever the file's country and
  columns (a column the older rows lack reads as missing, which the records
  view does not show).
\<close>

theorem accumulate_append_only:
  assumes old: "map_of cd c = Some old"
  shows "\<exists>new more. map_of (accumulate_file cd p df) c = Some new \<and> records new = records old @ more"
proof (cases "c = country_of p")
  case True
  with old show ?thesis
    by (simp add: accumulate_file_def tag_country_def add_country_frame_def Let_def update_conv' records_concat2)
next
  case False
  with old show ?thesis
    by (auto simp: accumulate_file_def tag_country_def add_country_frame_def Let_def update_conv' split: option.splits)
qed

theorem accumulate_append_only_witness:
  "\<exists>new more. map_of (accumulate_file [(''AU'', \<lparr>columns = [''track'', ''country''], rows = [[StrVal ''a'', StrVal ''AU'']]\<rparr>)]
                      ''spotify_data/regional-au-weekly-2023-06-22.csv'' \<lparr>columns = [''track''], rows = [[StrVal ''b'']]\<rparr>) ''AU'' = Some new \<and>
     records new = records \<lparr>columns = [''track'', ''country''], rows = [[StrVal ''a'', StrVal ''AU'']]\<rparr> @ more"
  using accumulate_append_only [of "[(''AU'', \<lparr>columns = [''track'', ''country''], rows = [[StrVal ''a'', StrVal ''AU'']]\<rparr>)]" "''AU''"]
  by simp

end
