(* ===== verification/FileSystem.thy ===== *)
theory FileSystem
  imports Paths
begin

text \<open>
  The operating-system interface the pipeline uses, as explicit state passing.
  The world holds the files (path to contents), the existing directories, the
  paths the process may not create or write (an unwritable destination), and
  the lines printed so far. A call is an \<open>'a io\<close>: it takes the world and
  returns its result, or the exception it raises, with the world after it.
  Writes done before an exception stay done, as on a real file system.
  \<^item> \<open>write_file\<close> is \<open>open(p, 'w')\<close> followed by \<open>write\<close>, which is also
    what \<open>to_csv(p)\<close> and \<open>to_json(p)\<close> do: it raises \<open>FileNotFoundError\<close>
    when the parent directory does not exist and \<open>OSError\<close> on a denied
    path (a permission error) or on a directory (\<open>IsADirectoryError\<close>);
  \<^item> \<open>read_file\<close> opens an existing file for reading;
  \<^item> \<open>makedirs\<close> is \<open>os.makedirs(d, exist_ok=True)\<close>: nothing when the
    directory exists, \<open>OSError\<close> when a file has that name or the path is
    denied, and otherwise the directory is created;
  \<^item> \<open>print_line\<close> is \<open>print\<close>, which appends a line to standard output.
  Each action is also a value of the datatype \<open>action\<close>; \<open>run_actions\<close> runs
  a list of them in order and stops at the first failure, so the effect of a
  failed run is the effect of a prefix of the list.
\<close>

subsection \<open>The world and the I/O monad\<close>

record world =
  files :: "path \<rightharpoonup> contents"
  dirs :: "path set"
  denied :: "path set"
  stdout :: "string list"

type_synonym 'a io = "world \<Rightarrow> (py_error + 'a) \<times> world"

definition io_return :: "'a \<Rightarrow> 'a io" where
  "io_return a w = (Inr a, w)"

definition io_lift :: "py_error + 'a \<Rightarrow> 'a io" where
  "io_lift r w = (r, w)"

definition io_bind :: "'a io \<Rightarrow> ('a \<Rightarrow> 'b io) \<Rightarrow> 'b io" where
  "io_bind m f w = (case m w of (Inl e, w') \<Rightarrow> (Inl e, w') | (Inr a, w') \<Rightarrow> f a w')"

definition io_seq :: "unit io \<Rightarrow> 'b io \<Rightarrow> 'b io" where
  "io_seq m n = io_bind m (\<lambda>_. n)"

subsection \<open>Operating-system calls\<close>

text \<open>\<open>os.path.dirname\<close>: the text before the last slash, without its trailing slashes unless it is only slashes.\<close>

definition dirname :: "path \<Rightarrow> path" where
  "dirname p =
     (let head = rev (dropWhile (\<lambda>c. c \<noteq> CHR ''/'') (rev p))
      in if list_ex (\<lambda>c. c \<noteq> CHR ''/'') head
         then rev (dropWhile (\<lambda>c. c = CHR ''/'') (rev head)) else head)"

definition dir_exists :: "world \<Rightarrow> path \<Rightarrow> bool" where
  "dir_exists w d \<longleftrightarrow> d = [] \<or> d \<in> dirs w"

definition write_file :: "path \<Rightarrow> contents \<Rightarrow> unit io" where
  "write_file p s w =
     (if \<not> dir_exists w (dirname p) then (Inl (FileNotFoundError p), w)
      else if p \<in> denied w \<or> p \<in> dirs w then (Inl (OSError p), w)
      else (Inr (), w\<lparr>files := (files w)(p \<mapsto> s)\<rparr>))"

definition read_file :: "path \<Rightarrow> contents io" where
  "read_file p w =
     (case files w p of None \<Rightarrow> (Inl (FileNotFoundError p), w) | Some s \<Rightarrow> (Inr s, w))"

definition makedirs :: "path \<Rightarrow> unit io" where
  "makedirs d w =
     (if d \<in> dirs w then (Inr (), w)
      else if d \<in> dom (files w) \<or> d \<in> denied w then (Inl (OSError d), w)
      else (Inr (), w\<lparr>dirs := insert d (dirs w)\<rparr>))"

definition print_line :: "string \<Rightarrow> unit io" where
  "print_line s w = (Inr (), w\<lparr>stdout := stdout w @ [s]\<rparr>)"

subsection \<open>Action sequences\<close>

datatype action = WriteFile path contents | PrintLine string

fun perform :: "action \<Rightarrow> unit io" where
  "perform (WriteFile p s) = write_file p s"
| "perform (PrintLine s) = print_line s"

fun run_actions :: "action list \<Rightarrow> unit io" where
  "run_actions [] = io_return ()"
| "run_actions (a # acts) = io_seq (perform a) (run_actions acts)"

text \<open>The effect of an action that succeeds, and of a list of them.\<close>

fun effect :: "action \<Rightarrow> world \<Rightarrow> world" where
  "effect (WriteFile p s) w = w\<lparr>files := (files w)(p \<mapsto> s)\<rparr>"
| "effect (PrintLine s) w = w\<lparr>stdout := stdout w @ [s]\<rparr>"

definition effects :: "action list \<Rightarrow> world \<Rightarrow> world" where
  "effects acts w = fold effect acts w"

text \<open>Whether an action can succeed in a world (the guards of \<open>write_file\<close>).\<close>

fun can_perform :: "world \<Rightarrow> action \<Rightarrow> bool" where
  "can_perform w (WriteFile p s) \<longleftrightarrow> dir_exists w (dirname p) \<and> p \<notin> denied w \<and> p \<notin> dirs w"
| "can_perform w (PrintLine s) \<longleftrightarrow> True"

text \<open>The exception a failing action raises.\<close>

fun action_error :: "world \<Rightarrow> action \<Rightarrow> py_error" where
  "action_error w (WriteFile p s) =
     (if \<not> dir_exists w (dirname p) then FileNotFoundError p else OSError p)"
| "action_error w (PrintLine s) = OSError []"

text \<open>
  \<open>keeps_files P m\<close>: whatever the world and the outcome, \<open>m\<close> changes at
  most the files at paths satisfying \<open>P\<close> (a frame condition, proved
  compositionally with the rules of \<open>keeps_rules\<close>).
\<close>

definition keeps_files :: "(path \<Rightarrow> bool) \<Rightarrow> 'a io \<Rightarrow> bool" where
  "keeps_files P m \<longleftrightarrow> (\<forall>w p. \<not> P p \<longrightarrow> files (snd (m w)) p = files w p)"

subsection \<open>Lemmas\<close>

lemma io_bind_return [simp]: "io_bind (io_return a) f = f a"
  by (simp add: io_bind_def io_return_def fun_eq_iff)

lemma io_bind_assoc: "io_bind (io_bind m f) g = io_bind m (\<lambda>a. io_bind (f a) g)"
  by (auto simp: io_bind_def fun_eq_iff split: prod.splits sum.splits)

lemma io_seq_assoc: "io_seq (io_seq m n) k = io_seq m (io_seq n k)"
  by (simp add: io_seq_def io_bind_assoc)

lemma dirs_effect [simp]: "dirs (effect a w) = dirs w"
  by (cases a) auto

lemma denied_effect [simp]: "denied (effect a w) = denied w"
  by (cases a) auto

lemma can_perform_effect [simp]: "can_perform (effect b w) a = can_perform w a"
  by (cases a) (auto simp: dir_exists_def)

lemma can_perform_effects [simp]: "can_perform (effects bs w) a = can_perform w a"
  by (induction bs arbitrary: w) (auto simp: effects_def)

lemma perform_ok: "can_perform w a \<Longrightarrow> perform a w = (Inr (), effect a w)"
  by (cases a) (auto simp: write_file_def print_line_def)

lemma perform_fail: "\<not> can_perform w a \<Longrightarrow> perform a w = (Inl (action_error w a), w)"
  by (cases a) (auto simp: write_file_def print_line_def)

lemma effects_simps [simp]:
  "effects [] w = w"
  "effects (a # acts) w = effects acts (effect a w)"
  by (simp_all add: effects_def)

lemma dirs_effects [simp]: "dirs (effects bs w) = dirs w"
  by (induction bs arbitrary: w) auto

lemma action_error_effect [simp]: "action_error (effect b w) a = action_error w a"
  by (cases a) (auto simp: dir_exists_def)

lemma action_error_effects [simp]: "action_error (effects bs w) a = action_error w a"
  by (cases a) (auto simp: dir_exists_def)

lemma run_actions_eq:
  "run_actions acts w =
     (let k = length (takeWhile (can_perform w) acts)
      in if k = length acts then (Inr (), effects acts w)
         else (Inl (action_error w (acts ! k)), effects (take k acts) w))"
proof (induction acts arbitrary: w)
  case Nil
  then show ?case by (simp add: io_return_def)
next
  case (Cons a acts)
  show ?case
  proof (cases "can_perform w a")
    case True
    have "run_actions (a # acts) w = run_actions acts (effect a w)"
      using True by (simp add: io_seq_def io_bind_def perform_ok)
    with True Cons.IH [of "effect a w"] show ?thesis
      by (simp add: Let_def)
  next
    case False
    then show ?thesis
      by (simp add: io_seq_def io_bind_def perform_fail)
  qed
qed

lemma run_actions_append:
  "run_actions (xs @ ys) = io_seq (run_actions xs) (run_actions ys)"
proof (induction xs)
  case Nil
  then show ?case by (simp add: io_seq_def fun_eq_iff)
next
  case (Cons a xs)
  then show ?case by (simp add: io_seq_assoc)
qed

lemma run_actions_prefix:
  "run_actions acts w = (r, w') \<Longrightarrow>
   \<exists>k\<le>length acts. w' = effects (take k acts) w \<and> (r = Inr () \<longrightarrow> k = length acts)"
proof -
  assume run: "run_actions acts w = (r, w')"
  let ?k = "length (takeWhile (can_perform w) acts)"
  have "?k \<le> length acts" by (rule length_takeWhile_le)
  with run show ?thesis
    by (intro exI [of _ ?k]) (auto simp: run_actions_eq Let_def split: if_splits)
qed

lemma run_actions_all:
  "\<forall>a\<in>set acts. can_perform w a \<Longrightarrow> run_actions acts w = (Inr (), effects acts w)"
proof -
  assume "\<forall>a\<in>set acts. can_perform w a"
  then have tw: "takeWhile (can_perform w) acts = acts" by (simp add: takeWhile_eq_all_conv)
  show ?thesis unfolding run_actions_eq Let_def tw by simp
qed

lemma run_actions_Inr:
  "run_actions acts w = (Inr (), w') \<Longrightarrow> (\<forall>a\<in>set acts. can_perform w a) \<and> w' = effects acts w"
proof -
  assume run: "run_actions acts w = (Inr (), w')"
  then have k: "length (takeWhile (can_perform w) acts) = length acts" and w': "w' = effects acts w"
    by (auto simp: run_actions_eq Let_def split: if_splits)
  from k have "takeWhile (can_perform w) acts = acts"
    by (metis takeWhile_eq_take take_all_iff order_refl)
  with w' show ?thesis by (simp add: takeWhile_eq_all_conv)
qed

lemma effect_dirs_update: "effect a (w\<lparr>dirs := D\<rparr>) = (effect a w)\<lparr>dirs := D\<rparr>"
  by (cases a) simp_all

lemma effects_dirs_update: "effects acts (w\<lparr>dirs := D\<rparr>) = (effects acts w)\<lparr>dirs := D\<rparr>"
  by (induction acts arbitrary: w) (simp_all add: effect_dirs_update)

text \<open>The parent of a path joined to a name without a slash is the folder.\<close>

lemma dirname_join:
  assumes x: "CHR ''/'' \<notin> set x" and d: "list_ex (\<lambda>c. c \<noteq> CHR ''/'') d" and l: "last d \<noteq> CHR ''/''"
  shows "dirname (path_join d x) = d"
proof -
  have ne: "d \<noteq> []" using d by auto
  have pj: "path_join d x = d @ CHR ''/'' # x"
    using x ne l by (cases x) (auto simp: path_join_def)
  have drop: "dropWhile (\<lambda>c. c \<noteq> CHR ''/'') (rev x @ CHR ''/'' # rev d) = CHR ''/'' # rev d"
    using x by (subst dropWhile_append2) auto
  have rd: "rev d = last d # rev (butlast d)"
    using ne by (induction d rule: rev_induct) auto
  have "dropWhile (\<lambda>c. c = CHR ''/'') (last d # rev (butlast d)) = last d # rev (butlast d)"
    using l by simp
  then have "dropWhile (\<lambda>c. c = CHR ''/'') (rev d) = rev d"
    by (simp only: rd [symmetric])
  then show ?thesis
    using d by (simp add: dirname_def pj drop)
qed

lemma makedirs_dirs_only:
  "makedirs d w = (r, w') \<Longrightarrow> \<exists>D. w' = w\<lparr>dirs := D\<rparr> \<and> dirs w \<subseteq> D \<and> D \<subseteq> insert d (dirs w)"
  by (auto simp: makedirs_def split: if_splits intro: exI [of _ "dirs w"])

lemma io_seq_eq:
  "io_seq m n w = (case m w of (Inl e, w') \<Rightarrow> (Inl e, w') | (Inr _, w') \<Rightarrow> n w')"
  by (simp add: io_seq_def io_bind_def)


lemma makedirs_Inr: "makedirs d w = (Inr (), w') \<Longrightarrow> d \<in> dirs w' \<and> dirs w \<subseteq> dirs w'"
  by (auto simp: makedirs_def split: if_splits)

lemma makedirs_existing: "d \<in> dirs w \<Longrightarrow> makedirs d w = (Inr (), w)"
  by (simp add: makedirs_def)

lemma io_bind_Inr:
  "io_bind m f w = (Inr b, w') \<Longrightarrow> \<exists>a w1. m w = (Inr a, w1) \<and> f a w1 = (Inr b, w')"
  by (auto simp: io_bind_def split: prod.splits sum.splits)

lemma io_seq_Inr:
  "io_seq m n w = (Inr b, w') \<Longrightarrow> \<exists>w1. m w = (Inr (), w1) \<and> n w1 = (Inr b, w')"
  by (auto simp: io_seq_def dest!: io_bind_Inr)

subsection \<open>Frame rules\<close>

lemma keeps_return [keeps_rules]: "keeps_files P (io_return a)"
  by (simp add: keeps_files_def io_return_def)

lemma keeps_lift [keeps_rules]: "keeps_files P (io_lift r)"
  by (simp add: keeps_files_def io_lift_def)

lemma keeps_print [keeps_rules]: "keeps_files P (print_line s)"
  by (simp add: keeps_files_def print_line_def)

lemma keeps_makedirs [keeps_rules]: "keeps_files P (makedirs d)"
  by (simp add: keeps_files_def makedirs_def)

lemma keeps_read_file [keeps_rules]: "keeps_files P (read_file p)"
  by (simp add: keeps_files_def read_file_def split: option.splits)

lemma keeps_write [keeps_rules]: "P p \<Longrightarrow> keeps_files P (write_file p s)"
  by (simp add: keeps_files_def write_file_def)

lemma keeps_bind [keeps_rules]:
  "keeps_files P m \<Longrightarrow> (\<And>a. keeps_files P (f a)) \<Longrightarrow> keeps_files P (io_bind m f)"
  by (simp add: keeps_files_def io_bind_def split: prod.splits sum.splits) (metis snd_conv)

lemma keeps_seq [keeps_rules]:
  "keeps_files P m \<Longrightarrow> keeps_files P n \<Longrightarrow> keeps_files P (io_seq m n)"
  by (simp add: io_seq_def keeps_bind)

lemma keeps_if_world [keeps_rules]:
  "keeps_files P m \<Longrightarrow> keeps_files P n \<Longrightarrow> keeps_files P (\<lambda>w. if C w then m w else n w)"
  by (simp add: keeps_files_def)

lemma keeps_files_apply: "keeps_files P m \<Longrightarrow> \<not> P p \<Longrightarrow> files (snd (m w)) p = files w p"
  by (simp add: keeps_files_def)

end
