(* ===== verification/Csv.thy ===== *)
theory Csv
  imports Country Frame FileSystem
begin

text \<open>
  The delimited-text format on both sides. Writing is the call
  \<open>data.to_csv(path, index=False, encoding='utf-8-sig', line_terminator='\\n')\<close>
  of \<open>src/merge_csv.py\<close> (lines 107 and 122): a UTF-8 byte-order mark, the
  header row, one row per record, fields joined by commas, a field quoted when
  it holds a comma, a double quote, a line feed or a carriage return (quotes
  inside doubled), a record made of one empty field written as two quotes (as
  Python's csv writer does), missing values written empty, every line ended by
  a line feed. Reading is \<open>pd.read_csv(file_path)\<close> (line 90) with the C
  parser's defaults: the byte-order mark dropped, the tokenizer state machine
  (\<open>lex_char\<close>) with quoted fields, blank lines and lines of spaces and
  tabs only skipped (\<open>WHITESPACE_LINE\<close>), \<open>EmptyDataError\<close>
  for a file without records, \<open>ParserError\<close> for an unterminated quote or a
  row longer than the header, shorter rows padded with missing values, empty
  header names replaced by \<open>Unnamed: i\<close>, duplicate names mangled to
  \<open>name.1\<close>, \<open>name.2\<close>, ... (\<open>dedup_names\<close>, whose inner loop runs on
  fuel that is proved sufficient), pandas' default missing-value strings, and a
  column read as integers when every field of it is an integer literal.
  Not modelled: float and boolean column types (a column of integers with a
  missing value is read as floats by pandas and written back as \<open>3.0\<close>; here
  it stays text), the implicit index pandas makes of a first data row one field
  longer than the header, whitespace around numbers, integers beyond 64 bits
  (\<open>uint64\<close> or floats in pandas, integers here), the backtracking of
  \<open>WHITESPACE_LINE\<close> after a line ended by a lone carriage return (pandas
  goes back to the previous line feed; here to the start of the line), and
  the \<open>ensure_ascii\<close> and encoding details of non-ASCII text.
\<close>

subsection \<open>Writing\<close>

definition utf8_bom :: string where
  "utf8_bom = [char_of (239::nat), char_of (187::nat), char_of (191::nat)]"

fun nat_text :: "nat \<Rightarrow> string" where
  "nat_text n =
     (if n < 10 then [char_of (48 + n)] else nat_text (n div 10) @ [char_of (48 + n mod 10)])"

declare nat_text.simps [simp del]

definition int_text :: "int \<Rightarrow> string" where
  "int_text i = (if i < 0 then CHR ''-'' # nat_text (nat (- i)) else nat_text (nat i))"

fun cell_text :: "cell \<Rightarrow> string" where
  "cell_text NaN = []"
| "cell_text (IntVal i) = int_text i"
| "cell_text (StrVal s) = s"

definition csv_special :: "char \<Rightarrow> bool" where
  "csv_special c \<longleftrightarrow> c = CHR '','' \<or> c = CHR 0x22 \<or> c = CHR 0x0A \<or> c = CHR 0x0D"

definition csv_field :: "string \<Rightarrow> string" where
  "csv_field s =
     (if list_ex csv_special s
      then CHR 0x22 # concat (map (\<lambda>c. if c = CHR 0x22 then [c, c] else [c]) s) @ [CHR 0x22]
      else s)"

definition csv_record :: "string list \<Rightarrow> string" where
  "csv_record vals =
     (if vals = [[]] then [CHR 0x22, CHR 0x22] else py_join CHR '','' (map csv_field vals))"

definition csv_lines :: "string list list \<Rightarrow> string" where
  "csv_lines recs = concat (map (\<lambda>r. csv_record r @ [CHR 0x0A]) recs)"

definition to_csv_text :: "frame \<Rightarrow> contents" where
  "to_csv_text df = utf8_bom @ csv_lines (columns df # map (map cell_text) (rows df))"

definition to_csv :: "frame \<Rightarrow> path \<Rightarrow> unit io" where
  "to_csv df p = write_file p (to_csv_text df)"

subsection \<open>Tokenizing\<close>

datatype lex_state = StartRecord | StartField | InField | InQuoted | QuoteInQuoted | EatCRNL | WhitespaceLine

text \<open>
  \<open>IS_WHITESPACE\<close> of the tokenizer: a space or a tab. With \<open>skip_blank_lines\<close>
  a record that starts with one enters \<open>WHITESPACE_LINE\<close>; a line of such
  characters only is skipped, and otherwise the tokenizer goes back to the
  start of the line and reads it from \<open>START_FIELD\<close>, so the characters
  seen so far begin an unquoted field (kept in the field buffer here).
\<close>

definition is_blank :: "char \<Rightarrow> bool" where
  "is_blank c \<longleftrightarrow> c = CHR '' '' \<or> c = CHR 0x09"

type_synonym lexer = "lex_state \<times> string \<times> string list \<times> string list list"

definition field_start :: "char \<Rightarrow> string list \<Rightarrow> string list list \<Rightarrow> lexer" where
  "field_start c flds recs =
     (if c = CHR 0x22 then (InQuoted, [], flds, recs)
      else if c = CHR '','' then (StartField, [], flds @ [[]], recs)
      else if c = CHR 0x0A then (StartRecord, [], [], recs @ [flds @ [[]]])
      else if c = CHR 0x0D then (EatCRNL, [], [], recs @ [flds @ [[]]])
      else (InField, [c], flds, recs))"

definition field_end :: "char \<Rightarrow> string \<Rightarrow> string list \<Rightarrow> string list list \<Rightarrow> lexer" where
  "field_end c fld flds recs =
     (if c = CHR '','' then (StartField, [], flds @ [fld], recs)
      else if c = CHR 0x0A then (StartRecord, [], [], recs @ [flds @ [fld]])
      else (EatCRNL, [], [], recs @ [flds @ [fld]]))"

fun lex_char :: "lexer \<Rightarrow> char \<Rightarrow> lexer" where
  "lex_char (StartRecord, fld, flds, recs) c =
     (if c = CHR 0x0A then (StartRecord, [], [], recs)
      else if c = CHR 0x0D then (EatCRNL, [], [], recs)
      else if is_blank c then (WhitespaceLine, [c], [], recs)
      else field_start c [] recs)"
| "lex_char (EatCRNL, fld, flds, recs) c =
     (if c = CHR 0x0A then (StartRecord, [], [], recs)
      else if c = CHR 0x0D then (EatCRNL, [], [], recs)
      else if is_blank c then (WhitespaceLine, [c], [], recs)
      else field_start c [] recs)"
| "lex_char (WhitespaceLine, fld, flds, recs) c =
     (if c = CHR 0x0A then (StartRecord, [], [], recs)
      else if c = CHR 0x0D then (EatCRNL, [], [], recs)
      else if is_blank c then (WhitespaceLine, fld @ [c], [], recs)
      else if c = CHR '','' then field_end c fld [] recs
      else (InField, fld @ [c], [], recs))"
| "lex_char (StartField, fld, flds, recs) c = field_start c flds recs"
| "lex_char (InField, fld, flds, recs) c =
     (if c = CHR '','' \<or> c = CHR 0x0A \<or> c = CHR 0x0D then field_end c fld flds recs
      else (InField, fld @ [c], flds, recs))"
| "lex_char (InQuoted, fld, flds, recs) c =
     (if c = CHR 0x22 then (QuoteInQuoted, fld, flds, recs) else (InQuoted, fld @ [c], flds, recs))"
| "lex_char (QuoteInQuoted, fld, flds, recs) c =
     (if c = CHR 0x22 then (InQuoted, fld @ [c], flds, recs)
      else if c = CHR '','' \<or> c = CHR 0x0A \<or> c = CHR 0x0D then field_end c fld flds recs
      else (InField, fld @ [c], flds, recs))"

fun lex_eof :: "lexer \<Rightarrow> py_error + string list list" where
  "lex_eof (InQuoted, fld, flds, recs) =
     Inl (ParserError ''Error tokenizing data. C error: EOF inside string'')"
| "lex_eof (StartRecord, fld, flds, recs) = Inr recs"
| "lex_eof (EatCRNL, fld, flds, recs) = Inr recs"
| "lex_eof (WhitespaceLine, fld, flds, recs) = Inr recs"
| "lex_eof (st, fld, flds, recs) = Inr (recs @ [flds @ [fld]])"

definition csv_records :: "string \<Rightarrow> py_error + string list list" where
  "csv_records s = lex_eof (foldl lex_char (StartRecord, [], [], []) s)"

subsection \<open>Reading a frame\<close>

definition strip_bom :: "string \<Rightarrow> string" where
  "strip_bom s = (if take 3 s = utf8_bom then drop 3 s else s)"

definition na_values :: "string list" where
  "na_values =
     [[], ''#N/A'', ''#N/A N/A'', ''#NA'', ''-1.#IND'', ''-1.#QNAN'', ''-NaN'', ''-nan'',
      ''1.#IND'', ''1.#QNAN'', ''<NA>'', ''N/A'', ''NA'', ''NULL'', ''NaN'', ''n/a'', ''nan'', ''null'']"

definition is_digit :: "char \<Rightarrow> bool" where
  "is_digit c \<longleftrightarrow> CHR ''0'' \<le> c \<and> c \<le> CHR ''9''"

definition digits_value :: "string \<Rightarrow> nat" where
  "digits_value ds = foldl (\<lambda>n c. 10 * n + (of_char c - 48)) 0 ds"

definition digits :: "string \<Rightarrow> bool" where
  "digits ds \<longleftrightarrow> ds \<noteq> [] \<and> list_all is_digit ds"

fun int_literal :: "string \<Rightarrow> bool" where
  "int_literal (c # ds) = (if c = CHR ''-'' \<or> c = CHR ''+'' then digits ds else digits (c # ds))"
| "int_literal [] = False"

fun int_of_literal :: "string \<Rightarrow> int" where
  "int_of_literal (c # ds) =
     (if c = CHR ''-'' then - int (digits_value ds)
      else if c = CHR ''+'' then int (digits_value ds)
      else int (digits_value (c # ds)))"
| "int_of_literal [] = 0"

definition column_is_int :: "string list \<Rightarrow> bool" where
  "column_is_int vs \<longleftrightarrow> list_all (\<lambda>v. v \<notin> set na_values \<and> int_literal v) vs"

definition parse_cell :: "bool \<Rightarrow> string \<Rightarrow> cell" where
  "parse_cell is_int v =
     (if is_int then IntVal (int_of_literal v) else if v \<in> set na_values then NaN else StrVal v)"

definition build_rows :: "nat \<Rightarrow> string list list \<Rightarrow> cell list list" where
  "build_rows n body =
     (let padded = map (\<lambda>r. r @ replicate (n - length r) []) body;
          ints = map (\<lambda>j. column_is_int (map (\<lambda>r. r ! j) padded)) [0..<n]
      in map (\<lambda>r. map (\<lambda>(is_int, v). parse_cell is_int v) (zip ints r)) padded)"

definition unnamed :: "string list \<Rightarrow> string list" where
  "unnamed hs =
     map (\<lambda>(i, h). if h = [] then ''Unnamed: '' @ nat_text i else h) (zip [0..<length hs] hs)"

definition count_of :: "(string \<times> nat) list \<Rightarrow> string \<Rightarrow> nat" where
  "count_of counts k = (case map_of counts k of None \<Rightarrow> 0 | Some n \<Rightarrow> n)"

fun dedup_while ::
  "nat \<Rightarrow> (string \<times> nat) list \<Rightarrow> string \<Rightarrow> nat \<Rightarrow> ((string \<times> nat) list \<times> string) option" where
  "dedup_while 0 counts col cur = None"
| "dedup_while (Suc fuel) counts col cur =
     (if cur = 0 then Some (counts, col)
      else let counts' = AList.update col (Suc cur) counts;
               col' = col @ CHR ''.'' # nat_text cur
           in dedup_while fuel counts' col' (count_of counts' col'))"

fun dedup_names :: "(string \<times> nat) list \<Rightarrow> string list \<Rightarrow> string list option" where
  "dedup_names counts [] = Some []"
| "dedup_names counts (col # cols) =
     (case dedup_while (Suc (length counts)) counts col (count_of counts col) of
        None \<Rightarrow> None
      | Some (counts', col') \<Rightarrow> map_option (Cons col') (dedup_names (AList.update col' 1 counts') cols))"

definition read_csv_text :: "contents \<Rightarrow> py_error + frame" where
  "read_csv_text s =
     bindE (csv_records (strip_bom s)) (\<lambda>recs.
       case recs of
         [] \<Rightarrow> Inl (EmptyDataError ''No columns to parse from file'')
       | header # body \<Rightarrow>
           (case find (\<lambda>r. length header < length r) body of
              Some r \<Rightarrow>
                Inl (ParserError (''Error tokenizing data. C error: Expected '' @
                       nat_text (length header) @ '' fields, saw '' @ nat_text (length r)))
            | None \<Rightarrow>
                (case dedup_names [] (unnamed header) of
                   None \<Rightarrow> Inl (ParserError ''Duplicate names'')
                 | Some names \<Rightarrow> Inr \<lparr>columns = names, rows = build_rows (length header) body\<rparr>)))"

definition read_csv :: "path \<Rightarrow> frame io" where
  "read_csv p = io_bind (read_file p) (\<lambda>s. io_lift (read_csv_text s))"

subsection \<open>Frames that survive a write and a read\<close>

text \<open>
  What pandas may convert. Its C parser tries, column by column (and chunk
  by chunk of rows), 64-bit integers, then unsigned ones, then floats
  (\<open>xstrtod\<close>: spaces around an optional sign, digits, a decimal point and
  an exponent; \<open>inf\<close> and \<open>Infinity\<close> in any case), then booleans
  (\<open>True\<close>, \<open>TRUE\<close>, \<open>true\<close> and the three \<open>False\<close>), and keeps the texts
  only when all fail. \<open>numeric_like\<close> over-approximates the texts that one of
  these conversions accepts, so a text that is not \<open>numeric_like\<close> keeps its
  column as text whatever the other values of the column are.
\<close>

definition py_space :: "char \<Rightarrow> bool" where
  "py_space c \<longleftrightarrow> c = CHR '' '' \<or> (CHR 0x09 \<le> c \<and> c \<le> CHR 0x0D)"

definition strip_space :: "string \<Rightarrow> string" where
  "strip_space s = dropWhile py_space (rev (dropWhile py_space (rev s)))"

definition numeric_like :: "string \<Rightarrow> bool" where
  "numeric_like v \<longleftrightarrow>
     (let t = strip_space v;
          u = (case t of [] \<Rightarrow> [] | c # r \<Rightarrow> if c = CHR ''+'' \<or> c = CHR ''-'' then r else t)
      in (list_ex is_digit u \<and> list_all (\<lambda>c. is_digit c \<or> c \<in> set ''.eE+-'') u) \<or>
         py_upper u \<in> {''INF'', ''INFINITY''} \<or> py_upper t \<in> {''TRUE'', ''FALSE''})"

text \<open>
  A record whose line is blank to the tokenizer: one unquoted field of
  spaces and tabs only, which \<open>skip_blank_lines\<close> drops.
\<close>

definition blank_record :: "string list \<Rightarrow> bool" where
  "blank_record r \<longleftrightarrow> (case r of [f] \<Rightarrow> f \<noteq> [] \<and> list_all is_blank f | _ \<Rightarrow> False)"

text \<open>
  A column reads back as written when it is an integer column of 64-bit
  values (wider ones become \<open>uint64\<close> or floats in pandas), or a column of
  missing values and texts none of which pandas reads as missing or may
  convert to a number or a boolean.
\<close>

fun int64_cell :: "cell \<Rightarrow> bool" where
  "int64_cell (IntVal i) \<longleftrightarrow> - (2 ^ 63) \<le> i \<and> i < 2 ^ 63"
| "int64_cell _ \<longleftrightarrow> False"

fun plain_cell :: "cell \<Rightarrow> bool" where
  "plain_cell NaN = True"
| "plain_cell (IntVal i) = False"
| "plain_cell (StrVal v) = (v \<notin> set na_values \<and> \<not> numeric_like v)"

definition stable_column :: "cell list \<Rightarrow> bool" where
  "stable_column col \<longleftrightarrow>
     (if column_is_int (map cell_text col) then list_all int64_cell col else list_all plain_cell col)"

definition csv_stable :: "frame \<Rightarrow> bool" where
  "csv_stable df \<longleftrightarrow>
     wf_frame df \<and> columns df \<noteq> [] \<and> list_all (\<lambda>c. c \<noteq> []) (columns df) \<and>
     list_all (\<lambda>r. \<not> blank_record r) (columns df # map (map cell_text) (rows df)) \<and>
     list_all (\<lambda>j. stable_column (map (\<lambda>r. r ! j) (rows df))) [0..<length (columns df)]"

subsection \<open>Round trip of the tokenizer\<close>

lemma lex_quoted_body:
  "foldl lex_char (InQuoted, fld, flds, recs)
     (concat (map (\<lambda>c. if c = CHR 0x22 then [c, c] else [c]) s)) = (InQuoted, fld @ s, flds, recs)"
  by (induction s arbitrary: fld) auto

lemma lex_plain_body:
  "\<not> list_ex csv_special s \<Longrightarrow>
   foldl lex_char (InField, fld, flds, recs) s = (InField, fld @ s, flds, recs)"
  by (induction s arbitrary: fld) (auto simp: csv_special_def)

lemma lex_field_start_field:
  assumes t: "t = CHR '','' \<or> t = CHR 0x0A"
  shows "foldl lex_char (StartField, [], flds, recs) (csv_field f @ [t]) = field_end t f flds recs"
proof (cases "list_ex csv_special f")
  case True
  have "foldl lex_char (InQuoted, [], flds, recs)
          (concat (map (\<lambda>c. if c = CHR 0x22 then [c, c] else [c]) f) @ [CHR 0x22, t]) =
        lex_char (QuoteInQuoted, f, flds, recs) t"
    by (simp add: lex_quoted_body)
  also have "\<dots> = field_end t f flds recs"
    using t by auto
  finally show ?thesis
    using True by (simp add: csv_field_def field_start_def)
next
  case False
  show ?thesis
  proof (cases f)
    case Nil
    with t show ?thesis
      by (auto simp: csv_field_def field_start_def field_end_def)
  next
    case (Cons c cs)
    with False have c: "\<not> csv_special c" and cs: "\<not> list_ex csv_special cs"
      by auto
    have start: "lex_char (StartField, [], flds, recs) c = (InField, [c], flds, recs)"
      using c by (auto simp: field_start_def csv_special_def)
    have "foldl lex_char (InField, [c], flds, recs) (cs @ [t]) = field_end t (c # cs) flds recs"
      using t cs by (auto simp: lex_plain_body field_end_def)
    with start False Cons show ?thesis
      by (simp add: csv_field_def)
  qed
qed

lemma not_blank_specials [simp]:
  "\<not> is_blank CHR 0x22" "\<not> is_blank CHR '',''" "\<not> is_blank CHR 0x0A" "\<not> is_blank CHR 0x0D"
  by (simp_all add: is_blank_def)

lemma lex_blank_record: "w \<noteq> [] \<Longrightarrow> list_all is_blank w \<Longrightarrow>
   foldl lex_char (StartRecord, [], [], recs) w = (WhitespaceLine, w, [], recs)"
proof (induction w rule: rev_induct)
  case (snoc c w)
  then have c: "is_blank c" by simp
  then have "c \<noteq> CHR 0x0A" "c \<noteq> CHR 0x0D" by (auto simp: is_blank_def)
  with snoc c show ?case
    by (cases "w = []") auto
qed simp

lemma lex_blank_field: "w \<noteq> [] \<Longrightarrow> list_all is_blank w \<Longrightarrow>
   foldl lex_char (StartField, [], [], recs) w = (InField, w, [], recs)"
proof (induction w rule: rev_induct)
  case (snoc c w)
  then have c: "is_blank c" by simp
  then have "\<not> csv_special c" by (auto simp: is_blank_def csv_special_def)
  with snoc c show ?case
    by (cases "w = []") (auto simp: field_start_def is_blank_def)
qed simp

text \<open>
  After a blank prefix, the first other character that ends no line is read
  as if the record had started in \<open>START_FIELD\<close>: the backtracking of
  \<open>WHITESPACE_LINE\<close>.
\<close>

lemma lex_record_as_field:
  assumes w: "list_all is_blank w" and c: "\<not> is_blank c" "c \<noteq> CHR 0x0A" "c \<noteq> CHR 0x0D"
  shows "foldl lex_char (StartRecord, [], [], recs) (w @ c # s) =
         foldl lex_char (StartField, [], [], recs) (w @ c # s)"
proof (cases "w = []")
  case True
  with c show ?thesis by (simp add: field_start_def)
next
  case False
  have "lex_char (WhitespaceLine, w, [], recs) c = lex_char (InField, w, [], recs) c"
    using c by (simp add: field_end_def)
  with False w show ?thesis
    by (simp add: lex_blank_record lex_blank_field)
qed

lemma lex_field_start_record:
  assumes t: "t = CHR '','' \<or> t = CHR 0x0A"
    and e: "f = [] \<longrightarrow> t = CHR '',''"
    and nb: "\<not> (f \<noteq> [] \<and> list_all is_blank f \<and> t = CHR 0x0A)"
  shows "foldl lex_char (StartRecord, [], [], recs) (csv_field f @ [t]) = field_end t f [] recs"
proof -
  have "foldl lex_char (StartRecord, [], [], recs) (csv_field f @ [t]) =
        foldl lex_char (StartField, [], [], recs) (csv_field f @ [t])"
  proof (cases "list_ex csv_special f")
    case True
    then have eq: "csv_field f @ [t] = [] @ CHR 0x22 # (tl (csv_field f) @ [t])"
      by (simp add: csv_field_def)
    show ?thesis
      unfolding eq by (rule lex_record_as_field) simp_all
  next
    case False
    then have cf: "csv_field f = f" by (simp add: csv_field_def)
    show ?thesis
    proof (cases "dropWhile is_blank f")
      case Nil
      then have b: "list_all is_blank f" by (simp add: list_all_iff)
      with e nb t have "t = CHR '',''" by blast
      then have eq: "csv_field f @ [t] = f @ CHR '','' # []" by (simp add: cf)
      show ?thesis
        unfolding eq using b by (rule lex_record_as_field) simp_all
    next
      case (Cons c r)
      then have nbc: "\<not> is_blank c" using hd_dropWhile [of is_blank f] by fastforce
      have "c \<in> set f" using Cons set_dropWhileD [of c is_blank f] by simp
      with False have "\<not> csv_special c" by (auto simp: list_ex_iff)
      then have c: "c \<noteq> CHR 0x0A" "c \<noteq> CHR 0x0D" by (auto simp: csv_special_def)
      have w: "list_all is_blank (takeWhile is_blank f)"
        by (auto simp: list_all_iff dest: set_takeWhileD)
      have eq: "csv_field f @ [t] = takeWhile is_blank f @ c # (r @ [t])"
        using cf Cons by (metis append.assoc append_Cons takeWhile_dropWhile_id)
      show ?thesis
        unfolding eq using w nbc c by (rule lex_record_as_field)
    qed
  qed
  also have "\<dots> = field_end t f [] recs"
    by (rule lex_field_start_field [OF t])
  finally show ?thesis .
qed

lemma lex_field:
  assumes t: "t = CHR '','' \<or> t = CHR 0x0A"
    and st: "st = StartField \<or>
             (st = StartRecord \<and> flds = [] \<and> (f = [] \<longrightarrow> t = CHR '','') \<and>
              \<not> (f \<noteq> [] \<and> list_all is_blank f \<and> t = CHR 0x0A))"
  shows "foldl lex_char (st, [], flds, recs) (csv_field f @ [t]) = field_end t f flds recs"
  using st lex_field_start_field [OF t] lex_field_start_record [OF t] by auto

lemma lex_fields:
  "fs \<noteq> [] \<Longrightarrow> st = StartField \<or> (st = StartRecord \<and> flds = [] \<and> fs \<noteq> [[]] \<and> \<not> blank_record fs) \<Longrightarrow>
   foldl lex_char (st, [], flds, recs) (py_join CHR '','' (map csv_field fs) @ [CHR 0x0A]) =
   (StartRecord, [], [], recs @ [flds @ fs])"
proof (induction fs arbitrary: st flds)
  case Nil
  then show ?case by simp
next
  case (Cons f gs)
  show ?case
  proof (cases gs)
    case Nil
    with Cons.prems have "foldl lex_char (st, [], flds, recs) (csv_field f @ [CHR 0x0A]) =
                           field_end (CHR 0x0A) f flds recs"
      by (intro lex_field) (auto simp: blank_record_def)
    with Nil show ?thesis
      by (simp add: field_end_def)
  next
    case (Cons g gs')
    have "foldl lex_char (st, [], flds, recs) (csv_field f @ [CHR '','']) =
          field_end (CHR '','') f flds recs"
      using Cons.prems by (intro lex_field) auto
    then have first: "foldl lex_char (st, [], flds, recs) (csv_field f @ [CHR '',''])
                        = (StartField, [], flds @ [f], recs)"
      by (simp add: field_end_def)
    have "py_join CHR '','' (map csv_field (f # gs)) @ [CHR 0x0A] =
          (csv_field f @ [CHR '','']) @ (py_join CHR '','' (map csv_field gs) @ [CHR 0x0A])"
      using Cons by simp
    with first Cons.IH [of StartField "flds @ [f]"] Cons show ?thesis
      by simp
  qed
qed

lemma lex_record:
  "r \<noteq> [] \<Longrightarrow> \<not> blank_record r \<Longrightarrow>
   foldl lex_char (StartRecord, [], [], recs) (csv_record r @ [CHR 0x0A]) =
   (StartRecord, [], [], recs @ [r])"
proof (cases "r = [[]]")
  case True
  then show ?thesis
    by (simp add: csv_record_def field_start_def field_end_def)
next
  case False
  assume "r \<noteq> []" "\<not> blank_record r"
  with False lex_fields [of r StartRecord "[]" recs] show ?thesis
    by (simp add: csv_record_def)
qed

lemma lex_lines:
  "\<forall>r\<in>set recs. r \<noteq> [] \<and> \<not> blank_record r \<Longrightarrow>
   foldl lex_char (StartRecord, [], [], acc) (csv_lines recs) = (StartRecord, [], [], acc @ recs)"
proof (induction recs arbitrary: acc)
  case Nil
  then show ?case by (simp add: csv_lines_def)
next
  case (Cons r recs)
  then have "r \<noteq> []" "\<not> blank_record r" by simp_all
  from lex_record [OF this, of acc] Cons show ?case
    by (simp add: csv_lines_def)
qed

lemma csv_records_lines:
  "\<forall>r\<in>set recs. r \<noteq> [] \<and> \<not> blank_record r \<Longrightarrow> csv_records (csv_lines recs) = Inr recs"
  using lex_lines [of recs "[]"] by (simp add: csv_records_def)

subsection \<open>Integers as text\<close>

lemma nat_text_small: "n < 10 \<Longrightarrow> nat_text n = [char_of (48 + n)]"
  by (simp add: nat_text.simps)

lemma nat_text_large: "\<not> n < 10 \<Longrightarrow> nat_text n = nat_text (n div 10) @ [char_of (48 + n mod 10)]"
  by (simp add: nat_text.simps [of n])

lemma of_char_digit: "k < 10 \<Longrightarrow> of_char (char_of (48 + k) :: char) = 48 + (k::nat)"
  by simp

lemma is_digit_char: "(k::nat) < 10 \<Longrightarrow> is_digit (char_of (48 + k))"
  by (simp add: is_digit_def less_eq_char_def)

lemma digits_nat_text: "digits (nat_text n)"
proof (induction n rule: nat_text.induct)
  case (1 n)
  show ?case
  proof (cases "n < 10")
    case True
    then show ?thesis by (simp add: nat_text_small digits_def is_digit_char)
  next
    case False
    with "1" have "digits (nat_text (n div 10))" by simp
    with False show ?thesis
      by (simp add: nat_text_large digits_def is_digit_char)
  qed
qed

lemma digits_value_snoc: "digits_value (ds @ [c]) = 10 * digits_value ds + (of_char c - 48)"
  by (simp add: digits_value_def)

lemma digits_value_nat_text: "digits_value (nat_text n) = n"
proof (induction n rule: nat_text.induct)
  case (1 n)
  show ?case
  proof (cases "n < 10")
    case True
    then show ?thesis by (simp add: nat_text_small digits_value_def)
  next
    case False
    with "1" have "digits_value (nat_text (n div 10)) = n div 10" by simp
    with False show ?thesis
      by (simp add: nat_text_large digits_value_snoc)
  qed
qed

lemma hd_nat_text_digit: "nat_text n = c # cs \<Longrightarrow> is_digit c"
  using digits_nat_text [of n] by (simp add: digits_def)

lemma int_text_literal: "int_literal (int_text i) \<and> int_of_literal (int_text i) = i"
proof (cases "i < 0")
  case True
  then show ?thesis
    by (simp add: int_text_def digits_nat_text digits_value_nat_text)
next
  case False
  obtain c cs where cs: "nat_text (nat i) = c # cs"
    using digits_nat_text [of "nat i"] by (cases "nat_text (nat i)") (auto simp: digits_def)
  then have d: "is_digit c" by (rule hd_nat_text_digit)
  then have "c \<noteq> CHR ''-'' \<and> c \<noteq> CHR ''+''"
    by (auto simp: is_digit_def less_eq_char_def)
  with False cs show ?thesis
    using digits_nat_text [of "nat i"] digits_value_nat_text [of "nat i"]
    by (simp add: int_text_def)
qed

subsection \<open>Termination of the name-mangling loop\<close>

definition longer_keys :: "(string \<times> nat) list \<Rightarrow> string \<Rightarrow> string set" where
  "longer_keys counts col = {k \<in> set (map fst counts). length col \<le> length k}"

lemma count_of_pos_key: "0 < count_of counts col \<Longrightarrow> col \<in> set (map fst counts)"
  by (auto simp: count_of_def split: option.splits dest: map_of_SomeD intro: rev_image_eqI)

lemma longer_keys_step:
  assumes "col \<in> set (map fst counts)" and "length col < length col'"
  shows "card (longer_keys (AList.update col v counts) col') < card (longer_keys counts col)"
proof -
  have keys: "set (map fst (AList.update col v counts)) = set (map fst counts)"
    using assms(1) by (simp add: update_keys_same)
  have "longer_keys (AList.update col v counts) col' \<subseteq> longer_keys counts col - {col}"
    using assms by (auto simp: longer_keys_def dom_update)
  moreover have "col \<in> longer_keys counts col"
    using assms(1) by (simp add: longer_keys_def)
  moreover have "finite (longer_keys counts col)"
    by (simp add: longer_keys_def)
  ultimately show ?thesis
    by (meson card_Diff1_less card_mono finite_Diff le_less_trans)
qed

lemma dedup_while_Some:
  "card (longer_keys counts col) < fuel \<Longrightarrow>
   \<exists>r. dedup_while fuel counts col (count_of counts col) = Some r"
proof (induction fuel arbitrary: counts col)
  case 0
  then show ?case by simp
next
  case (Suc fuel)
  show ?case
  proof (cases "count_of counts col = 0")
    case True
    then show ?thesis by simp
  next
    case False
    let ?counts' = "AList.update col (Suc (count_of counts col)) counts"
    let ?col' = "col @ CHR ''.'' # nat_text (count_of counts col)"
    have "card (longer_keys ?counts' ?col') < card (longer_keys counts col)"
      using False by (intro longer_keys_step count_of_pos_key) auto
    with Suc.prems have "card (longer_keys ?counts' ?col') < fuel"
      by simp
    then obtain r where "dedup_while fuel ?counts' ?col' (count_of ?counts' ?col') = Some r"
      using Suc.IH by blast
    with False show ?thesis
      by (auto simp: Let_def)
  qed
qed

lemma card_longer_keys: "card (longer_keys counts col) < Suc (length counts)"
proof -
  have "card (longer_keys counts col) \<le> card (set (map fst counts))"
    by (rule card_mono) (auto simp: longer_keys_def)
  also have "\<dots> \<le> length counts"
    using card_length [of "map fst counts"] by simp
  finally show ?thesis by simp
qed

text \<open>
  C29. The renaming of duplicate column names terminates for every header:
  the inner \<open>while cur_count > 0\<close> loop never exhausts its fuel
  \<open>Suc (length counts)\<close>, so \<open>dedup_names\<close> always returns names.
\<close>

theorem dedup_names_Some: "\<exists>names. dedup_names counts cols = Some names"
proof (induction cols arbitrary: counts)
  case Nil
  then show ?case by simp
next
  case (Cons col cols)
  obtain counts' col' where
    w: "dedup_while (Suc (length counts)) counts col (count_of counts col) = Some (counts', col')"
    using dedup_while_Some [OF card_longer_keys] by fastforce
  obtain names where "dedup_names (AList.update col' 1 counts') cols = Some names"
    using Cons.IH by blast
  with w show ?case
    by simp
qed

lemma dedup_names_distinct_id:
  "distinct cols \<Longrightarrow> set cols \<inter> set (map fst counts) = {} \<Longrightarrow> dedup_names counts cols = Some cols"
proof (induction cols arbitrary: counts)
  case Nil
  then show ?case by simp
next
  case (Cons col cols)
  then have "map_of counts col = None"
    by (simp add: map_of_eq_None_iff)
  then have "count_of counts col = 0"
    by (simp add: count_of_def)
  then have "dedup_while (Suc (length counts)) counts col (count_of counts col) = Some (counts, col)"
    by simp
  moreover have "set cols \<inter> set (map fst (AList.update col 1 counts)) = {}"
    using Cons.prems by (auto simp: dom_update)
  ultimately show ?case
    using Cons by simp
qed

subsection \<open>Frames read are well formed\<close>

lemma count_of_update: "count_of (AList.update k v counts) k' = (if k' = k then v else count_of counts k')"
  by (simp add: count_of_def update_conv')

lemma dedup_while_mono:
  "dedup_while fuel counts col (count_of counts col) = Some (counts', col') \<Longrightarrow>
   (\<forall>k. count_of counts k \<le> count_of counts' k) \<and> count_of counts' col' = 0"
proof (induction fuel arbitrary: counts col)
  case 0
  then show ?case by simp
next
  case (Suc fuel)
  show ?case
  proof (cases "count_of counts col = 0")
    case True
    with Suc.prems show ?thesis by simp
  next
    case False
    let ?c = "AList.update col (Suc (count_of counts col)) counts"
    let ?col = "col @ CHR ''.'' # nat_text (count_of counts col)"
    from Suc.prems False have "dedup_while fuel ?c ?col (count_of ?c ?col) = Some (counts', col')"
      by (simp add: Let_def)
    from Suc.IH [OF this] have ih: "\<forall>k. count_of ?c k \<le> count_of counts' k" "count_of counts' col' = 0"
      by auto
    have "count_of counts k \<le> count_of ?c k" for k
      by (simp add: count_of_update)
    with ih show ?thesis using le_trans by blast
  qed
qed

lemma dedup_names_fresh:
  "dedup_names counts cols = Some names \<Longrightarrow>
   distinct names \<and> length names = length cols \<and> (\<forall>n\<in>set names. count_of counts n = 0)"
proof (induction cols arbitrary: counts names)
  case Nil
  then show ?case by simp
next
  case (Cons col cols)
  from Cons.prems obtain counts' col' rest where
    w: "dedup_while (Suc (length counts)) counts col (count_of counts col) = Some (counts', col')"
    and r: "dedup_names (AList.update col' 1 counts') cols = Some rest"
    and n: "names = col' # rest"
    by (auto split: option.splits)
  from dedup_while_mono [OF w] have mono: "\<forall>k. count_of counts k \<le> count_of counts' k"
    and z: "count_of counts' col' = 0" by auto
  from Cons.IH [OF r] have ih: "distinct rest" "length rest = length cols"
    "\<forall>n\<in>set rest. count_of (AList.update col' 1 counts') n = 0" by auto
  have rest_fresh: "n \<noteq> col' \<and> count_of counts n = 0" if "n \<in> set rest" for n
  proof -
    have "count_of (AList.update col' 1 counts') n = 0" using ih(3) that by blast
    then have "n \<noteq> col'" and "count_of counts' n = 0" by (auto simp: count_of_update split: if_splits)
    with mono show ?thesis by (metis le_zero_eq)
  qed
  have "count_of counts col' = 0" using mono z by (metis le_zero_eq)
  with rest_fresh ih n show ?case by auto
qed

lemma build_rows_length:
  "\<forall>r\<in>set body. length r \<le> n \<Longrightarrow> r \<in> set (build_rows n body) \<Longrightarrow> length r = n"
  by (auto simp: build_rows_def Let_def)

lemma length_unnamed [simp]: "length (unnamed hs) = length hs"
  by (simp add: unnamed_def)

lemma read_csv_text_Inr:
  "read_csv_text s = Inr df \<Longrightarrow>
   \<exists>header body names. csv_records (strip_bom s) = Inr (header # body) \<and>
     find (\<lambda>r. length header < length r) body = None \<and>
     dedup_names [] (unnamed header) = Some names \<and>
     df = \<lparr>columns = names, rows = build_rows (length header) body\<rparr>"
  by (auto simp: read_csv_text_def bindE_def split: sum.splits list.splits option.splits)

lemma read_csv_text_wf: "read_csv_text s = Inr df \<Longrightarrow> wf_frame df"
proof -
  assume "read_csv_text s = Inr df"
  then obtain header body names where
    nf: "find (\<lambda>r. length header < length r) body = None"
    and dn: "dedup_names [] (unnamed header) = Some names"
    and df: "df = \<lparr>columns = names, rows = build_rows (length header) body\<rparr>"
    by (blast dest: read_csv_text_Inr)
  from dedup_names_fresh [OF dn] have "distinct names" "length names = length header" by auto
  moreover have "\<forall>r\<in>set body. length r \<le> length header"
    using nf by (auto simp: find_None_iff)
  ultimately show ?thesis
    using df build_rows_length by (auto simp: wf_frame_def)
qed

lemma read_file_world [simp]: "snd (read_file p w) = w"
  by (simp add: read_file_def split: option.splits)

lemma read_csv_world [simp]: "snd (read_csv p w) = w"
  by (auto simp: read_csv_def io_bind_def io_lift_def read_file_def split: option.splits)

lemma read_csv_Inr: "fst (read_csv p w) = Inr df \<Longrightarrow> \<exists>s. read_csv_text s = Inr df"
  by (cases "files w p") (auto simp: read_csv_def io_bind_def io_lift_def read_file_def)

lemma read_csv_same_file: "files w' p = files w p \<Longrightarrow> read_csv p w' = (fst (read_csv p w), w')"
  by (simp add: read_csv_def io_bind_def io_lift_def read_file_def split: option.splits sum.splits)

text \<open>
  C9. \<open>pd.read_csv\<close> changes nothing in the world and every frame it returns
  is well formed: its column names are distinct (after pandas' renaming of
  empty and duplicate names) and every row has one cell per column (short
  rows padded, long rows refused).
\<close>

theorem read_csv_wf: "read_csv p w = (Inr df, w') \<Longrightarrow> w' = w \<and> wf_frame df"
proof -
  assume r: "read_csv p w = (Inr df, w')"
  then have "w' = w" using read_csv_world [of p w] by simp
  moreover from r obtain s where "read_csv_text s = Inr df"
    using read_csv_Inr [of p w df] by auto
  ultimately show ?thesis by (blast dest: read_csv_text_wf)
qed

theorem read_csv_wf_witness:
  "fst (read_csv ''a.csv'' \<lparr>files = [''a.csv'' \<mapsto> ''x,x,'' @ CHR 0x0A # ''1,2'' @ [CHR 0x0A]], dirs = {}, denied = {}, stdout = []\<rparr>) = Inr \<lparr>columns = [''x'', ''x.1'', ''Unnamed: 2''], rows = [[IntVal 1, IntVal 2, NaN]]\<rparr> \<and>
   wf_frame \<lparr>columns = [''x'', ''x.1'', ''Unnamed: 2''], rows = [[IntVal 1, IntVal 2, NaN]]\<rparr>"
proof -
  have f: "fst (read_csv ''a.csv'' \<lparr>files = [''a.csv'' \<mapsto> ''x,x,'' @ CHR 0x0A # ''1,2'' @ [CHR 0x0A]], dirs = {}, denied = {}, stdout = []\<rparr>) = Inr \<lparr>columns = [''x'', ''x.1'', ''Unnamed: 2''], rows = [[IntVal 1, IntVal 2, NaN]]\<rparr>"
    by code_simp
  then have r: "read_csv ''a.csv'' \<lparr>files = [''a.csv'' \<mapsto> ''x,x,'' @ CHR 0x0A # ''1,2'' @ [CHR 0x0A]], dirs = {}, denied = {}, stdout = []\<rparr> = (Inr \<lparr>columns = [''x'', ''x.1'', ''Unnamed: 2''], rows = [[IntVal 1, IntVal 2, NaN]]\<rparr>, \<lparr>files = [''a.csv'' \<mapsto> ''x,x,'' @ CHR 0x0A # ''1,2'' @ [CHR 0x0A]], dirs = {}, denied = {}, stdout = []\<rparr>)"
    using read_csv_world [of "''a.csv''" "\<lparr>files = [''a.csv'' \<mapsto> ''x,x,'' @ CHR 0x0A # ''1,2'' @ [CHR 0x0A]], dirs = {}, denied = {}, stdout = []\<rparr>"] by (metis prod.collapse)
  show ?thesis using read_csv_wf [OF r] f by simp
qed

subsection \<open>Round trip of a frame\<close>

lemma strip_bom_bom [simp]: "strip_bom (utf8_bom @ s) = s"
  by (simp add: strip_bom_def utf8_bom_def)

lemma parse_cell_stable:
  assumes "stable_column col" and "c \<in> set col"
  shows "parse_cell (column_is_int (map cell_text col)) (cell_text c) = c"
proof (cases "column_is_int (map cell_text col)")
  case True
  with assms obtain i where "c = IntVal i"
    by (cases c) (auto simp: stable_column_def list_all_iff)
  with True show ?thesis
    by (simp add: parse_cell_def int_text_literal)
next
  case False
  with assms have "plain_cell c"
    by (auto simp: stable_column_def list_all_iff)
  with False show ?thesis
    by (cases c) (auto simp: parse_cell_def na_values_def)
qed

lemma unnamed_id: "list_all (\<lambda>c. c \<noteq> []) hs \<Longrightarrow> unnamed hs = hs"
proof (rule nth_equalityI)
  assume ne: "list_all (\<lambda>c. c \<noteq> []) hs"
  show "length (unnamed hs) = length hs"
    by (simp add: unnamed_def)
  fix i assume "i < length (unnamed hs)"
  then have i: "i < length hs" by (simp add: unnamed_def)
  with ne have "hs ! i \<noteq> []"
    by (simp add: list_all_length)
  with i show "unnamed hs ! i = hs ! i"
    by (simp add: unnamed_def)
qed

lemma build_rows_stable:
  assumes wf: "\<forall>r\<in>set rs. length r = n"
    and st: "\<forall>j<n. stable_column (map (\<lambda>r. r ! j) rs)"
  shows "build_rows n (map (map cell_text) rs) = rs"
proof -
  let ?body = "map (map cell_text) rs"
  let ?ints = "map (\<lambda>j. column_is_int (map (\<lambda>r. r ! j) ?body)) [0..<n]"
  have pad: "map (\<lambda>r. r @ replicate (n - length r) []) ?body = ?body"
    using wf by (auto intro!: map_idI)
  have col: "map (\<lambda>r. r ! j) ?body = map cell_text (map (\<lambda>r. r ! j) rs)" if "j < n" for j
    using wf that by auto
  have row: "map (\<lambda>(is_int, v). parse_cell is_int v) (zip ?ints (map cell_text r)) = r"
    if r: "r \<in> set rs" for r
  proof (rule nth_equalityI)
    show "length (map (\<lambda>(is_int, v). parse_cell is_int v) (zip ?ints (map cell_text r))) = length r"
      using wf r by simp
  next
    fix j assume "j < length (map (\<lambda>(is_int, v). parse_cell is_int v) (zip ?ints (map cell_text r)))"
    then have j: "j < n" and jr: "j < length r"
      using wf r by auto
    have "r ! j \<in> set (map (\<lambda>r. r ! j) rs)"
      using r by auto
    with st j have p: "parse_cell (column_is_int (map cell_text (map (\<lambda>r. r ! j) rs))) (cell_text (r ! j)) = r ! j"
      by (intro parse_cell_stable) auto
    have "?ints ! j = column_is_int (map (\<lambda>r. r ! j) ?body)"
      using j by simp
    also have "\<dots> = column_is_int (map cell_text (map (\<lambda>r. r ! j) rs))"
      by (simp only: col [OF j])
    finally have "?ints ! j = column_is_int (map cell_text (map (\<lambda>r. r ! j) rs))" .
    with j jr p show "map (\<lambda>(is_int, v). parse_cell is_int v) (zip ?ints (map cell_text r)) ! j = r ! j"
      by simp
  qed
  have "build_rows n ?body =
        map (\<lambda>r. map (\<lambda>(is_int, v). parse_cell is_int v) (zip ?ints r)) ?body"
    by (simp only: build_rows_def Let_def pad)
  also have "\<dots> = map (\<lambda>r. map (\<lambda>(is_int, v). parse_cell is_int v) (zip ?ints (map cell_text r))) rs"
    by (simp only: map_map comp_def)
  also have "\<dots> = rs"
    using row by (rule map_idI)
  finally show ?thesis .
qed

lemma to_csv_records:
  assumes "wf_frame df" "columns df \<noteq> []"
    and "list_all (\<lambda>r. \<not> blank_record r) (columns df # map (map cell_text) (rows df))"
  shows "csv_records (strip_bom (to_csv_text df)) = Inr (columns df # map (map cell_text) (rows df))"
proof -
  have "\<forall>r\<in>set (columns df # map (map cell_text) (rows df)). r \<noteq> [] \<and> \<not> blank_record r"
    using assms by (auto simp: wf_frame_def list_all_iff)
  then have "csv_records (csv_lines (columns df # map (map cell_text) (rows df))) =
             Inr (columns df # map (map cell_text) (rows df))"
    by (rule csv_records_lines)
  then show ?thesis
    by (simp add: to_csv_text_def)
qed

text \<open>
  What \<open>pd.read_csv\<close> returns for a file \<open>to_csv\<close> wrote: the columns, and
  the written texts typed column by column as the reader infers them.
\<close>

lemma read_csv_text_written:
  assumes wf: "wf_frame df" and ne: "columns df \<noteq> []" "list_all (\<lambda>c. c \<noteq> []) (columns df)"
    and nb: "list_all (\<lambda>r. \<not> blank_record r) (columns df # map (map cell_text) (rows df))"
  shows "read_csv_text (to_csv_text df) =
           Inr \<lparr>columns = columns df, rows = build_rows (length (columns df)) (map (map cell_text) (rows df))\<rparr>"
proof -
  have len: "\<forall>r\<in>set (rows df). length r = length (columns df)" and d: "distinct (columns df)"
    using wf by (simp_all add: wf_frame_def)
  have find: "find (\<lambda>r. length (columns df) < length r) (map (map cell_text) (rows df)) = None"
    using len by (auto simp: find_None_iff)
  have names: "dedup_names [] (unnamed (columns df)) = Some (columns df)"
    using ne(2) d by (simp add: unnamed_id dedup_names_distinct_id)
  from to_csv_records [OF wf ne(1) nb] find names show ?thesis
    by (simp add: read_csv_text_def)
qed

lemma build_rows_columns:
  assumes "\<forall>r\<in>set rs. length r = n"
  shows "build_rows n (map (map cell_text) rs) =
           map (\<lambda>r. map (\<lambda>j. parse_cell (column_is_int (map (\<lambda>r. cell_text (r ! j)) rs)) (cell_text (r ! j)))
                        [0..<n]) rs"
proof -
  let ?body = "map (map cell_text) rs"
  have pad: "map (\<lambda>r. r @ replicate (n - length r) []) ?body = ?body"
    using assms by (auto intro!: map_idI)
  have col: "map ((\<lambda>r. r ! j) \<circ> map cell_text) rs = map (\<lambda>r. cell_text (r ! j)) rs" if "j < n" for j
    using assms that by auto
  have row: "map (\<lambda>(is_int, v). parse_cell is_int v)
               (zip (map (\<lambda>j. column_is_int (map (\<lambda>r. r ! j) ?body)) [0..<n]) (map cell_text r)) =
             map (\<lambda>j. parse_cell (column_is_int (map (\<lambda>r. cell_text (r ! j)) rs)) (cell_text (r ! j))) [0..<n]"
    if r: "r \<in> set rs" for r
    using assms r by (intro nth_equalityI) (auto simp: col)
  let ?ints = "map (\<lambda>j. column_is_int (map (\<lambda>r. r ! j) ?body)) [0..<n]"
  have "build_rows n ?body = map (\<lambda>r. map (\<lambda>(is_int, v). parse_cell is_int v) (zip ?ints r)) ?body"
    by (simp only: build_rows_def Let_def pad)
  also have "\<dots> = map (\<lambda>r. map (\<lambda>(is_int, v). parse_cell is_int v) (zip ?ints (map cell_text r))) rs"
    by (simp only: map_map comp_def)
  also have "\<dots> = map (\<lambda>r. map (\<lambda>j. parse_cell (column_is_int (map (\<lambda>r. cell_text (r ! j)) rs))
                                     (cell_text (r ! j))) [0..<n]) rs"
    by (rule map_cong [OF refl]) (rule row)
  finally show ?thesis .
qed

lemma not_blank_record_long: "2 \<le> length r \<Longrightarrow> \<not> blank_record r"
  by (auto simp: blank_record_def split: list.splits)

lemma parse_column_NA:
  assumes "rs \<noteq> []"
  shows "parse_cell (column_is_int (map (\<lambda>r. ''NA'') rs)) ''NA'' = NaN"
proof -
  have "''NA'' \<in> set na_values" by (simp add: na_values_def)
  with assms show ?thesis
    by (cases rs) (simp_all add: column_is_int_def parse_cell_def)
qed

text \<open>
  C8. Writing a frame with \<open>to_csv\<close> and reading the file back with
  \<open>pd.read_csv\<close> gives the same frame, columns, rows and cell types, for
  every frame pandas can read back unchanged (\<open>csv_stable\<close>: non-empty
  distinct column names, no line the tokenizer skips as blank, integer
  columns of 64-bit integers, and text columns none of whose values is a
  missing-value string or a text pandas may convert to a number or a
  boolean).
\<close>

theorem csv_roundtrip: "csv_stable df \<Longrightarrow> read_csv_text (to_csv_text df) = Inr df"
proof -
  assume st: "csv_stable df"
  then have wf: "wf_frame df" and ne: "columns df \<noteq> []" "list_all (\<lambda>c. c \<noteq> []) (columns df)"
    and nb: "list_all (\<lambda>r. \<not> blank_record r) (columns df # map (map cell_text) (rows df))"
    by (simp_all add: csv_stable_def)
  have len: "\<forall>r\<in>set (rows df). length r = length (columns df)"
    using wf by (simp add: wf_frame_def)
  have cols: "\<forall>j<length (columns df). stable_column (map (\<lambda>r. r ! j) (rows df))"
    using st by (simp add: csv_stable_def list_all_iff)
  have "build_rows (length (columns df)) (map (map cell_text) (rows df)) = rows df"
    using len cols by (rule build_rows_stable)
  with read_csv_text_written [OF wf ne nb] show ?thesis
    by simp
qed

theorem csv_roundtrip_witness:
  "csv_stable \<lparr>columns = [''track'', ''streams'', ''country''],
               rows = [[StrVal ''Say \"hi\", world'', IntVal 10, StrVal ''AU''],
                       [StrVal ''b'', IntVal (-7), NaN]]\<rparr> \<and>
   read_csv_text (to_csv_text \<lparr>columns = [''track'', ''streams'', ''country''],
               rows = [[StrVal ''Say \"hi\", world'', IntVal 10, StrVal ''AU''],
                       [StrVal ''b'', IntVal (-7), NaN]]\<rparr>) =
   Inr \<lparr>columns = [''track'', ''streams'', ''country''],
               rows = [[StrVal ''Say \"hi\", world'', IntVal 10, StrVal ''AU''],
                       [StrVal ''b'', IntVal (-7), NaN]]\<rparr>"
proof -
  have st: "csv_stable \<lparr>columns = [''track'', ''streams'', ''country''],
               rows = [[StrVal ''Say \"hi\", world'', IntVal 10, StrVal ''AU''],
                       [StrVal ''b'', IntVal (-7), NaN]]\<rparr>"
    by code_simp
  show ?thesis
    using csv_roundtrip [OF st] st by simp
qed

lemma keeps_read_csv [keeps_rules]: "keeps_files P (read_csv p)"
  unfolding read_csv_def by (intro keeps_rules)

end
