(* ===== verification/Utf8.thy ===== *)
theory Utf8
  imports Prelude
begin

text \<open>
  UTF-8 as pandas' JSON encoder reads it. The strings of the model are byte
  strings (the bytes pandas reads from the files); the encoder of
  \<open>to_json\<close> (with \<open>force_ascii\<close> on, the default) walks the UTF-8 encoding of
  each string and writes every non-ASCII character as a \<open>\uXXXX\<close> escape, a
  character beyond U+FFFF as a surrogate pair. \<open>utf8_units\<close> splits a byte
  string into what the encoder sees: an ASCII byte, a well-formed multi-byte
  sequence (its code point), or, for a byte that starts no well-formed
  sequence, the byte itself (Python strings are always well formed, so
  these bytes only arise from files that are not valid UTF-8, where
  \<open>pd.read_csv\<close> itself raises; the model keeps them as they are).
  \<open>utf8_encode\<close> is the encoding of a code point, the inverse on the
  sequences \<open>utf8_units\<close> accepts.
\<close>

datatype utf8_unit = UByte char | UCode nat

definition is_cont :: "char \<Rightarrow> bool" where
  "is_cont c \<longleftrightarrow> 128 \<le> (of_char c :: nat) \<and> (of_char c :: nat) < 192"

definition cp2 :: "char \<Rightarrow> char \<Rightarrow> nat" where
  "cp2 a b = (of_char a - 192) * 64 + (of_char b - 128)"

definition cp3 :: "char \<Rightarrow> char \<Rightarrow> char \<Rightarrow> nat" where
  "cp3 a b c = (of_char a - 224) * 4096 + (of_char b - 128) * 64 + (of_char c - 128)"

definition cp4 :: "char \<Rightarrow> char \<Rightarrow> char \<Rightarrow> char \<Rightarrow> nat" where
  "cp4 a b c d = (of_char a - 240) * 262144 + (of_char b - 128) * 4096 + (of_char c - 128) * 64 + (of_char d - 128)"

definition valid2 :: "char \<Rightarrow> char \<Rightarrow> bool" where
  "valid2 a b \<longleftrightarrow> 194 \<le> (of_char a :: nat) \<and> (of_char a :: nat) < 224 \<and> is_cont b"

definition valid3 :: "char \<Rightarrow> char \<Rightarrow> char \<Rightarrow> bool" where
  "valid3 a b c \<longleftrightarrow> 224 \<le> (of_char a :: nat) \<and> (of_char a :: nat) < 240 \<and> is_cont b \<and> is_cont c \<and>
     2048 \<le> cp3 a b c \<and> \<not> (55296 \<le> cp3 a b c \<and> cp3 a b c < 57344)"

definition valid4 :: "char \<Rightarrow> char \<Rightarrow> char \<Rightarrow> char \<Rightarrow> bool" where
  "valid4 a b c d \<longleftrightarrow> 240 \<le> (of_char a :: nat) \<and> (of_char a :: nat) < 245 \<and> is_cont b \<and> is_cont c \<and> is_cont d \<and>
     65536 \<le> cp4 a b c d \<and> cp4 a b c d < 1114112"

text \<open>
  \<open>utf8_head\<close> reads the unit a text starts with and how many bytes it
  takes; \<open>utf8_units\<close> reads a whole text unit by unit.
\<close>

fun utf8_head :: "string \<Rightarrow> utf8_unit \<times> nat" where
  "utf8_head (a # b # c # d # r) =
     (if valid4 a b c d then (UCode (cp4 a b c d), 4)
      else if valid3 a b c then (UCode (cp3 a b c), 3)
      else if valid2 a b then (UCode (cp2 a b), 2)
      else (UByte a, 1))"
| "utf8_head [a, b, c] =
     (if valid3 a b c then (UCode (cp3 a b c), 3)
      else if valid2 a b then (UCode (cp2 a b), 2)
      else (UByte a, 1))"
| "utf8_head [a, b] = (if valid2 a b then (UCode (cp2 a b), 2) else (UByte a, 1))"
| "utf8_head [a] = (UByte a, 1)"
| "utf8_head [] = (UByte CHR 0x00, 1)"

fun utf8_units :: "string \<Rightarrow> utf8_unit list" where
  "utf8_units [] = []"
| "utf8_units (a # r) = (case utf8_head (a # r) of (u, n) \<Rightarrow> u # utf8_units (drop (n - 1) r))"

definition utf8_encode :: "nat \<Rightarrow> string" where
  "utf8_encode n =
     (if n < 128 then [char_of n]
      else if n < 2048 then [char_of (192 + n div 64), char_of (128 + n mod 64)]
      else if n < 65536 then [char_of (224 + n div 4096), char_of (128 + n div 64 mod 64), char_of (128 + n mod 64)]
      else [char_of (240 + n div 262144), char_of (128 + n div 4096 mod 64), char_of (128 + n div 64 mod 64),
            char_of (128 + n mod 64)])"

fun unit_bytes :: "utf8_unit \<Rightarrow> string" where
  "unit_bytes (UByte c) = [c]"
| "unit_bytes (UCode n) = utf8_encode n"

fun unit_ok :: "utf8_unit \<Rightarrow> bool" where
  "unit_ok (UByte c) = True"
| "unit_ok (UCode n) \<longleftrightarrow> 128 \<le> n \<and> n < 1114112 \<and> \<not> (55296 \<le> n \<and> n < 57344)"

text \<open>
  A byte string is well-formed UTF-8 when every byte beyond ASCII belongs to
  a well-formed sequence; it is ASCII when every byte is below 128.
\<close>

definition valid_utf8 :: "string \<Rightarrow> bool" where
  "valid_utf8 s \<longleftrightarrow> list_all (\<lambda>u. case u of UByte c \<Rightarrow> of_char c < (128::nat) | UCode n \<Rightarrow> True) (utf8_units s)"

definition is_ascii :: "string \<Rightarrow> bool" where
  "is_ascii s \<longleftrightarrow> list_all (\<lambda>c. of_char c < (128::nat)) s"

subsection \<open>Lemmas\<close>

lemma is_ascii_simps [simp]:
  "is_ascii []" "is_ascii (c # s) \<longleftrightarrow> of_char c < (128::nat) \<and> is_ascii s"
  "is_ascii (s @ t) \<longleftrightarrow> is_ascii s \<and> is_ascii t"
  by (simp_all add: is_ascii_def)

lemma is_ascii_concat [simp]: "is_ascii (concat ss) \<longleftrightarrow> list_all is_ascii ss"
  by (induction ss) simp_all


lemma cont_char: "is_cont b \<Longrightarrow> char_of (128 + (of_char b - 128 :: nat)) = b"
  by (simp add: is_cont_def)

lemma encode_cp2: "valid2 a b \<Longrightarrow> utf8_encode (cp2 a b) = [a, b]"
proof -
  assume v: "valid2 a b"
  let ?x = "of_char a :: nat" and ?y = "of_char b :: nat"
  have y: "?y - 128 < 64" and x: "2 \<le> ?x - 192" "?x - 192 < 32"
    using v by (auto simp: valid2_def is_cont_def)
  have d: "cp2 a b div 64 = ?x - 192" "cp2 a b mod 64 = ?y - 128"
    using y by (simp_all add: cp2_def)
  have r: "128 \<le> cp2 a b" "cp2 a b < 2048"
    using x y unfolding cp2_def by linarith+
  have "char_of (192 + (?x - 192)) = a" using v by (simp add: valid2_def)
  then show ?thesis using r d v by (simp add: utf8_encode_def valid2_def cont_char)
qed

lemma divmod64:
  "z < 64 \<Longrightarrow> (q * 64 + z) div 64 = (q::nat)"
  "z < 64 \<Longrightarrow> (q * 64 + z) mod 64 = (z::nat)"
  by simp_all

lemma encode_cp3: "valid3 a b c \<Longrightarrow> utf8_encode (cp3 a b c) = [a, b, c]"
proof -
  assume v: "valid3 a b c"
  let ?x = "of_char a :: nat" and ?y = "of_char b :: nat" and ?z = "of_char c :: nat"
  have b: "?y - 128 < 64" "?z - 128 < 64" "?x - 224 < 16"
    using v by (auto simp: valid3_def is_cont_def)
  have e: "cp3 a b c = ((?x - 224) * 64 + (?y - 128)) * 64 + (?z - 128)"
    by (simp add: cp3_def algebra_simps)
  have d1: "cp3 a b c div 64 = (?x - 224) * 64 + (?y - 128)" "cp3 a b c mod 64 = ?z - 128"
    unfolding e using divmod64 [OF b(2)] by blast+
  have d2: "cp3 a b c div 4096 = ?x - 224"
  proof -
    have "cp3 a b c div 4096 = cp3 a b c div 64 div 64" by (simp add: div_mult2_eq [symmetric])
    then show ?thesis using b d1 by simp
  qed
  have r: "2048 \<le> cp3 a b c" "cp3 a b c < 65536"
    using v b unfolding valid3_def cp3_def by linarith+
  have "char_of (224 + (?x - 224)) = a" using v by (simp add: valid3_def)
  then show ?thesis using r d1 d2 b v by (simp add: utf8_encode_def valid3_def cont_char)
qed

lemma encode_cp4: "valid4 a b c d \<Longrightarrow> utf8_encode (cp4 a b c d) = [a, b, c, d]"
proof -
  assume v: "valid4 a b c d"
  let ?x = "of_char a :: nat" and ?y = "of_char b :: nat" and ?z = "of_char c :: nat" and ?w = "of_char d :: nat"
  have b: "?y - 128 < 64" "?z - 128 < 64" "?w - 128 < 64"
    using v by (auto simp: valid4_def is_cont_def)
  have e: "cp4 a b c d = (((?x - 240) * 64 + (?y - 128)) * 64 + (?z - 128)) * 64 + (?w - 128)"
    by (simp add: cp4_def algebra_simps)
  have d1: "cp4 a b c d div 64 = ((?x - 240) * 64 + (?y - 128)) * 64 + (?z - 128)" "cp4 a b c d mod 64 = ?w - 128"
    unfolding e using divmod64 [OF b(3)] by blast+
  have "cp4 a b c d div 4096 = cp4 a b c d div 64 div 64" by (simp add: div_mult2_eq [symmetric])
  also have "\<dots> = (?x - 240) * 64 + (?y - 128)" unfolding d1(1) by (rule divmod64(1) [OF b(2)])
  finally have d2: "cp4 a b c d div 4096 = (?x - 240) * 64 + (?y - 128)" .
  have "cp4 a b c d div 262144 = cp4 a b c d div 4096 div 64" by (simp add: div_mult2_eq [symmetric])
  also have "\<dots> = ?x - 240" unfolding d2 by (rule divmod64(1) [OF b(1)])
  finally have d3: "cp4 a b c d div 262144 = ?x - 240" .
  have m1: "cp4 a b c d div 64 mod 64 = ?z - 128" unfolding d1(1) by (rule divmod64(2) [OF b(2)])
  have m2: "cp4 a b c d div 4096 mod 64 = ?y - 128" unfolding d2 by (rule divmod64(2) [OF b(1)])
  have r: "65536 \<le> cp4 a b c d"
    using v by (simp add: valid4_def)
  have "char_of (240 + (?x - 240)) = a" using v by (simp add: valid4_def)
  then show ?thesis using r d1(2) d3 m1 m2 v by (simp add: utf8_encode_def valid4_def cont_char)
qed

lemma cp_ranges:
  "valid2 a b \<Longrightarrow> 128 \<le> cp2 a b \<and> cp2 a b < 2048"
  "valid3 a b c \<Longrightarrow> 2048 \<le> cp3 a b c \<and> cp3 a b c < 65536 \<and> \<not> (55296 \<le> cp3 a b c \<and> cp3 a b c < 57344)"
  "valid4 a b c d \<Longrightarrow> 65536 \<le> cp4 a b c d \<and> cp4 a b c d < 1114112"
  by (auto simp: valid2_def valid3_def valid4_def cp2_def cp3_def is_cont_def)

lemma utf8_head_bytes:
  "s \<noteq> [] \<Longrightarrow> utf8_head s = (u, n) \<Longrightarrow> unit_bytes u = take n s \<and> 1 \<le> n \<and> unit_ok u"
  by (induction s rule: utf8_head.induct)
     (auto simp: encode_cp2 encode_cp3 encode_cp4 dest: cp_ranges split: if_splits)

lemma utf8_units_bytes: "concat (map unit_bytes (utf8_units s)) = s"
proof (induction s rule: utf8_units.induct)
  case (2 a r)
  obtain u n where h: "utf8_head (a # r) = (u, n)" by fastforce
  with utf8_head_bytes [OF _ h] have "unit_bytes u = a # take (n - 1) r"
    by (cases n) auto
  with 2 h show ?case by simp
qed simp

lemma utf8_units_ok: "u \<in> set (utf8_units s) \<Longrightarrow> unit_ok u"
proof (induction s rule: utf8_units.induct)
  case (2 a r)
  obtain v n where h: "utf8_head (a # r) = (v, n)" by fastforce
  with 2 utf8_head_bytes [OF _ h] show ?case by auto
qed simp

end
