(* ===== verification/Json.thy ===== *)
theory Json
  imports Csv Utf8
begin

text \<open>
  The structured-record writer, \<open>save_as_json\<close> of \<open>src/merge_csv.py\<close>
  (lines 15--17): \<open>dataframe.to_json(file_path, orient='records', lines=False,
  indent=4)\<close>. The frame becomes a JSON array with one object per row, whose
  members are the columns in order; a missing value is \<open>null\<close>, an integer
  is its decimal digits, a text is a quoted string. The text follows pandas'
  encoder: a line feed and four spaces per level before every element and
  member and before the closing bracket, a comma right after an element, no
  space after the colon, \<open>[]\<close> for an empty array; in strings the quote, the
  backslash and the forward slash are escaped with a backslash, the control
  characters by their short escapes or \<open>\u00XX\<close>. With \<open>force_ascii\<close> on
  (pandas' default) every other character beyond ASCII is written as
  \<open>\uXXXX\<close>, in lower-case hexadecimal, and one beyond U+FFFF as its UTF-16
  surrogate pair; the model decodes the UTF-8 bytes of the text with
  \<open>utf8_units\<close> (theory \<open>Utf8\<close>) to find the characters.
  \<open>json_read_string\<close> is the string scanner of a JSON reader and
  \<open>json_parse\<close> the reader of whole documents (a \<open>partial_function\<close> in
  the option monad over a mode of what it reads next, modelled on the JSON
  grammar, not on code of the repository); the round trips of strings and of
  documents are proved against them.
\<close>

subsection \<open>JSON values and their text\<close>

datatype json = JNull | JInt int | JStr string | JArr "json list" | JObj "(string \<times> json) list"

definition hex_digit :: "nat \<Rightarrow> char" where
  "hex_digit n = (if n < 10 then char_of (48 + n) else char_of (87 + n))"

text \<open>\<open>\uXXXX\<close>: a backslash, \<open>u\<close> and four lower-case hexadecimal digits.\<close>

definition json_u :: "nat \<Rightarrow> string" where
  "json_u n = [CHR 0x5C, CHR ''u'', hex_digit (n div 4096 mod 16), hex_digit (n div 256 mod 16),
               hex_digit (n div 16 mod 16), hex_digit (n mod 16)]"

definition json_escape_char :: "char \<Rightarrow> string" where
  "json_escape_char c =
     (if c = CHR 0x22 then [CHR 0x5C, CHR 0x22]
      else if c = CHR 0x5C then [CHR 0x5C, CHR 0x5C]
      else if c = CHR ''/'' then [CHR 0x5C, CHR ''/'']
      else if c = CHR 0x08 then [CHR 0x5C, CHR ''b'']
      else if c = CHR 0x0C then [CHR 0x5C, CHR ''f'']
      else if c = CHR 0x0A then [CHR 0x5C, CHR ''n'']
      else if c = CHR 0x0D then [CHR 0x5C, CHR ''r'']
      else if c = CHR 0x09 then [CHR 0x5C, CHR ''t'']
      else if of_char c < (32::nat) then json_u (of_char c)
      else [c])"

text \<open>
  A character beyond ASCII is written as its code point's escape; one beyond
  U+FFFF as the escapes of its UTF-16 surrogate pair.
\<close>

fun json_escape_unit :: "utf8_unit \<Rightarrow> string" where
  "json_escape_unit (UByte c) = json_escape_char c"
| "json_escape_unit (UCode n) =
     (if n < 65536 then json_u n
      else json_u (55296 + (n - 65536) div 1024) @ json_u (56320 + (n - 65536) mod 1024))"

definition json_escape :: "string \<Rightarrow> string" where
  "json_escape s = concat (map json_escape_unit (utf8_units s))"

definition json_string :: "string \<Rightarrow> string" where
  "json_string s = CHR 0x22 # json_escape s @ [CHR 0x22]"

definition indent_line :: "nat \<Rightarrow> string" where
  "indent_line l = CHR 0x0A # replicate (4 * l) (CHR '' '')"

fun json_text :: "nat \<Rightarrow> json \<Rightarrow> string" where
  "json_text l JNull = ''null''"
| "json_text l (JInt i) = int_text i"
| "json_text l (JStr s) = json_string s"
| "json_text l (JArr xs) =
     (if xs = [] then ''[]''
      else CHR ''['' # py_join CHR '','' (map (\<lambda>x. indent_line (Suc l) @ json_text (Suc l) x) xs)
             @ indent_line l @ '']'')"
| "json_text l (JObj kvs) =
     (if kvs = [] then ''{}''
      else CHR ''{'' # py_join CHR '',''
               (map (\<lambda>kv. indent_line (Suc l) @ json_string (fst kv) @ CHR '':'' # json_text (Suc l) (snd kv)) kvs)
             @ indent_line l @ ''}'')"

text \<open>The texts a JSON value holds, keys included.\<close>

fun json_strs :: "json \<Rightarrow> string list" where
  "json_strs (JStr s) = [s]"
| "json_strs (JArr xs) = concat (map json_strs xs)"
| "json_strs (JObj kvs) = concat (map (\<lambda>kv. fst kv # json_strs (snd kv)) kvs)"
| "json_strs JNull = []"
| "json_strs (JInt i) = []"

subsection \<open>The writer\<close>

fun json_of_cell :: "cell \<Rightarrow> json" where
  "json_of_cell NaN = JNull"
| "json_of_cell (IntVal i) = JInt i"
| "json_of_cell (StrVal s) = JStr s"

definition frame_json :: "frame \<Rightarrow> json" where
  "frame_json df = JArr (map (\<lambda>r. JObj (zip (columns df) (map json_of_cell r))) (rows df))"

definition to_json_text :: "frame \<Rightarrow> contents" where
  "to_json_text df = json_text 0 (frame_json df)"

definition save_as_json :: "frame \<Rightarrow> path \<Rightarrow> unit io" where
  "save_as_json df p = write_file p (to_json_text df)"

subsection \<open>Reading strings back\<close>

text \<open>
  \<open>json_read_string\<close> is the string scanner of a JSON reader, started after
  the opening quote: it decodes the escapes, refuses a raw control character
  or a broken escape, and stops at the first quote that is not escaped,
  returning the decoded text and the rest of the input.
\<close>

definition hex_value :: "char \<Rightarrow> nat option" where
  "hex_value c =
     (let n = of_char c :: nat in
      if 48 \<le> n \<and> n \<le> 57 then Some (n - 48)
      else if 97 \<le> n \<and> n \<le> 102 then Some (n - 87)
      else if 65 \<le> n \<and> n \<le> 70 then Some (n - 55) else None)"

definition hex_number :: "string \<Rightarrow> nat" where
  "hex_number hs = foldl (\<lambda>a h. 16 * a + the (hex_value h)) 0 hs"

fun json_read_string :: "string \<Rightarrow> (string \<times> string) option" where
  "json_read_string [] = None"
| "json_read_string (c # cs) =
     (if c = CHR 0x22 then Some ([], cs)
      else if c \<noteq> CHR 0x5C then
        (if of_char c < (32::nat) then None else map_option (apfst (Cons c)) (json_read_string cs))
      else case cs of
        [] \<Rightarrow> None
      | d # ds \<Rightarrow>
          if d = CHR 0x22 \<or> d = CHR 0x5C \<or> d = CHR ''/'' then map_option (apfst (Cons d)) (json_read_string ds)
          else if d = CHR ''b'' then map_option (apfst (Cons (CHR 0x08))) (json_read_string ds)
          else if d = CHR ''f'' then map_option (apfst (Cons (CHR 0x0C))) (json_read_string ds)
          else if d = CHR ''n'' then map_option (apfst (Cons (CHR 0x0A))) (json_read_string ds)
          else if d = CHR ''r'' then map_option (apfst (Cons (CHR 0x0D))) (json_read_string ds)
          else if d = CHR ''t'' then map_option (apfst (Cons (CHR 0x09))) (json_read_string ds)
          else if d = CHR ''u'' \<and> 4 \<le> length ds \<and> list_all (\<lambda>h. hex_value h \<noteq> None) (take 4 ds) then
            (if hex_number (take 4 ds) < 128
             then map_option (apfst (Cons (char_of (hex_number (take 4 ds))))) (json_read_string (drop 4 ds))
             else if 55296 \<le> hex_number (take 4 ds) \<and> hex_number (take 4 ds) < 56320 then
               (if 6 \<le> length (drop 4 ds) \<and> take 2 (drop 4 ds) = [CHR 0x5C, CHR ''u''] \<and>
                   list_all (\<lambda>h. hex_value h \<noteq> None) (take 4 (drop 6 ds)) \<and>
                   56320 \<le> hex_number (take 4 (drop 6 ds)) \<and> hex_number (take 4 (drop 6 ds)) < 57344
                then map_option (apfst (\<lambda>t. utf8_encode (65536 + (hex_number (take 4 ds) - 55296) * 1024 +
                                                          (hex_number (take 4 (drop 6 ds)) - 56320)) @ t))
                       (json_read_string (drop 10 ds))
                else None)
             else if 56320 \<le> hex_number (take 4 ds) \<and> hex_number (take 4 ds) < 57344 then None
             else map_option (apfst (\<lambda>t. utf8_encode (hex_number (take 4 ds)) @ t)) (json_read_string (drop 4 ds)))
          else None)"

subsection \<open>Reading documents back\<close>

text \<open>
  A reader for the documents the writer produces: whitespace is skipped
  between tokens, integers are an optional minus sign and digits, strings
  are read by \<open>json_read_string\<close>; arrays and objects are read by one
  recursive function over a mode (a value, the rest of an array, the rest of
  an object), defined with \<open>partial_function (option)\<close> since it recurses
  on the text left by an inner call. \<open>jterm\<close> is what may follow a value
  in the writer's layout.
\<close>

definition json_ws :: "char \<Rightarrow> bool" where
  "json_ws c \<longleftrightarrow> c = CHR '' '' \<or> c = CHR 0x0A \<or> c = CHR 0x0D \<or> c = CHR 0x09"

definition skip_ws :: "string \<Rightarrow> string" where
  "skip_ws s = dropWhile json_ws s"

definition json_int :: "string \<Rightarrow> (int \<times> string) option" where
  "json_int s =
     (let neg = (s \<noteq> [] \<and> hd s = CHR ''-'');
          t = (if neg then tl s else s);
          ds = takeWhile is_digit t
      in if ds = [] then None
         else Some ((if neg then - int (digits_value ds) else int (digits_value ds)), dropWhile is_digit t))"

datatype json_mode = JValue | JElems "json list" | JMembers "(string \<times> json) list"

partial_function (option) json_p :: "json_mode \<Rightarrow> string \<Rightarrow> (json \<times> string) option" where
  "json_p m s =
     (case m of
        JValue \<Rightarrow>
          (case skip_ws s of
             [] \<Rightarrow> None
           | c # cs \<Rightarrow>
               if c = CHR ''['' then
                 (case skip_ws cs of
                    [] \<Rightarrow> None
                  | d # ds \<Rightarrow> if d = CHR '']'' then Some (JArr [], ds) else json_p (JElems []) cs)
               else if c = CHR ''{'' then
                 (case skip_ws cs of
                    [] \<Rightarrow> None
                  | d # ds \<Rightarrow> if d = CHR ''}'' then Some (JObj [], ds) else json_p (JMembers []) cs)
               else if c = CHR 0x22 then map_option (apfst JStr) (json_read_string cs)
               else if c = CHR ''n'' \<and> take 3 cs = ''ull'' then Some (JNull, drop 3 cs)
               else map_option (apfst JInt) (json_int (c # cs)))
      | JElems acc \<Rightarrow>
          Option.bind (json_p JValue s) (\<lambda>(v, r).
            case skip_ws r of
              [] \<Rightarrow> None
            | d # r' \<Rightarrow>
                if d = CHR '','' then json_p (JElems (acc @ [v])) r'
                else if d = CHR '']'' then Some (JArr (acc @ [v]), r') else None)
      | JMembers acc \<Rightarrow>
          (case skip_ws s of
             [] \<Rightarrow> None
           | c # cs \<Rightarrow>
               if c \<noteq> CHR 0x22 then None
               else Option.bind (json_read_string cs) (\<lambda>(k, r).
                 case skip_ws r of
                   [] \<Rightarrow> None
                 | d # r' \<Rightarrow>
                     if d \<noteq> CHR '':'' then None
                     else Option.bind (json_p JValue r') (\<lambda>(v, r'').
                       case skip_ws r'' of
                         [] \<Rightarrow> None
                       | e # t \<Rightarrow>
                           if e = CHR '','' then json_p (JMembers (acc @ [(k, v)])) t
                           else if e = CHR ''}'' then Some (JObj (acc @ [(k, v)]), t) else None))))"

definition json_parse :: "string \<Rightarrow> json option" where
  "json_parse s =
     (case json_p JValue s of None \<Rightarrow> None | Some (j, r) \<Rightarrow> if skip_ws r = [] then Some j else None)"

declare json_p.simps [code]

definition jterm :: "string \<Rightarrow> bool" where
  "jterm rest \<longleftrightarrow> rest = [] \<or> hd rest = CHR '','' \<or> hd rest = CHR 0x0A"

subsection \<open>Round trip of the string escaping\<close>

lemma hex_value_digit: "k < 16 \<Longrightarrow> hex_value (hex_digit k) = Some k"
  by (auto simp: hex_value_def hex_digit_def Let_def)

lemma hex_value_zero: "hex_value CHR ''0'' = Some 0"
  by (simp add: hex_value_def)

lemma hex4_value:
  assumes n: "(n::nat) < 65536"
  shows "((n div 4096 mod 16 * 16 + n div 256 mod 16) * 16 + n div 16 mod 16) * 16 + n mod 16 = n"
proof -
  have s1: "n div 256 div 16 = n div 4096" "n div 16 div 16 = n div 256" by (simp_all add: div_mult2_eq [symmetric])
  have m3: "n div 4096 mod 16 = n div 4096" using n by simp
  have "n div 4096 * 16 + n div 256 mod 16 = n div 256"
    using div_mult_mod_eq [of "n div 256" 16] by (simp only: s1)
  moreover have "n div 256 * 16 + n div 16 mod 16 = n div 16"
    using div_mult_mod_eq [of "n div 16" 16] by (simp only: s1)
  moreover have "n div 16 * 16 + n mod 16 = n"
    by (rule div_mult_mod_eq)
  ultimately show ?thesis by (simp only: m3)
qed
lemma hex_json_u:
  assumes n: "n < 65536"
  shows "\<exists>hs. json_u n @ r = CHR 0x5C # CHR ''u'' # hs @ r \<and> length hs = 4 \<and>
           list_all (\<lambda>h. hex_value h \<noteq> None) hs \<and> hex_number hs = n"
proof -
  let ?hs = "[hex_digit (n div 4096 mod 16), hex_digit (n div 256 mod 16), hex_digit (n div 16 mod 16), hex_digit (n mod 16)]"
  have "hex_number ?hs = ((n div 4096 mod 16 * 16 + n div 256 mod 16) * 16 + n div 16 mod 16) * 16 + n mod 16"
    by (simp add: hex_number_def hex_value_digit algebra_simps)
  also have "\<dots> = n" using n by (rule hex4_value)
  finally have "hex_number ?hs = n" .
  moreover have "list_all (\<lambda>h. hex_value h \<noteq> None) ?hs" by (simp add: hex_value_digit)
  ultimately show ?thesis by (auto simp: json_u_def)
qed

lemma json_read_escape_char:
  "json_read_string (json_escape_char c @ rest) = map_option (apfst (Cons c)) (json_read_string rest)"
proof -
  consider "c = CHR 0x22" | "c = CHR 0x5C" | "c = CHR ''/''" | "c = CHR 0x08" | "c = CHR 0x0C"
    | "c = CHR 0x0A" | "c = CHR 0x0D" | "c = CHR 0x09"
    | "c \<notin> {CHR 0x22, CHR 0x5C, CHR ''/'', CHR 0x08, CHR 0x0C, CHR 0x0A, CHR 0x0D, CHR 0x09}"
    by blast
  then show ?thesis
  proof cases
    case 9
    show ?thesis
    proof (cases "of_char c < (32::nat)")
      case True
      then obtain hs where "json_u (of_char c) @ rest = CHR 0x5C # CHR ''u'' # hs @ rest" "length hs = 4"
        "list_all (\<lambda>h. hex_value h \<noteq> None) hs" "hex_number hs = of_char c"
        using hex_json_u [of "of_char c" rest] by auto
      with 9 True show ?thesis by (simp add: json_escape_char_def)
    next
      case False
      with 9 show ?thesis by (simp add: json_escape_char_def)
    qed
  qed (simp_all add: json_escape_char_def)
qed

lemma json_read_unit:
  assumes ok: "unit_ok u"
  shows "json_read_string (json_escape_unit u @ rest) = map_option (apfst (\<lambda>t. unit_bytes u @ t)) (json_read_string rest)"
proof (cases u)
  case (UByte c)
  then show ?thesis by (simp add: json_read_escape_char)
next
  case (UCode n)
  with ok have n: "128 \<le> n" "n < 1114112" "\<not> (55296 \<le> n \<and> n < 57344)" by simp_all
  show ?thesis
  proof (cases "n < 65536")
    case True
    then obtain hs where "json_u n @ rest = CHR 0x5C # CHR ''u'' # hs @ rest" "length hs = 4"
      "list_all (\<lambda>h. hex_value h \<noteq> None) hs" "hex_number hs = n"
      using hex_json_u [of n rest] by auto
    moreover have "\<not> n < 128" "\<not> (55296 \<le> n \<and> n < 56320)" "\<not> (56320 \<le> n \<and> n < 57344)"
      using n by auto
    ultimately show ?thesis using UCode True by (simp; auto)
  next
    case False
    let ?hi = "55296 + (n - 65536) div 1024" and ?lo = "56320 + (n - 65536) mod 1024"
    have hi: "55296 \<le> ?hi" "?hi < 56320" using n False by auto
    have lo: "56320 \<le> ?lo" "?lo < 57344" by auto
    obtain ls where ls: "json_u ?lo @ rest = CHR 0x5C # CHR ''u'' # ls @ rest" "length ls = 4"
      "list_all (\<lambda>h. hex_value h \<noteq> None) ls" "hex_number ls = ?lo"
      using hex_json_u [of ?lo rest] lo by auto
    obtain hs where hs: "json_u ?hi @ json_u ?lo @ rest = CHR 0x5C # CHR ''u'' # hs @ json_u ?lo @ rest" "length hs = 4"
      "list_all (\<lambda>h. hex_value h \<noteq> None) hs" "hex_number hs = ?hi"
      using hex_json_u [of ?hi "json_u ?lo @ rest"] hi by auto
    have cp: "65536 + (?hi - 55296) * 1024 + (?lo - 56320) = n" using False by simp
    show ?thesis using UCode False hs ls hi lo cp by simp
  qed
qed

lemma json_read_units:
  "\<forall>u\<in>set us. unit_ok u \<Longrightarrow>
   json_read_string (concat (map json_escape_unit us) @ CHR 0x22 # rest) = Some (concat (map unit_bytes us), rest)"
  by (induction us) (simp_all add: json_read_unit)

lemma json_read_escaped:
  "json_read_string (json_escape s @ CHR 0x22 # rest) = Some (s, rest)"
  using json_read_units [of "utf8_units s" rest] utf8_units_ok [of _ s]
  by (simp add: json_escape_def utf8_units_bytes)

lemma skip_ws_nonws [simp]: "\<not> json_ws c \<Longrightarrow> skip_ws (c # s) = c # s"
  by (simp add: skip_ws_def)

lemma skip_ws_ws [simp]: "json_ws c \<Longrightarrow> skip_ws (c # s) = skip_ws s"
  by (simp add: skip_ws_def)

lemma skip_ws_indent [simp]: "skip_ws (indent_line l @ s) = skip_ws s"
proof -
  have "dropWhile json_ws (replicate n (CHR '' '') @ s) = dropWhile json_ws s" for n
    by (induction n) (simp_all add: json_ws_def)
  then show ?thesis by (simp add: skip_ws_def indent_line_def json_ws_def)
qed

lemma json_ws_chars [simp]:
  "json_ws (CHR 0x0A)" "\<not> json_ws CHR '',''" "\<not> json_ws CHR '']''" "\<not> json_ws CHR ''}''"
  "\<not> json_ws CHR '':''" "\<not> json_ws CHR 0x22" "\<not> json_ws CHR ''[''" "\<not> json_ws CHR ''{''" "\<not> json_ws CHR ''n''"
  by (simp_all add: json_ws_def)

lemma is_digit_not_ws: "is_digit c \<Longrightarrow> \<not> json_ws c"
  by (auto simp: is_digit_def json_ws_def less_eq_char_def)

lemma takeWhile_digits:
  "list_all is_digit ds \<Longrightarrow> (rest = [] \<or> \<not> is_digit (hd rest)) \<Longrightarrow>
   takeWhile is_digit (ds @ rest) = ds \<and> dropWhile is_digit (ds @ rest) = rest"
proof (induction ds)
  case Nil
  then show ?case by (cases rest) auto
qed auto

lemma json_int_text:
  "rest = [] \<or> \<not> is_digit (hd rest) \<Longrightarrow> json_int (int_text i @ rest) = Some (i, rest)"
proof -
  assume r: "rest = [] \<or> \<not> is_digit (hd rest)"
  have d: "nat_text n \<noteq> [] \<and> list_all is_digit (nat_text n)" for n
    using digits_nat_text [of n] by (simp add: digits_def)
  have minus: "\<not> is_digit CHR ''-''" by (simp add: is_digit_def less_eq_char_def)
  show ?thesis
  proof (cases "i < 0")
    case True
    with takeWhile_digits [OF conjunct2 [OF d] r, of "nat (- i)"] d [of "nat (- i)"] show ?thesis
      by (simp add: json_int_def int_text_def digits_value_nat_text Let_def)
  next
    case False
    obtain c cs where nt: "nat_text (nat i) = c # cs" using d [of "nat i"] by (cases "nat_text (nat i)") auto
    then have "c \<noteq> CHR ''-''" using hd_nat_text_digit [OF nt] minus by auto
    moreover have "digits_value (c # cs) = nat i" using digits_value_nat_text [of "nat i"] nt by simp
    ultimately show ?thesis using False nt takeWhile_digits [OF conjunct2 [OF d] r, of "nat i"] d [of "nat i"]
      by (simp add: json_int_def int_text_def Let_def)
  qed
qed

lemma json_text_hd:
  "\<exists>c cs. json_text l j = c # cs \<and> \<not> json_ws c \<and> c \<noteq> CHR '']'' \<and> c \<noteq> CHR ''}''"
proof (cases j)
  case (JInt i)
  then show ?thesis
  proof (cases "i < 0")
    case False
    obtain c cs where nt: "nat_text (nat i) = c # cs"
      using digits_nat_text [of "nat i"] by (cases "nat_text (nat i)") (auto simp: digits_def)
    have "is_digit c" by (rule hd_nat_text_digit [OF nt])
    then have "\<not> json_ws c \<and> c \<noteq> CHR '']'' \<and> c \<noteq> CHR ''}''"
      by (auto simp: is_digit_def json_ws_def less_eq_char_def)
    with JInt False nt show ?thesis by (simp add: int_text_def)
  qed (simp add: JInt int_text_def json_ws_def)
qed (simp_all add: json_string_def json_ws_def)

lemma jterm_simps [simp]:
  "jterm []" "jterm (CHR '','' # r)" "jterm (indent_line l @ r)"
  by (simp_all add: jterm_def indent_line_def)

lemma jterm_not_digit: "jterm rest \<Longrightarrow> rest = [] \<or> \<not> is_digit (hd rest)"
  by (auto simp: jterm_def is_digit_def less_eq_char_def)

lemma json_p_value_indent: "json_p JValue (indent_line k @ s) = json_p JValue s"
  by (subst (1 2) json_p.simps) simp

lemma json_p_elems:
  assumes ih: "\<forall>x\<in>set ys. \<forall>l rest. jterm rest \<longrightarrow> json_p JValue (json_text l x @ rest) = Some (x, rest)"
    and ne: "ys \<noteq> []"
  shows "json_p (JElems acc)
           (py_join CHR '','' (map (\<lambda>x. indent_line k @ json_text k x) ys) @ indent_line l @ CHR '']'' # rest) =
         Some (JArr (acc @ ys), rest)"
  using ih ne
proof (induction ys arbitrary: acc)
  case (Cons y ys)
  have y: "json_p JValue (json_text k y @ r) = Some (y, r)" if "jterm r" for r
    using Cons.prems(1) that by simp
  show ?case
  proof (cases ys)
    case Nil
    show ?thesis
      by (subst json_p.simps) (simp add: Nil json_p_value_indent y)
  next
    case (Cons z zs)
    have rest: "json_p (JElems (acc @ [y]))
           (py_join CHR '','' (map (\<lambda>x. indent_line k @ json_text k x) ys) @ indent_line l @ CHR '']'' # rest) =
         Some (JArr ((acc @ [y]) @ ys), rest)"
      using Cons.IH [of "acc @ [y]"] Cons.prems(1) Cons by simp
    show ?thesis
      using rest by (subst json_p.simps) (simp add: Cons json_p_value_indent y [of "CHR '','' # _", simplified])
  qed
qed simp

lemma json_p_members:
  assumes ih: "\<forall>kv\<in>set kvs. \<forall>l rest. jterm rest \<longrightarrow> json_p JValue (json_text l (snd kv) @ rest) = Some (snd kv, rest)"
    and ne: "kvs \<noteq> []"
  shows "json_p (JMembers acc)
           (py_join CHR '',''
              (map (\<lambda>kv. indent_line k @ json_string (fst kv) @ CHR '':'' # json_text k (snd kv)) kvs)
            @ indent_line l @ CHR ''}'' # rest) =
         Some (JObj (acc @ kvs), rest)"
  using ih ne
proof (induction kvs arbitrary: acc)
  case (Cons kv kvs)
  have v: "json_p JValue (json_text k (snd kv) @ r) = Some (snd kv, r)" if "jterm r" for r
    using Cons.prems(1) that by simp
  have key: "json_string key @ r = CHR 0x22 # (json_escape key @ CHR 0x22 # r)" for key r
    by (simp add: json_string_def)
  show ?case
  proof (cases kvs)
    case Nil
    show ?thesis
      by (subst json_p.simps) (simp add: Nil v key json_read_escaped del: json_text.simps)
  next
    case (Cons z zs)
    have rest: "json_p (JMembers (acc @ [kv]))
           (py_join CHR '',''
              (map (\<lambda>kv. indent_line k @ json_string (fst kv) @ CHR '':'' # json_text k (snd kv)) kvs)
            @ indent_line l @ CHR ''}'' # rest) =
         Some (JObj ((acc @ [kv]) @ kvs), rest)"
      using Cons.IH [of "acc @ [kv]"] Cons.prems(1) Cons by simp
    show ?thesis
      using rest by (subst json_p.simps)
        (simp add: Cons v [of "CHR '','' # _", simplified] key json_read_escaped del: json_text.simps)
  qed
qed simp

lemma json_p_text: "jterm rest \<Longrightarrow> json_p JValue (json_text l j @ rest) = Some (j, rest)"
proof (induction j arbitrary: l rest)
  case JNull
  then show ?case by (subst json_p.simps) simp
next
  case (JInt i)
  obtain c cs where t: "int_text i = c # cs" and c: "\<not> json_ws c"
    using json_text_hd [of l "JInt i"] by auto
  have "c = CHR ''-'' \<or> is_digit c"
    using t hd_nat_text_digit by (auto simp: int_text_def split: if_splits)
  then have nc: "c \<noteq> CHR ''['' \<and> c \<noteq> CHR ''{'' \<and> c \<noteq> CHR 0x22 \<and> c \<noteq> CHR ''n''"
    by (auto simp: is_digit_def less_eq_char_def)
  have "json_int (c # cs @ rest) = Some (i, rest)"
    using json_int_text [OF jterm_not_digit [OF JInt.prems], of i] t by simp
  with c nc t show ?case by (subst json_p.simps) simp
next
  case (JStr s)
  then show ?case
    by (subst json_p.simps) (simp add: json_string_def json_read_escaped)
next
  case (JArr xs)
  show ?case
  proof (cases xs)
    case Nil
    then show ?thesis by (subst json_p.simps) simp
  next
    case (Cons x xs')
    obtain c cs where t: "json_text (Suc l) x = c # cs" and c: "\<not> json_ws c \<and> c \<noteq> CHR '']''"
      using json_text_hd [of "Suc l" x] by auto
    have ih: "\<forall>y\<in>set xs. \<forall>l rest. jterm rest \<longrightarrow> json_p JValue (json_text l y @ rest) = Some (y, rest)"
      using JArr.IH by blast
    have e: "json_p (JElems [])
           (py_join CHR '','' (map (\<lambda>x. indent_line (Suc l) @ json_text (Suc l) x) xs) @ indent_line l @ CHR '']'' # rest) =
         Some (JArr xs, rest)"
      using json_p_elems [OF ih, of "[]" "Suc l" l rest] Cons by simp
    have s: "skip_ws (py_join CHR '','' (map (\<lambda>x. indent_line (Suc l) @ json_text (Suc l) x) xs) @ r) =
             c # cs @ (if xs' = [] then [] else CHR '','' # py_join CHR '','' (map (\<lambda>x. indent_line (Suc l) @ json_text (Suc l) x) xs')) @ r" for r
      using t c by (cases xs') (simp_all add: Cons)
    have tx: "json_text l (JArr xs) @ rest = CHR ''['' #
        (py_join CHR '','' (map (\<lambda>x. indent_line (Suc l) @ json_text (Suc l) x) xs) @ indent_line l @ CHR '']'' # rest)"
      using Cons by simp
    show ?thesis
      using c by (subst json_p.simps) (simp add: tx s e del: json_text.simps)
  qed
next
  case (JObj kvs)
  show ?case
  proof (cases kvs)
    case Nil
    then show ?thesis by (subst json_p.simps) simp
  next
    case (Cons kv kvs')
    have ih: "\<forall>kv\<in>set kvs. \<forall>l rest. jterm rest \<longrightarrow> json_p JValue (json_text l (snd kv) @ rest) = Some (snd kv, rest)"
      using JObj.IH by (metis prod.collapse snds.intros)
    have e: "json_p (JMembers [])
           (py_join CHR '',''
              (map (\<lambda>kv. indent_line (Suc l) @ json_string (fst kv) @ CHR '':'' # json_text (Suc l) (snd kv)) kvs)
            @ indent_line l @ CHR ''}'' # rest) = Some (JObj kvs, rest)"
      using json_p_members [OF ih, of "[]" "Suc l" l rest] Cons by simp
    have s: "skip_ws (py_join CHR '',''
              (map (\<lambda>kv. indent_line (Suc l) @ json_string (fst kv) @ CHR '':'' # json_text (Suc l) (snd kv)) kvs) @ r) =
             CHR 0x22 # tl (py_join CHR '',''
              (map (\<lambda>kv. json_string (fst kv) @ CHR '':'' # json_text (Suc l) (snd kv)) [kv]) @
               (if kvs' = [] then [] else CHR '','' # py_join CHR '','' (map (\<lambda>kv. indent_line (Suc l) @ json_string (fst kv) @ CHR '':'' # json_text (Suc l) (snd kv)) kvs'))) @ r" for r
      by (cases kvs') (simp_all add: Cons json_string_def)
    have nb: "\<not> json_ws CHR 0x22 \<and> CHR 0x22 \<noteq> CHR ''}''" by simp
    have tx: "json_text l (JObj kvs) @ rest = CHR ''{'' #
        (py_join CHR '',''
              (map (\<lambda>kv. indent_line (Suc l) @ json_string (fst kv) @ CHR '':'' # json_text (Suc l) (snd kv)) kvs)
            @ indent_line l @ CHR ''}'' # rest)"
      using Cons by simp
    show ?thesis
      by (subst json_p.simps) (simp add: tx s e del: json_text.simps)
  qed
qed

lemma json_parse_text: "json_parse (json_text 0 j) = Some j"
  using json_p_text [of "[]" 0 j] by (simp add: json_parse_def skip_ws_def)

subsection \<open>The document is ASCII\<close>

lemma hex_digit_ascii: "k < 16 \<Longrightarrow> of_char (hex_digit k) < (128::nat)"
  by (simp add: hex_digit_def)

lemma ascii_json_u: "is_ascii (json_u n)"
  by (simp add: json_u_def hex_digit_ascii)

lemma ascii_json_escape_char: "of_char c < (128::nat) \<Longrightarrow> is_ascii (json_escape_char c)"
  by (simp add: json_escape_char_def ascii_json_u)

lemma ascii_json_string: "valid_utf8 s \<Longrightarrow> is_ascii (json_string s)"
proof -
  assume v: "valid_utf8 s"
  have "is_ascii (json_escape_unit u)" if "u \<in> set (utf8_units s)" for u
    using v that by (cases u) (auto simp: valid_utf8_def list_all_iff ascii_json_escape_char ascii_json_u)
  then show ?thesis by (simp add: json_string_def json_escape_def list_all_iff)
qed

lemma ascii_int_text: "is_ascii (int_text i)"
proof -
  have "is_ascii (nat_text n)" for n
    using digits_nat_text [of n] by (auto simp: digits_def is_ascii_def list_all_iff is_digit_def less_eq_char_def)
  then show ?thesis by (simp add: int_text_def)
qed

lemma ascii_py_join: "list_all is_ascii ts \<Longrightarrow> of_char d < (128::nat) \<Longrightarrow> is_ascii (py_join d ts)"
  by (induction d ts rule: py_join.induct) simp_all

lemma ascii_indent_line [simp]: "is_ascii (indent_line l)"
  by (simp add: indent_line_def is_ascii_def list_all_iff)

lemma ascii_json_text: "list_all valid_utf8 (json_strs j) \<Longrightarrow> is_ascii (json_text l j)"
proof (induction j arbitrary: l)
  case (JArr xs)
  then show ?case by (auto simp: list_all_iff intro!: ascii_py_join)
next
  case (JObj kvs)
  then show ?case
    by (auto simp: list_all_iff ascii_json_string intro!: ascii_py_join)
qed (simp_all add: ascii_json_string ascii_int_text)

lemma valid_json_of_cell:
  "(case c of StrVal s \<Rightarrow> valid_utf8 s | _ \<Rightarrow> True) \<Longrightarrow> list_all valid_utf8 (json_strs (json_of_cell c))"
  by (cases c) simp_all

text \<open>
  C36. A reader scanning a string the writer produced, a column name or a
  text value, stops at the writer's closing quote and decodes exactly the
  original bytes: the escaping loses nothing, non-ASCII characters (written
  as \<open>\uXXXX\<close> escapes and surrogate pairs) included, and no content,
  quotes and backslashes included, can end the string early.
\<close>

theorem json_string_roundtrip:
  "\<exists>t. json_string s @ rest = CHR 0x22 # t \<and> json_read_string t = Some (s, rest)"
  using json_read_escaped [of s rest] by (simp add: json_string_def)

text \<open>
  C25. The structured-record document of a well-formed frame, read back by a
  JSON reader, is an array with one element per row, each an object whose
  keys are the frame's column names in order and whose values are the row's
  cells (a missing value as \<open>null\<close>): the document encodes the whole
  record set, with no truncation and no reordering.
\<close>

theorem json_document_records:
  "wf_frame df \<Longrightarrow>
   \<exists>objs. json_parse (to_json_text df) = Some (JArr objs) \<and> length objs = row_count df \<and>
     list_all2 (\<lambda>obj r. \<exists>kvs. obj = JObj kvs \<and> map fst kvs = columns df \<and> map snd kvs = map json_of_cell r)
       objs (rows df)"
proof -
  assume wf: "wf_frame df"
  have "json_parse (to_json_text df) = Some (frame_json df)"
    by (simp add: to_json_text_def json_parse_text)
  moreover have "list_all2 (\<lambda>obj r. \<exists>kvs. obj = JObj kvs \<and> map fst kvs = columns df \<and> map snd kvs = map json_of_cell r)
       (map (\<lambda>r. JObj (zip (columns df) (map json_of_cell r))) (rows df)) (rows df)"
    using wf by (auto simp: list_all2_conv_all_nth wf_frame_def)
  ultimately show ?thesis
    by (simp add: frame_json_def row_count_def)
qed

theorem json_document_records_witness:
  "wf_frame \<lparr>columns = [''track'', ''country''], rows = [[StrVal ''a/b'', StrVal ''AU''], [NaN, StrVal ''AU'']]\<rparr> \<and>
   json_parse (to_json_text \<lparr>columns = [''track'', ''country''], rows = [[StrVal ''a/b'', StrVal ''AU''], [NaN, StrVal ''AU'']]\<rparr>) =
     Some (JArr [JObj [(''track'', JStr ''a/b''), (''country'', JStr ''AU'')],
                 JObj [(''track'', JNull), (''country'', JStr ''AU'')]])"
proof -
  have wf: "wf_frame \<lparr>columns = [''track'', ''country''], rows = [[StrVal ''a/b'', StrVal ''AU''], [NaN, StrVal ''AU'']]\<rparr>"
    by (simp add: wf_frame_def)
  obtain objs where "json_parse (to_json_text \<lparr>columns = [''track'', ''country''], rows = [[StrVal ''a/b'', StrVal ''AU''], [NaN, StrVal ''AU'']]\<rparr>) = Some (JArr objs)"
    and "length objs = 2"
    and "list_all2 (\<lambda>obj r. \<exists>kvs. obj = JObj kvs \<and> map fst kvs = [''track'', ''country''] \<and>
           map snd kvs = map json_of_cell r) objs [[StrVal ''a/b'', StrVal ''AU''], [NaN, StrVal ''AU'']]"
    using json_document_records [OF wf] by (auto simp: row_count_def)
  then show ?thesis
    using wf by (auto simp: list_all2_Cons2 zip_map_fst_snd dest!: map_eq_Cons_conv [THEN iffD1])
qed

text \<open>
  C26. With \<open>force_ascii\<close>, the document \<open>save_as_json\<close> writes is pure ASCII
  whenever the frame's texts are well-formed UTF-8 (as Python strings always
  are): every non-ASCII character, in a column name or a cell, is escaped.
\<close>

theorem json_document_ascii:
  assumes keys: "list_all valid_utf8 (columns df)"
    and cells: "list_all (list_all (\<lambda>c. case c of StrVal s \<Rightarrow> valid_utf8 s | _ \<Rightarrow> True)) (rows df)"
  shows "is_ascii (to_json_text df)"
proof -
  have row: "list_all valid_utf8 (json_strs (JObj (zip (columns df) (map json_of_cell r))))"
    if r: "r \<in> set (rows df)" for r
  proof -
    have "list_all valid_utf8 (fst kv # json_strs (snd kv))"
      if kv: "kv \<in> set (zip (columns df) (map json_of_cell r))" for kv
    proof -
      obtain k v where kv': "kv = (k, v)" by fastforce
      with kv have k: "k \<in> set (columns df)" and "v \<in> set (map json_of_cell r)"
        by (auto dest: set_zip_leftD set_zip_rightD)
      then obtain c where c: "c \<in> set r" and v: "v = json_of_cell c" by auto
      have "list_all valid_utf8 (json_strs v)"
        using cells r c v valid_json_of_cell by (fastforce simp: list_all_iff)
      with k keys kv' show ?thesis by (simp add: list_all_iff)
    qed
    then show ?thesis by (simp add: list_all_iff)
  qed
  have "list_all valid_utf8 (json_strs (frame_json df))"
    using row by (simp add: frame_json_def list_all_iff)
  then show ?thesis by (simp add: to_json_text_def ascii_json_text)
qed

theorem json_document_ascii_witness:
  "to_json_text \<lparr>columns = [''name''], rows = [[StrVal (map char_of [195::nat, 169, 240, 159, 152, 128])]]\<rparr> =
     ''['' @ CHR 0x0A # ''    {'' @ CHR 0x0A # ''        '' @ CHR 0x22 # ''name'' @ CHR 0x22 # '':'' @ CHR 0x22 #
     CHR 0x5C # ''u00e9'' @ CHR 0x5C # ''ud83d'' @ CHR 0x5C # ''ude00'' @ CHR 0x22 # CHR 0x0A # ''    }'' @ CHR 0x0A # '']'' \<and>
   is_ascii (to_json_text \<lparr>columns = [''name''], rows = [[StrVal (map char_of [195::nat, 169, 240, 159, 152, 128])]]\<rparr>)"
proof -
  have v: "list_all valid_utf8 (columns \<lparr>columns = [''name''], rows = [[StrVal (map char_of [195::nat, 169, 240, 159, 152, 128])]]\<rparr>)"
    by (simp add: valid_utf8_def valid2_def valid3_def valid4_def)
  have c: "list_all (list_all (\<lambda>c. case c of StrVal s \<Rightarrow> valid_utf8 s | _ \<Rightarrow> True))
             (rows \<lparr>columns = [''name''], rows = [[StrVal (map char_of [195::nat, 169, 240, 159, 152, 128])]]\<rparr>)"
    by (simp add: valid_utf8_def valid2_def valid3_def valid4_def cp2_def cp4_def is_cont_def)
  have t: "to_json_text \<lparr>columns = [''name''], rows = [[StrVal (map char_of [195::nat, 169, 240, 159, 152, 128])]]\<rparr> =
     ''['' @ CHR 0x0A # ''    {'' @ CHR 0x0A # ''        '' @ CHR 0x22 # ''name'' @ CHR 0x22 # '':'' @ CHR 0x22 #
     CHR 0x5C # ''u00e9'' @ CHR 0x5C # ''ud83d'' @ CHR 0x5C # ''ude00'' @ CHR 0x22 # CHR 0x0A # ''    }'' @ CHR 0x0A # '']''"
    by (simp add: to_json_text_def frame_json_def json_string_def json_escape_def json_u_def indent_line_def
        valid2_def valid3_def valid4_def cp2_def cp4_def is_cont_def) code_simp
  show ?thesis using t json_document_ascii [OF v c] by simp
qed

end
