(* ===== verification/Html.thy ===== *)
theory Html
  imports Csv
begin

text \<open>
  The report-page writer, \<open>save_as_html\<close> of \<open>src/merge_csv.py\<close>
  (lines 19--73). \<open>to_html\<close> is pandas'
  \<open>dataframe.to_html(index=False, classes='table table-striped')\<close>: the
  lines of a table element with the class list \<open>dataframe table
  table-striped\<close>, a header row of the column names and one row per record,
  indented by two spaces per level and joined by line feeds (no line feed
  after the last); cell texts and column names have tabs and line ends
  written as \<open>\t\<close>, \<open>\r\<close>, \<open>\n\<close>, are stripped of surrounding white space
  and escaped for \<open>&\<close>, \<open><\<close> and \<open>>\<close>; a missing value is shown as
  \<open>NaN\<close>. (White space outside ASCII, which \<open>str.strip\<close> also removes, is
  kept here: texts are bytes.) \<open>html_page\<close> is the Jinja template of
  lines 21--70 rendered with the table in place of \<open>{{ table|safe }}\<close> (the
  \<open>safe\<close> filter inserts it unescaped): the template text before the
  placeholder, the table, and the text after it, byte for byte. The page is
  written with \<open>open(file_path, 'w', encoding='utf-8')\<close>.
\<close>

subsection \<open>The table\<close>

definition html_escape :: "string \<Rightarrow> string" where
  "html_escape s =
     concat (map (\<lambda>c. if c = CHR ''&'' then ''&amp;'' else if c = CHR ''<'' then ''&lt;''
                      else if c = CHR ''>'' then ''&gt;'' else [c]) s)"

text \<open>
  A text reaches \<open>_write_cell\<close> as the array formatter prints it:
  \<open>pprint_thing(x, escape_chars=("\t", "\r", "\n"))\<close> writes a tab, a
  carriage return and a line feed as the two characters \<open>\t\<close>, \<open>\r\<close>,
  \<open>\n\<close> (\<open>tab_escape\<close>), padded to the column's width; \<open>_write_cell\<close>
  then applies \<open>str.strip()\<close> (\<open>py_strip\<close>, on the ASCII characters
  Python counts as white space), which removes the padding and the text's
  own surrounding spaces, and escapes \<open>&\<close>, \<open><\<close> and \<open>>\<close>. An integer is
  formatted as \<open>f"{x: d}"\<close>, whose sign space the strip removes.
\<close>

definition tab_escape :: "string \<Rightarrow> string" where
  "tab_escape s =
     concat (map (\<lambda>c. if c = CHR 0x09 then [CHR 0x5C, CHR ''t'']
                      else if c = CHR 0x0D then [CHR 0x5C, CHR ''r'']
                      else if c = CHR 0x0A then [CHR 0x5C, CHR ''n''] else [c]) s)"

definition str_space :: "char \<Rightarrow> bool" where
  "str_space c \<longleftrightarrow> c = CHR '' '' \<or> (CHR 0x09 \<le> c \<and> c \<le> CHR 0x0D) \<or> (CHR 0x1C \<le> c \<and> c \<le> CHR 0x1F)"

definition py_strip :: "string \<Rightarrow> string" where
  "py_strip s = dropWhile str_space (rev (dropWhile str_space (rev s)))"

definition html_label :: "string \<Rightarrow> string" where
  "html_label s = py_strip (tab_escape s)"

fun html_cell_text :: "cell \<Rightarrow> string" where
  "html_cell_text NaN = ''NaN''"
| "html_cell_text (IntVal i) = int_text i"
| "html_cell_text (StrVal s) = html_label s"

definition html_row :: "cell list \<Rightarrow> string list" where
  "html_row r =
     ''    <tr>'' # map (\<lambda>v. ''      <td>'' @ html_escape (html_cell_text v) @ ''</td>'') r @ [''    </tr>'']"

definition to_html_lines :: "frame \<Rightarrow> string list" where
  \<open>to_html_lines df =
     [''<table border="1" class="dataframe table table-striped">'',
      ''  <thead>'',
      ''    <tr style="text-align: right;">'']
     @ map (\<lambda>c. ''      <th>'' @ html_escape (html_label c) @ ''</th>'') (columns df)
     @ [''    </tr>'', ''  </thead>'', ''  <tbody>'']
     @ concat (map html_row (rows df))
     @ [''  </tbody>'', ''</table>'']\<close>

definition to_html :: "frame \<Rightarrow> string" where
  "to_html df = py_join (CHR 0x0A) (to_html_lines df)"

subsection \<open>The page\<close>

text \<open>Lines 22--66 of the template, each with its indentation.\<close>

definition html_head_lines :: "string list" where
  \<open>html_head_lines =
    [''    <!DOCTYPE html>'',
     ''    <html>'',
     ''    <head>'',
     ''        <title>Data Report</title>'',
     ''        <style>'',
     ''            body {'',
     ''                font-family: Arial, sans-serif;'',
     ''                margin: 20px;'',
     ''                background-color: #f9f9f9;'',
     ''            }'',
     ''            h1 {'',
     ''                text-align: center;'',
     ''                color: #333;'',
     ''            }'',
     ''            table {'',
     ''                width: 100%;'',
     ''                border-collapse: collapse;'',
     ''                margin: 20px 0;'',
     ''                font-size: 16px;'',
     ''                text-align: left;'',
     ''                background-color: #fff;'',
     ''            }'',
     ''            th, td {'',
     ''                border: 1px solid #ddd;'',
     ''                padding: 10px;'',
     ''            }'',
     ''            th {'',
     ''                background-color: #4CAF50;'',
     ''                color: white;'',
     ''            }'',
     ''            tr:nth-child(even) {'',
     ''                background-color: #f2f2f2;'',
     ''            }'',
     ''            tr:hover {'',
     ''                background-color: #ddd;'',
     ''            }'',
     ''        </style>'',
     ''        <script>'',
     ''            document.addEventListener('DOMContentLoaded', function() {'',
     ''                console.log("Data Report Loaded");'',
     ''            });'',
     ''        </script>'',
     ''    </head>'',
     ''    <body>'',
     ''        <h1>Data Report</h1>'']\<close>

definition html_prefix :: string where
  "html_prefix = CHR 0x0A # concat (map (\<lambda>l. l @ [CHR 0x0A]) html_head_lines) @ ''        ''"

definition html_suffix :: string where
  "html_suffix = CHR 0x0A # ''    </body>'' @ CHR 0x0A # ''    </html>'' @ CHR 0x0A # ''    ''"

definition html_page :: "string \<Rightarrow> string" where
  "html_page table = html_prefix @ table @ html_suffix"

definition save_as_html :: "frame \<Rightarrow> path \<Rightarrow> unit io" where
  "save_as_html df p = write_file p (html_page (to_html df))"

subsection \<open>Markup is fixed by the shape\<close>

lemma count_list_py_join:
  "c \<noteq> d \<Longrightarrow> count_list (py_join d ls) c = (\<Sum>l\<leftarrow>ls. count_list l c)"
  by (induction d ls rule: py_join.induct) auto

lemma count_html_escape_lt [simp]: "count_list (html_escape s) CHR ''<'' = 0"
  by (induction s) (auto simp: html_escape_def)

lemma count_html_rows:
  "list_all (\<lambda>r. length r = n) rs \<Longrightarrow>
   (\<Sum>l\<leftarrow>concat (map html_row rs). count_list l CHR ''<'') = length rs * (2 + 2 * n)"
proof (induction rs)
  case (Cons r rs)
  have "(\<Sum>l\<leftarrow>html_row r. count_list l CHR ''<'') = 2 + 2 * length r"
    by (induction r) (auto simp: html_row_def)
  with Cons show ?case by simp
qed simp

lemma count_template:
  "count_list html_prefix CHR ''<'' = 13" "count_list html_suffix CHR ''<'' = 2"
  by code_simp+

text \<open>
  No column name and no cell value can add or remove markup: for a
  well-formed frame the number of \<open><\<close> characters in the written page,
  hence of tags, is fixed by the template and the frame's shape alone (13 in
  the template before the table, 2 after it, 8 for the table's frame, 2 per
  column header and 2 per row plus 2 per cell).
\<close>

lemma html_tags_fixed:
  "wf_frame df \<Longrightarrow>
   count_list (html_page (to_html df)) CHR ''<'' =
     23 + 2 * length (columns df) + row_count df * (2 + 2 * length (columns df))"
proof -
  assume wf: "wf_frame df"
  have th: "(\<Sum>l\<leftarrow>map (\<lambda>c. ''      <th>'' @ html_escape (html_label c) @ ''</th>'') cs. count_list l CHR ''<'') = 2 * length cs" for cs
    by (induction cs) auto
  have rows: "list_all (\<lambda>r. length r = length (columns df)) (rows df)"
    using wf by (auto simp: wf_frame_def list_all_iff)
  show ?thesis
    using count_html_rows [OF rows] th [of "columns df"]
    by (simp add: html_page_def to_html_def count_list_py_join to_html_lines_def count_template row_count_def)
qed

end
