(* ===== verification/Orchestrator.thy ===== *)
theory Orchestrator
  imports Accumulate Json Html
begin

text \<open>
  The pipeline, \<open>merge_by_country\<close> of \<open>src/merge_csv.py\<close> (lines 75--126),
  as a function on the world of \<open>FileSystem\<close>. Its phases, in the code's
  order: file discovery (\<open>collect_csv_files\<close>, on the listing \<open>os.walk\<close>
  yields for the input folder, which is the model's input in place of the
  folder's name); reading and classifying every file in discovery order
  (\<open>read_and_accumulate\<close>, lines 87--96, where the first file that cannot
  be read or parsed aborts the run); creating the two output folders (lines
  99--100); writing the three files of each country and printing a line, in
  the dictionary's order (\<open>save_country\<close>, lines 101--113); concatenating
  the country frames (line 116, \<open>ValueError\<close> when there are none); writing
  the three files of the merged frame and printing a line (\<open>save_final\<close>,
  lines 117--126). The output phases are also given as action lists
  (\<open>country_plan\<close>, \<open>final_plan\<close>), whose runs are the phases.
\<close>

subsection \<open>Reading and classifying\<close>

fun read_and_accumulate :: "(string, frame) dict \<Rightarrow> path list \<Rightarrow> (string, frame) dict io" where
  "read_and_accumulate country_data [] = io_return country_data"
| "read_and_accumulate country_data (file_path # ps) =
     io_bind (read_csv file_path) (\<lambda>df. read_and_accumulate (accumulate_file country_data file_path df) ps)"

text \<open>What reading the files yields, in a world that reading does not change.\<close>

fun read_frames :: "world \<Rightarrow> path list \<Rightarrow> py_error + (path \<times> frame) list" where
  "read_frames w [] = Inr []"
| "read_frames w (p # ps) =
     bindE (fst (read_csv p w)) (\<lambda>df. bindE (read_frames w ps) (\<lambda>fs. Inr ((p, df) # fs)))"

subsection \<open>Writing\<close>

definition save_country :: "path \<Rightarrow> string \<times> frame \<Rightarrow> unit io" where
  "save_country intermediate_folder cd =
     (let country = fst cd; data = snd cd;
          country_csv = path_join intermediate_folder (country @ ''_data.csv'');
          country_json = path_join intermediate_folder (country @ ''_data.json'');
          country_html = path_join intermediate_folder (country @ ''_data.html'')
      in io_seq (to_csv data country_csv)
          (io_seq (save_as_json data country_json)
          (io_seq (save_as_html data country_html)
           (print_line (''Saved country data: '' @ country_csv @ '', '' @ country_json @ '', '' @ country_html)))))"

fun save_countries :: "path \<Rightarrow> (string, frame) dict \<Rightarrow> unit io" where
  "save_countries folder [] = io_return ()"
| "save_countries folder (cd # cds) = io_seq (save_country folder cd) (save_countries folder cds)"

definition save_final :: "path \<Rightarrow> frame \<Rightarrow> unit io" where
  "save_final final_output_folder merged_data =
     (let final_csv = path_join final_output_folder ''final_merged_data.csv'';
          final_json = path_join final_output_folder ''final_merged_data.json'';
          final_html = path_join final_output_folder ''final_merged_data.html''
      in io_seq (to_csv merged_data final_csv)
          (io_seq (save_as_json merged_data final_json)
          (io_seq (save_as_html merged_data final_html)
           (print_line (''Final merged data saved to '' @ final_csv @ '', '' @ final_json @ '', '' @ final_html)))))"

subsection \<open>The pipeline\<close>

definition merge_by_country :: "(path \<times> string list) list \<Rightarrow> path \<Rightarrow> path \<Rightarrow> unit io" where
  "merge_by_country walk intermediate_folder final_output_folder =
     (let csv_files = collect_csv_files walk
      in io_bind (read_and_accumulate [] csv_files) (\<lambda>country_data.
         io_seq (makedirs intermediate_folder)
         (io_seq (makedirs final_output_folder)
         (io_seq (save_countries intermediate_folder country_data)
         (io_bind (io_lift (concat_frames (map snd country_data))) (\<lambda>merged_data.
            save_final final_output_folder merged_data))))))"

text \<open>
  The entry point (lines 129--133) with its fixed folders; the input is the
  listing \<open>os.walk('./spotify_data')\<close> yields.
\<close>

definition run_main :: "(path \<times> string list) list \<Rightarrow> unit io" where
  "run_main spotify_data_walk = merge_by_country spotify_data_walk ''./country_data'' ''./final_data''"

subsection \<open>The output phases as action lists\<close>

definition country_plan :: "path \<Rightarrow> string \<times> frame \<Rightarrow> action list" where
  "country_plan folder cd =
     (let csv = path_join folder (fst cd @ ''_data.csv'');
          json = path_join folder (fst cd @ ''_data.json'');
          html = path_join folder (fst cd @ ''_data.html'')
      in [WriteFile csv (to_csv_text (snd cd)), WriteFile json (to_json_text (snd cd)),
          WriteFile html (html_page (to_html (snd cd))),
          PrintLine (''Saved country data: '' @ csv @ '', '' @ json @ '', '' @ html)])"

definition final_plan :: "path \<Rightarrow> frame \<Rightarrow> action list" where
  "final_plan folder merged =
     (let csv = path_join folder ''final_merged_data.csv'';
          json = path_join folder ''final_merged_data.json'';
          html = path_join folder ''final_merged_data.html''
      in [WriteFile csv (to_csv_text merged), WriteFile json (to_json_text merged),
          WriteFile html (html_page (to_html merged)),
          PrintLine (''Final merged data saved to '' @ csv @ '', '' @ json @ '', '' @ html)])"

text \<open>
  The outputs a run plans once the files are read: the country files in
  dictionary order, then the merged files when there is a country.
\<close>

definition output_plan :: "path \<Rightarrow> path \<Rightarrow> (string, frame) dict \<Rightarrow> action list" where
  "output_plan intermediate_folder final_output_folder country_data =
     concat (map (country_plan intermediate_folder) country_data) @
     (case concat_frames (map snd country_data) of
        Inl e \<Rightarrow> [] | Inr merged \<Rightarrow> final_plan final_output_folder merged)"

definition written_paths :: "action list \<Rightarrow> path list" where
  "written_paths acts = concat (map (\<lambda>a. case a of WriteFile p s \<Rightarrow> [p] | PrintLine s \<Rightarrow> []) acts)"

definition printed_lines :: "action list \<Rightarrow> string list" where
  "printed_lines acts = concat (map (\<lambda>a. case a of WriteFile p s \<Rightarrow> [] | PrintLine s \<Rightarrow> [s]) acts)"

text \<open>
  The plan of a run from a world: nothing when a file cannot be read, the
  output plan of the accumulated dictionary otherwise.
\<close>

definition merge_plan :: "world \<Rightarrow> (path \<times> string list) list \<Rightarrow> path \<Rightarrow> path \<Rightarrow> action list" where
  "merge_plan w walk intermediate_folder final_output_folder =
     (case read_frames w (collect_csv_files walk) of
        Inl e \<Rightarrow> []
      | Inr fs \<Rightarrow> output_plan intermediate_folder final_output_folder (accumulate [] fs))"

text \<open>
  An input for the witnesses: the input folder holds an Australian file of
  three rows, a text file and an American file of five rows (the scenario
  of the end-to-end test the design names).
\<close>

definition example_world :: world where
  "example_world =
     \<lparr>files = [''spotify_data/regional-au-weekly-2023-06-15.csv'' \<mapsto>
                ''track,streams'' @ CHR 0x0A # ''a,10'' @ CHR 0x0A # ''b,7'' @ CHR 0x0A # ''c,5'' @ [CHR 0x0A],
              ''spotify_data/regional-us-weekly-2023-06-15.csv'' \<mapsto>
                ''track,streams'' @ CHR 0x0A # ''d,12'' @ CHR 0x0A # ''e,3'' @ CHR 0x0A # ''f,8'' @ CHR 0x0A #
                ''g,1'' @ CHR 0x0A # ''h,4'' @ [CHR 0x0A]],
      dirs = {''spotify_data''}, denied = {}, stdout = []\<rparr>"

definition example_walk :: "(path \<times> string list) list" where
  "example_walk =
     [(''spotify_data'', [''regional-au-weekly-2023-06-15.csv'', ''notes.txt'', ''regional-us-weekly-2023-06-15.csv''])]"

subsection \<open>Reading changes nothing\<close>

lemma read_csv_eq: "read_csv p w = (fst (read_csv p w), w)"
  by (metis prod.collapse read_csv_world)

lemma read_and_accumulate_eq:
  "read_and_accumulate cd ps w =
     (case read_frames w ps of Inl e \<Rightarrow> (Inl e, w) | Inr fs \<Rightarrow> (Inr (accumulate cd fs), w))"
proof (induction ps arbitrary: cd)
  case Nil
  then show ?case by (simp add: io_return_def)
next
  case (Cons p ps)
  show ?case
  proof (cases "fst (read_csv p w)")
    case (Inl e)
    then show ?thesis
      by (subst read_and_accumulate.simps, subst io_bind_def, subst read_csv_eq) simp
  next
    case (Inr df)
    then show ?thesis
      using Cons.IH [of "accumulate_file cd p df"]
      by (subst read_and_accumulate.simps, subst io_bind_def, subst read_csv_eq)
         (simp split: sum.splits)
  qed
qed

lemma read_frames_wf:
  "read_frames w ps = Inr fs \<Longrightarrow> \<forall>f\<in>set fs. wf_frame (snd f)"
proof (induction ps arbitrary: fs)
  case (Cons p ps)
  show ?case
  proof (cases "fst (read_csv p w)")
    case (Inl e)
    with Cons.prems show ?thesis by simp
  next
    case (Inr df)
    with Cons.prems obtain fs' where fs': "read_frames w ps = Inr fs'" and fs: "fs = (p, df) # fs'"
      by (cases "read_frames w ps") auto
    from read_csv_Inr [OF Inr] have "wf_frame df" by (blast dest: read_csv_text_wf)
    with Cons.IH [OF fs'] fs show ?thesis by simp
  qed
qed simp
subsection \<open>The phases as runs of their plans\<close>

lemma io_seq_return_unit: "io_seq m (io_return ()) = m"
  by (auto simp: io_seq_def io_bind_def io_return_def fun_eq_iff split: prod.splits sum.splits)

lemma save_country_plan: "save_country folder cd = run_actions (country_plan folder cd)"
  by (simp add: save_country_def country_plan_def Let_def to_csv_def save_as_json_def
      save_as_html_def io_seq_return_unit)

lemma save_final_plan: "save_final folder m = run_actions (final_plan folder m)"
  by (simp add: save_final_def final_plan_def Let_def to_csv_def save_as_json_def
      save_as_html_def io_seq_return_unit)

lemma save_countries_plan:
  "save_countries folder cds = run_actions (concat (map (country_plan folder) cds))"
  by (induction cds) (simp_all add: save_country_plan run_actions_append)

lemma io_bind_lift_Inl: "io_bind (io_lift (Inl e)) f = io_lift (Inl e)"
  by (simp add: io_bind_def io_lift_def fun_eq_iff)

lemma io_bind_lift_Inr: "io_bind (io_lift (Inr a)) f = f a"
  by (simp add: io_bind_def io_lift_def fun_eq_iff)

lemma output_phase:
  "io_seq (save_countries i cd) (io_bind (io_lift (concat_frames (map snd cd))) (save_final f)) =
   (if cd = [] then io_lift (Inl (ValueError ''No objects to concatenate''))
    else run_actions (output_plan i f cd))"
proof (cases "cd = []")
  case True
  then show ?thesis
    by (simp add: concat_frames_def io_bind_lift_Inl io_seq_def)
next
  case False
  then obtain m where m: "concat_frames (map snd cd) = Inr m"
    using concat_frames_Inr [of "map snd cd"] by auto
  with False show ?thesis
    by (simp add: output_plan_def io_bind_lift_Inr save_final_plan save_countries_plan run_actions_append)
qed

lemma merge_by_country_eq:
  "merge_by_country walk i f w =
     (case read_frames w (collect_csv_files walk) of
        Inl e \<Rightarrow> (Inl e, w)
      | Inr fs \<Rightarrow>
          io_seq (makedirs i) (io_seq (makedirs f)
            (if accumulate [] fs = [] then io_lift (Inl (ValueError ''No objects to concatenate''))
             else run_actions (output_plan i f (accumulate [] fs)))) w)"
  by (simp add: merge_by_country_def io_bind_def read_and_accumulate_eq output_phase
      split: sum.splits)

subsection \<open>Output paths\<close>

lemma written_paths_Nil [simp]: "written_paths [] = []"
  by (simp add: written_paths_def)

lemma written_paths_append [simp]: "written_paths (xs @ ys) = written_paths xs @ written_paths ys"
  by (simp add: written_paths_def)

lemma written_paths_country_plan:
  "written_paths (country_plan folder cd) =
     map (path_join folder) [fst cd @ ''_data.csv'', fst cd @ ''_data.json'', fst cd @ ''_data.html'']"
  by (simp add: written_paths_def country_plan_def Let_def)

lemma written_paths_final_plan:
  "written_paths (final_plan folder m) =
     map (path_join folder) [''final_merged_data.csv'', ''final_merged_data.json'', ''final_merged_data.html'']"
  by (simp add: written_paths_def final_plan_def Let_def)

lemma written_paths_concat:
  "written_paths (concat (map g xs)) = concat (map (\<lambda>x. written_paths (g x)) xs)"
  by (induction xs) (simp_all add: written_paths_def)

lemma output_names_distinct:
  "distinct cs \<Longrightarrow>
   distinct (concat (map (\<lambda>c. [c @ ''_data.csv'', c @ ''_data.json'', c @ ''_data.html'']) cs))"
proof (induction cs)
  case (Cons c cs)
  have l: "last (c' @ ''_data.csv'') = CHR ''v''" "last (c' @ ''_data.json'') = CHR ''n''"
          "last (c' @ ''_data.html'') = CHR ''l''" for c'
    by simp_all
  have "c @ s \<notin> set (concat (map (\<lambda>c. [c @ ''_data.csv'', c @ ''_data.json'', c @ ''_data.html'']) cs))"
    if "s \<in> {''_data.csv'', ''_data.json'', ''_data.html''}" for s
    using that Cons.prems l by (auto dest: arg_cong [of _ _ last])
  with Cons l show ?case by (auto dest: arg_cong [of _ _ last])
qed simp

lemma basename_outputs:
  "\<forall>c\<in>set cs. CHR ''/'' \<notin> set c \<Longrightarrow>
   map basename (concat (map (\<lambda>c. map (path_join folder) [c @ ''_data.csv'', c @ ''_data.json'', c @ ''_data.html'']) cs)) =
   concat (map (\<lambda>c. [c @ ''_data.csv'', c @ ''_data.json'', c @ ''_data.html'']) cs)"
  by (induction cs) (simp_all add: basename_path_join)

lemma final_names_not_country:
  "\<not> (\<exists>c\<in>set cs. CHR ''f'' \<in> set c) \<Longrightarrow>
   x \<in> {''final_merged_data.csv'', ''final_merged_data.json'', ''final_merged_data.html''} \<Longrightarrow>
   x \<notin> set (concat (map (\<lambda>c. [c @ ''_data.csv'', c @ ''_data.json'', c @ ''_data.html'']) cs))"
proof
  assume nf: "\<not> (\<exists>c\<in>set cs. CHR ''f'' \<in> set c)"
    and x: "x \<in> {''final_merged_data.csv'', ''final_merged_data.json'', ''final_merged_data.html''}"
    and "x \<in> set (concat (map (\<lambda>c. [c @ ''_data.csv'', c @ ''_data.json'', c @ ''_data.html'']) cs))"
  then obtain c s where c: "c \<in> set cs" and s: "s \<in> {''_data.csv'', ''_data.json'', ''_data.html''}"
    and xc: "x = c @ s" by auto
  have "last x = last s" using xc s by auto
  with x s have "x = ''final_merged'' @ s" by auto
  with xc have "c = ''final_merged''" by simp
  with c nf show False by auto
qed


lemma output_paths_distinct:
  "distinct (written_paths (output_plan i f (accumulate [] fs)))"
proof -
  let ?cd = "accumulate [] fs"
  let ?cs = "map fst ?cd"
  let ?names = "concat (map (\<lambda>c. [c @ ''_data.csv'', c @ ''_data.json'', c @ ''_data.html'']) ?cs)"
  let ?finals = "[''final_merged_data.csv'', ''final_merged_data.json'', ''final_merged_data.html'']"
  have cs: "?cs = first_seen (map (country_of \<circ> fst) fs)" by (rule keys_accumulate)
  then have dist: "distinct ?cs" by simp
  have slash: "\<forall>c\<in>set ?cs. CHR ''/'' \<notin> set c" using cs country_of_no_slash by auto
  have nf: "\<not> (\<exists>c\<in>set ?cs. CHR ''f'' \<in> set c)"
    using cs country_of_no_lower by (fastforce simp: less_eq_char_def)
  have wp: "written_paths (output_plan i f ?cd) =
            concat (map (\<lambda>c. map (path_join i) [c @ ''_data.csv'', c @ ''_data.json'', c @ ''_data.html'']) ?cs) @
            (if ?cd = [] then [] else map (path_join f) ?finals)"
  proof (cases "?cd = []")
    case True
    then show ?thesis by (simp add: output_plan_def written_paths_def concat_frames_def)
  next
    case False
    then obtain m where "concat_frames (map snd ?cd) = Inr m"
      using concat_frames_Inr [of "map snd ?cd"] by auto
    with False show ?thesis
      by (simp add: output_plan_def written_paths_concat written_paths_country_plan
          written_paths_final_plan comp_def)
  qed
  have "map basename (written_paths (output_plan i f ?cd)) = ?names @ (if ?cd = [] then [] else ?finals)"
  proof -
    have "map basename (if ?cd = [] then [] else map (path_join f) ?finals) =
          (if ?cd = [] then [] else ?finals)"
      by (simp add: basename_path_join)
    then show ?thesis
      by (simp only: wp map_append basename_outputs [OF slash])
  qed
  moreover have "distinct (?names @ (if ?cd = [] then [] else ?finals))"
    using output_names_distinct [OF dist] final_names_not_country [OF nf] by auto
  ultimately show ?thesis
    by (metis distinct_map)
qed

text \<open>Every path the pipeline writes ends in \<open>data.csv\<close>, \<open>data.json\<close> or \<open>data.html\<close>.\<close>

lemma py_endswith_join_data:
  "py_endswith (path_join a (c @ ''_data.csv'')) ''data.csv''"
  "py_endswith (path_join a (c @ ''_data.json'')) ''data.json''"
  "py_endswith (path_join a (c @ ''_data.html'')) ''data.html''"
  "py_endswith (path_join a ''final_merged_data.csv'') ''data.csv''"
  "py_endswith (path_join a ''final_merged_data.json'') ''data.json''"
  "py_endswith (path_join a ''final_merged_data.html'') ''data.html''"
  by (rule py_endswith_path_join, simp add: py_endswith_def)+

lemma written_paths_take: "set (written_paths (take k acts)) \<subseteq> set (written_paths acts)"
  by (auto simp: written_paths_def dest: in_set_takeD)

lemma written_merge_suffix:
  "p \<in> set (written_paths (merge_plan w walk i f)) \<Longrightarrow>
   py_endswith p ''data.csv'' \<or> py_endswith p ''data.json'' \<or> py_endswith p ''data.html''"
  by (auto simp: merge_plan_def output_plan_def written_paths_concat written_paths_country_plan
      written_paths_final_plan py_endswith_join_data split: sum.splits)

lemma files_effects_unwritten:
  "p \<notin> set (written_paths acts) \<Longrightarrow> files (effects acts w) p = files w p"
proof (induction acts arbitrary: w)
  case (Cons a acts)
  then show ?case by (cases a) (auto simp: written_paths_def)
qed simp

lemma files_effects_written:
  "distinct (written_paths acts) \<Longrightarrow> WriteFile p s \<in> set acts \<Longrightarrow> files (effects acts w) p = Some s"
proof (induction acts arbitrary: w)
  case (Cons a acts)
  show ?case
  proof (cases "a = WriteFile p s")
    case True
    with Cons.prems have "p \<notin> set (written_paths acts)" by (simp add: written_paths_def)
    with True show ?thesis by (simp add: files_effects_unwritten)
  next
    case False
    with Cons.prems have "distinct (written_paths acts)" "WriteFile p s \<in> set acts"
      by (auto simp: written_paths_def split: action.splits)
    with Cons.IH show ?thesis by simp
  qed
qed simp

lemma files_effects_written_indep:
  "p \<in> set (written_paths acts) \<Longrightarrow> files (effects acts w) p = files (effects acts w') p"
proof (induction acts arbitrary: w w')
  case (Cons a acts)
  show ?case
  proof (cases "p \<in> set (written_paths acts)")
    case True
    with Cons.IH show ?thesis by simp
  next
    case False
    with Cons.prems obtain s where a: "a = WriteFile p s" by (auto simp: written_paths_def split: action.splits)
    with False show ?thesis by (simp add: files_effects_unwritten)
  qed
qed simp

text \<open>Carrying out a plan a second time leaves the files as the first time.\<close>

lemma files_effects_idem: "files (effects acts (effects acts w)) = files (effects acts w)"
proof
  fix p
  show "files (effects acts (effects acts w)) p = files (effects acts w) p"
    by (cases "p \<in> set (written_paths acts)") (auto intro: files_effects_written_indep simp: files_effects_unwritten)
qed

lemma merge_success_run:
  assumes run: "merge_by_country walk i f w = (Inr (), w')"
    and rd: "read_frames w (collect_csv_files walk) = Inr fs"
  shows "accumulate [] fs \<noteq> [] \<and>
         (\<exists>D. i \<in> D \<and> f \<in> D \<and> run_actions (output_plan i f (accumulate [] fs)) (w\<lparr>dirs := D\<rparr>) = (Inr (), w'))"
proof -
  let ?cd = "accumulate [] fs"
  let ?P = "output_plan i f ?cd"
  obtain r1 w1 where m1: "makedirs i w = (r1, w1)" by fastforce
  then obtain D1 where w1: "w1 = w\<lparr>dirs := D1\<rparr>" using makedirs_dirs_only by blast
  obtain r2 w2 where m2: "makedirs f w1 = (r2, w2)" by fastforce
  then obtain D2 where w2: "w2 = w\<lparr>dirs := D2\<rparr>" using makedirs_dirs_only w1 by fastforce
  have ok: "r1 = Inr () \<and> r2 = Inr () \<and> ?cd \<noteq> [] \<and> run_actions ?P w2 = (Inr (), w')"
    using run rd m1 m2
    by (cases r1; cases r2) (auto simp: merge_by_country_eq io_seq_eq io_lift_def split: if_splits)
  moreover have "i \<in> dirs w2 \<and> f \<in> dirs w2"
    using ok m1 m2 makedirs_Inr [of i w w1] makedirs_Inr [of f w1 w2] by auto
  ultimately show ?thesis using w2 by auto
qed

lemma merge_success_files:
  assumes run: "merge_by_country walk i f w = (Inr (), w')"
    and rd: "read_frames w (collect_csv_files walk) = Inr fs"
  shows "accumulate [] fs \<noteq> [] \<and> files w' = files (effects (output_plan i f (accumulate [] fs)) w) \<and>
         i \<in> dirs w' \<and> f \<in> dirs w'"
proof -
  obtain D where ne: "accumulate [] fs \<noteq> []" and d: "i \<in> D" "f \<in> D"
    and r: "run_actions (output_plan i f (accumulate [] fs)) (w\<lparr>dirs := D\<rparr>) = (Inr (), w')"
    using merge_success_run [OF run rd] by blast
  then have "w' = (effects (output_plan i f (accumulate [] fs)) w)\<lparr>dirs := D\<rparr>"
    using run_actions_Inr [OF r] by (simp add: effects_dirs_update)
  with ne d show ?thesis by simp
qed

lemma read_frames_cong:
  "\<forall>p\<in>set ps. files w' p = files w p \<Longrightarrow> read_frames w' ps = read_frames w ps"
proof (induction ps)
  case (Cons p ps)
  then have "fst (read_csv p w') = fst (read_csv p w)"
    using read_csv_same_file [of w' p w] by simp
  with Cons show ?case by simp
qed simp

lemma merge_success_written:
  assumes run: "merge_by_country walk i f w = (Inr (), w')"
    and rd: "read_frames w (collect_csv_files walk) = Inr fs"
    and a: "WriteFile p s \<in> set (output_plan i f (accumulate [] fs))"
  shows "files w' p = Some s"
  using files_effects_written [OF output_paths_distinct a] merge_success_files [OF run rd] by simp

lemma merge_success_country_files:
  assumes run: "merge_by_country walk i f w = (Inr (), w')"
    and rd: "read_frames w (collect_csv_files walk) = Inr fs"
    and cd: "cd \<in> set (accumulate [] fs)"
  shows "files w' (path_join i (fst cd @ ''_data.csv'')) = Some (to_csv_text (snd cd)) \<and>
         files w' (path_join i (fst cd @ ''_data.json'')) = Some (to_json_text (snd cd)) \<and>
         files w' (path_join i (fst cd @ ''_data.html'')) = Some (html_page (to_html (snd cd)))"
proof -
  have "set (country_plan i cd) \<subseteq> set (output_plan i f (accumulate [] fs))"
    using cd by (auto simp: output_plan_def)
  then show ?thesis
    by (auto simp: country_plan_def Let_def intro!: merge_success_written [OF run rd])
qed

lemma merge_success_final_files:
  assumes run: "merge_by_country walk i f w = (Inr (), w')"
    and rd: "read_frames w (collect_csv_files walk) = Inr fs"
  shows "\<exists>m. concat_frames (map snd (accumulate [] fs)) = Inr m \<and>
           files w' (path_join f ''final_merged_data.csv'') = Some (to_csv_text m) \<and>
           files w' (path_join f ''final_merged_data.json'') = Some (to_json_text m) \<and>
           files w' (path_join f ''final_merged_data.html'') = Some (html_page (to_html m))"
proof -
  from merge_success_files [OF run rd] have "accumulate [] fs \<noteq> []" by simp
  then obtain m where m: "concat_frames (map snd (accumulate [] fs)) = Inr m"
    using concat_frames_Inr [of "map snd (accumulate [] fs)"] by auto
  then have "set (final_plan f m) \<subseteq> set (output_plan i f (accumulate [] fs))"
    by (simp add: output_plan_def)
  with m show ?thesis
    by (auto simp: final_plan_def Let_def intro!: merge_success_written [OF run rd])
qed

lemma merge_run_effects:
  assumes run: "merge_by_country walk i f w = (r, w')"
  shows "\<exists>k\<le>length (merge_plan w walk i f). \<exists>D. dirs w \<subseteq> D \<and> D \<subseteq> insert i (insert f (dirs w)) \<and>
           w' = (effects (take k (merge_plan w walk i f)) w)\<lparr>dirs := D\<rparr> \<and>
           (r = Inr () \<longrightarrow> k = length (merge_plan w walk i f))"
proof (cases "read_frames w (collect_csv_files walk)")
  case (Inl e)
  with run have "w' = w\<lparr>dirs := dirs w\<rparr> \<and> r \<noteq> Inr ()" by (auto simp: merge_by_country_eq)
  then show ?thesis by (intro exI [of _ 0]) auto
next
  case (Inr fs)
  let ?cd = "accumulate [] fs"
  let ?P = "output_plan i f ?cd"
  have plan: "merge_plan w walk i f = ?P" using Inr by (simp add: merge_plan_def)
  obtain r1 w1 where m1: "makedirs i w = (r1, w1)" by fastforce
  then obtain D1 where w1: "w1 = w\<lparr>dirs := D1\<rparr>" and d1: "dirs w \<subseteq> D1" "D1 \<subseteq> insert i (dirs w)"
    using makedirs_dirs_only by blast
  obtain r2 w2 where m2: "makedirs f w1 = (r2, w2)" by fastforce
  then obtain D2 where w2: "w2 = w\<lparr>dirs := D2\<rparr>" and d2: "D1 \<subseteq> D2" "D2 \<subseteq> insert f D1"
    using makedirs_dirs_only [of f w1 r2 w2] w1 by auto
  have D1: "dirs w \<subseteq> D1 \<and> D1 \<subseteq> insert i (insert f (dirs w))" using d1 by blast
  have D2: "dirs w \<subseteq> D2 \<and> D2 \<subseteq> insert i (insert f (dirs w))" using d1 d2 by blast
  have rest: "(if ?cd = [] then io_lift (Inl (ValueError ''No objects to concatenate'')) else run_actions ?P) w2 = (r, w')"
    if "r1 = Inr ()" "r2 = Inr ()"
    using run Inr m1 m2 that by (simp add: merge_by_country_eq io_seq_eq)
  show ?thesis
  proof (cases "r1 = Inr () \<and> r2 = Inr () \<and> ?cd \<noteq> []")
    case True
    with rest have "run_actions ?P w2 = (r, w')" by simp
    from run_actions_prefix [OF this] obtain k where
      "k \<le> length ?P" "w' = effects (take k ?P) w2" "r = Inr () \<longrightarrow> k = length ?P" by blast
    with plan w2 D2 show ?thesis by (auto simp: effects_dirs_update)
  next
    case False
    then have "r \<noteq> Inr () \<and> (w' = w1 \<or> w' = w2)"
      using run Inr m1 m2 rest
      by (cases r1; cases r2) (auto simp: merge_by_country_eq io_seq_eq io_lift_def split: if_splits)
    with w1 w2 D1 D2 show ?thesis by (intro exI [of _ 0]) auto
  qed
qed

text \<open>Every file the pipeline writes is directly inside one of its two folders.\<close>

lemma written_dirname:
  assumes a: "WriteFile p s \<in> set (output_plan i f cd)"
    and slash: "\<forall>c\<in>set (map fst cd). CHR ''/'' \<notin> set c"
    and i: "list_ex (\<lambda>c. c \<noteq> CHR ''/'') i" "last i \<noteq> CHR ''/''"
    and f: "list_ex (\<lambda>c. c \<noteq> CHR ''/'') f" "last f \<noteq> CHR ''/''"
  shows "dirname p = i \<or> dirname p = f"
  using a slash by (auto simp: output_plan_def country_plan_def final_plan_def Let_def dirname_join [OF _ i]
      dirname_join [OF _ f] split: sum.splits)

text \<open>The printed lines of a plan, and the first unreadable file of a listing.\<close>

lemma stdout_effects: "stdout (effects acts w) = stdout w @ printed_lines acts"
  by (induction acts arbitrary: w) (auto simp: printed_lines_def split: action.splits)

lemma read_frames_first_error:
  "list_all (\<lambda>p. \<exists>df. fst (read_csv p w) = Inr df) (take k ps) \<Longrightarrow> k < length ps \<Longrightarrow>
   fst (read_csv (ps ! k) w) = Inl e \<Longrightarrow> read_frames w ps = Inl e"
proof (induction ps arbitrary: k)
  case (Cons p ps)
  show ?case
  proof (cases k)
    case 0
    with Cons.prems show ?thesis by simp
  next
    case (Suc k')
    with Cons.prems obtain df where "fst (read_csv p w) = Inr df" by auto
    with Cons.IH [of k'] Cons.prems Suc show ?thesis by simp
  qed
qed simp

subsection \<open>Properties of the pipeline\<close>

text \<open>
  C2. Whatever happens during a run, success or an exception at any point,
  the files and the printed lines it leaves are those of a prefix of its
  plan: the country files in dictionary order, then the merged files; and a
  run that returns normally has carried out the whole plan.
\<close>

theorem merge_prefix:
  assumes run: "merge_by_country walk i f w = (r, w')"
  shows "\<exists>k\<le>length (merge_plan w walk i f).
           files w' = files (effects (take k (merge_plan w walk i f)) w) \<and>
           stdout w' = stdout (effects (take k (merge_plan w walk i f)) w) \<and>
           (r = Inr () \<longrightarrow> k = length (merge_plan w walk i f))"
proof -
  obtain k D where "k \<le> length (merge_plan w walk i f)"
    and "w' = (effects (take k (merge_plan w walk i f)) w)\<lparr>dirs := D\<rparr>"
    and "r = Inr () \<longrightarrow> k = length (merge_plan w walk i f)"
    using merge_run_effects [OF run] by blast
  then show ?thesis by auto
qed

theorem merge_prefix_witness:
  "\<exists>k\<le>length (merge_plan example_world example_walk ''country_data'' ''final_data'').
     files (snd (merge_by_country example_walk ''country_data'' ''final_data'' example_world)) =
       files (effects (take k (merge_plan example_world example_walk ''country_data'' ''final_data'')) example_world) \<and>
     stdout (snd (merge_by_country example_walk ''country_data'' ''final_data'' example_world)) =
       stdout (effects (take k (merge_plan example_world example_walk ''country_data'' ''final_data'')) example_world) \<and>
     (fst (merge_by_country example_walk ''country_data'' ''final_data'' example_world) = Inr () \<longrightarrow>
      k = length (merge_plan example_world example_walk ''country_data'' ''final_data''))"
  using merge_prefix [of example_walk "''country_data''" "''final_data''" example_world
      "fst (merge_by_country example_walk ''country_data'' ''final_data'' example_world)"
      "snd (merge_by_country example_walk ''country_data'' ''final_data'' example_world)"]
  by simp

text \<open>
  C7. A run that finds no CSV file creates the two output folders, writes
  nothing, prints nothing, and raises \<open>ValueError\<close> from \<open>pd.concat\<close> of
  an empty list.
\<close>

theorem merge_empty_input:
  assumes "collect_csv_files walk = []"
    and "i \<notin> dom (files w)" "i \<notin> denied w" "f \<notin> dom (files w)" "f \<notin> denied w"
  shows "merge_by_country walk i f w =
           (Inl (ValueError ''No objects to concatenate''), w\<lparr>dirs := insert f (insert i (dirs w))\<rparr>)"
  using assms by (auto simp: merge_by_country_eq io_seq_eq makedirs_def io_lift_def insert_absorb)

theorem merge_empty_input_witness:
  "merge_by_country [(''spotify_data'', [''notes.txt''])] ''country_data'' ''final_data'' example_world =
     (Inl (ValueError ''No objects to concatenate''),
      example_world\<lparr>dirs := {''final_data'', ''country_data'', ''spotify_data''}\<rparr>)"
proof -
  have "collect_csv_files [(''spotify_data'', [''notes.txt''])] = []"
    by (simp add: py_endswith_def)
  moreover have "''country_data'' \<notin> dom (files example_world)" "''country_data'' \<notin> denied example_world"
    "''final_data'' \<notin> dom (files example_world)" "''final_data'' \<notin> denied example_world"
    by (simp_all add: example_world_def)
  ultimately show ?thesis
    using merge_empty_input [of "[(''spotify_data'', [''notes.txt''])]" "''country_data''" example_world "''final_data''"]
    by (simp add: example_world_def)
qed

text \<open>
  C1. A run that returns normally leaves, for every country of the
  accumulated dictionary, its CSV, JSON and HTML files holding exactly the
  texts of that country's frame, and the three merged files holding the texts
  of the concatenation of all country frames: since all output paths are
  distinct, no later write replaces an earlier one.
\<close>

theorem merge_success_outputs:
  assumes run: "merge_by_country walk i f w = (Inr (), w')"
    and rd: "read_frames w (collect_csv_files walk) = Inr fs"
  shows "list_all (\<lambda>cd. files w' (path_join i (fst cd @ ''_data.csv'')) = Some (to_csv_text (snd cd)) \<and>
                        files w' (path_join i (fst cd @ ''_data.json'')) = Some (to_json_text (snd cd)) \<and>
                        files w' (path_join i (fst cd @ ''_data.html'')) = Some (html_page (to_html (snd cd))))
           (accumulate [] fs) \<and>
         (\<exists>m. concat_frames (map snd (accumulate [] fs)) = Inr m \<and>
              files w' (path_join f ''final_merged_data.csv'') = Some (to_csv_text m) \<and>
              files w' (path_join f ''final_merged_data.json'') = Some (to_json_text m) \<and>
              files w' (path_join f ''final_merged_data.html'') = Some (html_page (to_html m)))"
  using merge_success_country_files [OF run rd] merge_success_final_files [OF run rd]
  by (simp add: list_all_iff)

theorem merge_success_outputs_witness:
  "\<exists>m. files (snd (merge_by_country example_walk ''country_data'' ''final_data'' example_world))
          ''final_data/final_merged_data.csv'' = Some (to_csv_text m) \<and>
       m = \<lparr>columns = [''track'', ''streams'', ''country''],
            rows = [[StrVal ''a'', IntVal 10, StrVal ''AU''], [StrVal ''b'', IntVal 7, StrVal ''AU''],
                    [StrVal ''c'', IntVal 5, StrVal ''AU''], [StrVal ''d'', IntVal 12, StrVal ''US''],
                    [StrVal ''e'', IntVal 3, StrVal ''US''], [StrVal ''f'', IntVal 8, StrVal ''US''],
                    [StrVal ''g'', IntVal 1, StrVal ''US''], [StrVal ''h'', IntVal 4, StrVal ''US'']]\<rparr>"
proof -
  let ?run = "merge_by_country example_walk ''country_data'' ''final_data'' example_world"
  let ?fs = "projr (read_frames example_world (collect_csv_files example_walk))"
  have f: "fst ?run = Inr ()"
    by code_simp
  then have run: "?run = (Inr (), snd ?run)"
    by (metis prod.collapse)
  have rd: "read_frames example_world (collect_csv_files example_walk) = Inr ?fs"
    by code_simp
  have m: "concat_frames (map snd (accumulate [] ?fs)) =
        Inr \<lparr>columns = [''track'', ''streams'', ''country''],
            rows = [[StrVal ''a'', IntVal 10, StrVal ''AU''], [StrVal ''b'', IntVal 7, StrVal ''AU''],
                    [StrVal ''c'', IntVal 5, StrVal ''AU''], [StrVal ''d'', IntVal 12, StrVal ''US''],
                    [StrVal ''e'', IntVal 3, StrVal ''US''], [StrVal ''f'', IntVal 8, StrVal ''US''],
                    [StrVal ''g'', IntVal 1, StrVal ''US''], [StrVal ''h'', IntVal 4, StrVal ''US'']]\<rparr>"
    by code_simp
  have p: "path_join ''final_data'' ''final_merged_data.csv'' = ''final_data/final_merged_data.csv''"
    by (simp add: path_join_def)
  show ?thesis
    using merge_success_outputs [OF run rd] m p by auto
qed
text \<open>
  C35. Creating the output folders is idempotent: after a run that returned
  normally, both folder creations of a second run succeed and change nothing.
\<close>

theorem merge_rerun_dirs:
  assumes run: "merge_by_country walk i f w = (Inr (), w')"
    and rd: "read_frames w (collect_csv_files walk) = Inr fs"
  shows "makedirs i w' = (Inr (), w') \<and> makedirs f w' = (Inr (), w')"
  using merge_success_files [OF run rd] by (simp add: makedirs_existing)

theorem merge_rerun_dirs_witness:
  "makedirs ''country_data'' (snd (merge_by_country example_walk ''country_data'' ''final_data'' example_world)) =
     (Inr (), snd (merge_by_country example_walk ''country_data'' ''final_data'' example_world))"
proof -
  let ?run = "merge_by_country example_walk ''country_data'' ''final_data'' example_world"
  have f: "fst ?run = Inr ()"
    by code_simp
  then have run: "?run = (Inr (), snd ?run)"
    by (metis prod.collapse)
  have rd: "read_frames example_world (collect_csv_files example_walk) =
            Inr (projr (read_frames example_world (collect_csv_files example_walk)))"
    by code_simp
  show ?thesis
    using merge_rerun_dirs [OF run rd] by simp
qed

text \<open>
  C10. The state of the reading loop (lines 84--96) stays well formed: after
  reading all files, the world is unchanged, the dictionary's keys are
  distinct and every country frame is well formed (distinct column names,
  one cell per column in every row), whatever the files contain.
\<close>

theorem read_and_accumulate_inv:
  "read_and_accumulate [] ps w = (Inr cd, w') \<Longrightarrow>
   w' = w \<and> distinct (map fst cd) \<and> list_all (\<lambda>d. wf_frame (snd d)) cd"
proof -
  assume r: "read_and_accumulate [] ps w = (Inr cd, w')"
  then obtain fs where fs: "read_frames w ps = Inr fs" and cd: "cd = accumulate [] fs" and w': "w' = w"
    by (auto simp: read_and_accumulate_eq split: sum.splits)
  have "distinct (map fst cd)"
    using cd by (simp add: keys_accumulate)
  moreover have "\<forall>d\<in>set (map snd cd). wf_frame d"
    using cd wf_accumulate [of "[]" fs] read_frames_wf [OF fs] by simp
  ultimately show ?thesis
    using w' by (simp add: list_all_iff)
qed

theorem read_and_accumulate_inv_witness:
  "distinct (map fst (projr (fst (read_and_accumulate [] (collect_csv_files example_walk) example_world)))) \<and>
   list_all (\<lambda>d. wf_frame (snd d)) (projr (fst (read_and_accumulate [] (collect_csv_files example_walk) example_world)))"
proof -
  let ?r = "read_and_accumulate [] (collect_csv_files example_walk) example_world"
  have f: "fst ?r = Inr (projr (fst ?r))"
    by code_simp
  have "snd ?r = example_world"
    by (simp add: read_and_accumulate_eq split: sum.splits)
  with f have "?r = (Inr (projr (fst ?r)), example_world)"
    by (metis prod.collapse)
  from read_and_accumulate_inv [OF this] show ?thesis by simp
qed

text \<open>
  C13. The merge script completes: when every CSV file found reads and parses,
  there is at least one, its two output folders can be created, and nothing
  directly inside them is a folder or a path it may not open, the run
  returns normally.
\<close>

theorem run_main_completes:
  assumes rd: "read_frames w (collect_csv_files walk) = Inr fs" and ne: "fs \<noteq> []"
    and folders: "list_all (\<lambda>d. d \<notin> dom (files w) \<and> d \<notin> denied w) [''./country_data'', ''./final_data'']"
    and free: "\<forall>p\<in>denied w \<union> dirs w. dirname p \<noteq> ''./country_data'' \<and> dirname p \<noteq> ''./final_data''"
  shows "fst (run_main walk w) = Inr ()"
proof -
  let ?i = "''./country_data''" and ?f = "''./final_data''"
  let ?cd = "accumulate [] fs"
  let ?P = "output_plan ?i ?f ?cd"
  let ?w2 = "w\<lparr>dirs := insert ?f (insert ?i (dirs w))\<rparr>"
  have cd: "?cd \<noteq> []" using ne accumulate_Nil_iff by blast
  have m: "io_seq (makedirs ?i) (io_seq (makedirs ?f) (run_actions ?P)) w = run_actions ?P ?w2"
    using folders by (auto simp: io_seq_eq makedirs_def insert_absorb insert_commute)
  have slash: "\<forall>c\<in>set (map fst ?cd). CHR ''/'' \<notin> set c"
    using keys_accumulate [of fs] country_of_no_slash by (auto simp: first_seen_def)
  have ok: "can_perform ?w2 a" if a: "a \<in> set ?P" for a
  proof (cases a)
    case (WriteFile p s)
    with a slash have dn: "dirname p = ?i \<or> dirname p = ?f"
      by (intro written_dirname) simp_all
    then have "p \<notin> denied w \<and> p \<notin> dirs w" using free by auto
    moreover have "p \<noteq> ?i \<and> p \<noteq> ?f" using dn by (auto simp: dirname_def)
    ultimately show ?thesis using WriteFile dn by (auto simp: dir_exists_def)
  qed simp
  then have "run_actions ?P ?w2 = (Inr (), effects ?P ?w2)" by (intro run_actions_all) blast
  then show ?thesis using rd cd m by (simp add: run_main_def merge_by_country_eq)
qed

theorem run_main_completes_witness: "fst (run_main example_walk example_world) = Inr ()"
proof -
  have rd: "read_frames example_world (collect_csv_files example_walk) =
            Inr (projr (read_frames example_world (collect_csv_files example_walk)))"
    by code_simp
  have ne: "projr (read_frames example_world (collect_csv_files example_walk)) \<noteq> []"
    by code_simp
  have folders: "list_all (\<lambda>d. d \<notin> dom (files example_world) \<and> d \<notin> denied example_world) [''./country_data'', ''./final_data'']"
    by (simp add: example_world_def)
  have free: "\<forall>p\<in>denied example_world \<union> dirs example_world. dirname p \<noteq> ''./country_data'' \<and> dirname p \<noteq> ''./final_data''"
    by (simp add: example_world_def dirname_def)
  show ?thesis using run_main_completes [OF rd ne folders free] .
qed
text \<open>
  C14. Running the pipeline a second time changes no file: after a run that
  returned normally, provided no input file is one of the paths it writes,
  a second run on the same input listing also returns normally and leaves
  every file as the first run left it.
\<close>

theorem merge_rerun_same_files:
  assumes run: "merge_by_country walk i f w = (Inr (), w')"
    and sep: "list_all (\<lambda>p. p \<notin> set (written_paths (merge_plan w walk i f))) (collect_csv_files walk)"
  shows "\<exists>w''. merge_by_country walk i f w' = (Inr (), w'') \<and> files w'' = files w'"
proof -
  obtain fs where rd: "read_frames w (collect_csv_files walk) = Inr fs"
    using run by (cases "read_frames w (collect_csv_files walk)") (auto simp: merge_by_country_eq)
  let ?P = "output_plan i f (accumulate [] fs)"
  obtain D where ne: "accumulate [] fs \<noteq> []" and d: "i \<in> D" "f \<in> D"
    and r: "run_actions ?P (w\<lparr>dirs := D\<rparr>) = (Inr (), w')"
    using merge_success_run [OF run rd] by blast
  have all: "\<forall>a\<in>set ?P. can_perform (w\<lparr>dirs := D\<rparr>) a" and w': "w' = effects ?P (w\<lparr>dirs := D\<rparr>)"
    using run_actions_Inr [OF r] by auto
  have "files w' p = files w p" if "p \<in> set (collect_csv_files walk)" for p
  proof -
    have "p \<notin> set (written_paths ?P)" using sep that rd by (simp add: list_all_iff merge_plan_def)
    then show ?thesis using w' by (simp add: files_effects_unwritten)
  qed
  then have rd': "read_frames w' (collect_csv_files walk) = Inr fs"
    using rd read_frames_cong by metis
  have dirs': "i \<in> dirs w'" "f \<in> dirs w'" using w' d by simp_all
  have "\<forall>a\<in>set ?P. can_perform w' a" using all w' by simp
  then have "run_actions ?P w' = (Inr (), effects ?P w')" by (rule run_actions_all)
  then have "merge_by_country walk i f w' = (Inr (), effects ?P w')"
    using rd' ne dirs' by (simp add: merge_by_country_eq io_seq_eq makedirs_existing)
  moreover have "files (effects ?P w') = files w'" using w' by (simp add: files_effects_idem)
  ultimately show ?thesis by blast
qed

theorem merge_rerun_same_files_witness:
  "\<exists>w''. merge_by_country example_walk ''country_data'' ''final_data''
           (snd (merge_by_country example_walk ''country_data'' ''final_data'' example_world)) = (Inr (), w'') \<and>
         files w'' = files (snd (merge_by_country example_walk ''country_data'' ''final_data'' example_world))"
proof -
  let ?run = "merge_by_country example_walk ''country_data'' ''final_data'' example_world"
  have "fst ?run = Inr ()"
    by code_simp
  then have run: "?run = (Inr (), snd ?run)"
    by (metis prod.collapse)
  have "\<not> (py_endswith p ''data.csv'' \<or> py_endswith p ''data.json'' \<or> py_endswith p ''data.html'')"
    if "p \<in> set (collect_csv_files example_walk)" for p
    using that by (auto simp: example_walk_def py_endswith_def path_join_def)
  then have sep: "list_all (\<lambda>p. p \<notin> set (written_paths (merge_plan example_world example_walk ''country_data'' ''final_data'')))
                  (collect_csv_files example_walk)"
    using written_merge_suffix by (fastforce simp: list_all_iff)
  show ?thesis
    using merge_rerun_same_files [OF run sep] .
qed


text \<open>
  C21. A run stops at the first input file that cannot be read: when the
  files before it in listing order are read, it returns that file's
  exception, before creating either output folder, writing any file or
  printing any line.
\<close>

theorem merge_first_read_error:
  assumes ok: "list_all (\<lambda>p. \<exists>df. fst (read_csv p w) = Inr df) (take k (collect_csv_files walk))"
    and k: "k < length (collect_csv_files walk)"
    and err: "fst (read_csv (collect_csv_files walk ! k) w) = Inl e"
  shows "merge_by_country walk i f w = (Inl e, w)"
  using read_frames_first_error [OF ok k err] by (simp add: merge_by_country_eq)

theorem merge_first_read_error_witness:
  "merge_by_country example_walk ''country_data'' ''final_data''
     (example_world\<lparr>files := (files example_world)(''spotify_data/regional-us-weekly-2023-06-15.csv'' \<mapsto> [])\<rparr>) =
   (Inl (EmptyDataError ''No columns to parse from file''),
    example_world\<lparr>files := (files example_world)(''spotify_data/regional-us-weekly-2023-06-15.csv'' \<mapsto> [])\<rparr>)"
proof -
  let ?w = "example_world\<lparr>files := (files example_world)(''spotify_data/regional-us-weekly-2023-06-15.csv'' \<mapsto> [])\<rparr>"
  have ok: "list_all (\<lambda>p. \<exists>df. fst (read_csv p ?w) = Inr df) (take 1 (collect_csv_files example_walk))"
  proof -
    have "fst (read_csv ''spotify_data/regional-au-weekly-2023-06-15.csv'' ?w) =
          Inr (projr (fst (read_csv ''spotify_data/regional-au-weekly-2023-06-15.csv'' ?w)))"
      by code_simp
    then obtain df where "fst (read_csv ''spotify_data/regional-au-weekly-2023-06-15.csv'' ?w) = Inr df" ..
    moreover have "take 1 (collect_csv_files example_walk) = [''spotify_data/regional-au-weekly-2023-06-15.csv'']"
      by code_simp
    ultimately show ?thesis by simp
  qed
  have k: "1 < length (collect_csv_files example_walk)" by code_simp
  have err: "fst (read_csv (collect_csv_files example_walk ! 1) ?w) = Inl (EmptyDataError ''No columns to parse from file'')"
    by code_simp
  show ?thesis using merge_first_read_error [OF ok k err] .
qed

text \<open>
  C19. A run that returns normally prints, after what was printed before it,
  one line per country in dictionary order naming its three files, then
  one line naming the three merged files, and nothing else.
\<close>

theorem merge_success_stdout:
  assumes run: "merge_by_country walk i f w = (Inr (), w')"
    and rd: "read_frames w (collect_csv_files walk) = Inr fs"
  shows "\<exists>m. concat_frames (map snd (accumulate [] fs)) = Inr m \<and>
           stdout w' = stdout w @
             map (\<lambda>cd. ''Saved country data: '' @ path_join i (fst cd @ ''_data.csv'') @ '', '' @
                        path_join i (fst cd @ ''_data.json'') @ '', '' @ path_join i (fst cd @ ''_data.html''))
                 (accumulate [] fs) @
             [''Final merged data saved to '' @ path_join f ''final_merged_data.csv'' @ '', '' @
              path_join f ''final_merged_data.json'' @ '', '' @ path_join f ''final_merged_data.html'']"
proof -
  obtain D where ne: "accumulate [] fs \<noteq> []"
    and r: "run_actions (output_plan i f (accumulate [] fs)) (w\<lparr>dirs := D\<rparr>) = (Inr (), w')"
    using merge_success_run [OF run rd] by blast
  obtain m where m: "concat_frames (map snd (accumulate [] fs)) = Inr m"
    using concat_frames_Inr ne by blast
  have "w' = effects (output_plan i f (accumulate [] fs)) (w\<lparr>dirs := D\<rparr>)"
    using run_actions_Inr [OF r] by simp
  then have "stdout w' = stdout w @ printed_lines (output_plan i f (accumulate [] fs))"
    by (simp add: stdout_effects)
  moreover have "printed_lines (concat (map (country_plan i) cds)) =
     map (\<lambda>cd. ''Saved country data: '' @ path_join i (fst cd @ ''_data.csv'') @ '', '' @
                path_join i (fst cd @ ''_data.json'') @ '', '' @ path_join i (fst cd @ ''_data.html'')) cds" for cds
    by (induction cds) (simp_all add: printed_lines_def country_plan_def Let_def)
  ultimately show ?thesis
    using m by (simp add: output_plan_def final_plan_def printed_lines_def Let_def)
qed

theorem merge_success_stdout_witness:
  "stdout (snd (merge_by_country example_walk ''country_data'' ''final_data'' example_world)) =
     [''Saved country data: country_data/AU_data.csv, country_data/AU_data.json, country_data/AU_data.html'',
      ''Saved country data: country_data/US_data.csv, country_data/US_data.json, country_data/US_data.html'',
      ''Final merged data saved to final_data/final_merged_data.csv, final_data/final_merged_data.json, final_data/final_merged_data.html'']"
proof -
  let ?run = "merge_by_country example_walk ''country_data'' ''final_data'' example_world"
  let ?fs = "projr (read_frames example_world (collect_csv_files example_walk))"
  have "fst ?run = Inr ()"
    by code_simp
  then have run: "?run = (Inr (), snd ?run)"
    by (metis prod.collapse)
  have rd: "read_frames example_world (collect_csv_files example_walk) = Inr ?fs"
    by code_simp
  have keys: "map fst (accumulate [] ?fs) = [''AU'', ''US'']"
    by code_simp
  obtain m where "stdout (snd ?run) = stdout example_world @
             map (\<lambda>cd. ''Saved country data: '' @ path_join ''country_data'' (fst cd @ ''_data.csv'') @ '', '' @
                        path_join ''country_data'' (fst cd @ ''_data.json'') @ '', '' @ path_join ''country_data'' (fst cd @ ''_data.html''))
                 (accumulate [] ?fs) @
             [''Final merged data saved to '' @ path_join ''final_data'' ''final_merged_data.csv'' @ '', '' @
              path_join ''final_data'' ''final_merged_data.json'' @ '', '' @ path_join ''final_data'' ''final_merged_data.html'']"
    using merge_success_stdout [OF run rd] by blast
  moreover obtain a b where acc: "accumulate [] ?fs = [(''AU'', a), (''US'', b)]"
    using keys by (auto simp: map_eq_Cons_conv)
  ultimately show ?thesis
    by (simp add: acc example_world_def path_join_def)
qed

text \<open>
  C27. Each country's three files are reported together, after all three are
  written: when its CSV file can be written and its JSON file cannot,
  \<open>save_country\<close> raises \<open>OSError\<close> for the JSON path, leaves the CSV
  file written, and prints nothing.
\<close>

theorem save_country_unreported_write:
  assumes dcsv: "dir_exists w (dirname (path_join i (c @ ''_data.csv'')))"
    and csv: "path_join i (c @ ''_data.csv'') \<notin> denied w \<union> dirs w"
    and djson: "dir_exists w (dirname (path_join i (c @ ''_data.json'')))"
    and json: "path_join i (c @ ''_data.json'') \<in> denied w"
  shows "save_country i (c, df) w =
           (Inl (OSError (path_join i (c @ ''_data.json''))),
            w\<lparr>files := (files w)(path_join i (c @ ''_data.csv'') \<mapsto> to_csv_text df)\<rparr>)"
  using assms by (simp add: save_country_def Let_def to_csv_def save_as_json_def io_seq_def io_bind_def
      write_file_def dir_exists_def)

theorem save_country_unreported_write_witness:
  "save_country ''country_data'' (''AU'', \<lparr>columns = [''track'', ''streams''], rows = []\<rparr>)
     (example_world\<lparr>dirs := {''country_data''}, denied := {''country_data/AU_data.json''}\<rparr>) =
   (Inl (OSError ''country_data/AU_data.json''),
    example_world\<lparr>dirs := {''country_data''}, denied := {''country_data/AU_data.json''},
      files := (files example_world)(''country_data/AU_data.csv'' \<mapsto> to_csv_text \<lparr>columns = [''track'', ''streams''], rows = []\<rparr>)\<rparr>)"
proof -
  have "dir_exists (example_world\<lparr>dirs := {''country_data''}, denied := {''country_data/AU_data.json''}\<rparr>)
          (dirname (path_join ''country_data'' (''AU'' @ ''_data.csv'')))"
    "path_join ''country_data'' (''AU'' @ ''_data.csv'') \<notin>
       denied (example_world\<lparr>dirs := {''country_data''}, denied := {''country_data/AU_data.json''}\<rparr>) \<union>
       dirs (example_world\<lparr>dirs := {''country_data''}, denied := {''country_data/AU_data.json''}\<rparr>)"
    "dir_exists (example_world\<lparr>dirs := {''country_data''}, denied := {''country_data/AU_data.json''}\<rparr>)
          (dirname (path_join ''country_data'' (''AU'' @ ''_data.json'')))"
    "path_join ''country_data'' (''AU'' @ ''_data.json'') \<in>
       denied (example_world\<lparr>dirs := {''country_data''}, denied := {''country_data/AU_data.json''}\<rparr>)"
    by (simp_all add: dir_exists_def dirname_def path_join_def)
  from save_country_unreported_write [OF this, of "\<lparr>columns = [''track'', ''streams''], rows = []\<rparr>"] show ?thesis
    by (simp add: path_join_def)
qed

end
