(* ===== verification/Insight.thy ===== *)
theory Insight
  imports Complex_Main "HOL-Library.List_Lexorder" Json
begin

text \<open>
  The insight renderer, \<open>src/insight_analysis.py\<close>. At import it sets up a
  Korean font (\<open>setup_korean_font\<close>, lines 7--17), which only prints one of
  two lines depending on whether the font file exists (the matplotlib
  configuration it changes is drawing state, not modelled). Its entry point
  (lines 102--105) calls \<open>analyze_and_visualize_insights\<close> (lines 19--99),
  which creates the output folder when it does not exist, then draws up to
  three charts, each only when its input CSV files exist (otherwise it prints
  a line naming them and goes on): a bar chart of the maximum and minimum
  monthly streams per country, a Venn diagram of local and global top
  artists, and a line chart of the monthly streams of the ten names with the
  most streams; finally it prints the list of the files it generated.
  A chart is the data matplotlib draws (\<open>chart\<close>); the bytes of the PNG
  image \<open>plt.savefig\<close> writes are matplotlib's, so the functions take the
  renderer \<open>png\<close> as a parameter, the way \<open>Orchestrator\<close> takes the
  directory listing. Streams divided by \<open>1e6\<close> are exact rationals here
  (floating-point rounding is not modelled); the messages are the UTF-8
  bytes of the source's Korean text, given by their byte codes.
  Errors: \<open>pd.read_csv\<close> as in \<open>Csv\<close>, \<open>KeyError\<close> for a missing column,
  \<open>TypeError\<close> for arithmetic on text.
\<close>

subsection \<open>Messages\<close>

definition utf8 :: "nat list \<Rightarrow> string" where
  "utf8 bs = map char_of bs"

text \<open>"Korean font configured: " (line 13)\<close>

definition msg_font_set :: string where
  "msg_font_set = utf8 [237, 149, 156, 234, 184, 128, 32, 237, 143, 176, 237, 138, 184, 32, 236, 132, 164, 236, 160, 149, 32, 236, 153, 132, 235, 163, 140, 58, 32]"

text \<open>"Font not found. Check the Actions setup." (line 15)\<close>

definition msg_font_missing :: string where
  "msg_font_missing = utf8 [237, 143, 176, 237, 138, 184, 235, 165, 188, 32, 236, 176, 190, 236, 157, 132, 32, 236, 136, 152, 32, 236, 151, 134, 236, 138, 181, 235, 139, 136, 235, 139, 164, 46, 32, 65, 99, 116, 105, 111, 110, 115, 32, 236, 132, 164, 236, 160, 149, 236, 157, 132, 32, 237, 153, 149, 236, 157, 184, 237, 149, 152, 236, 132, 184, 236, 154, 148, 46]"

text \<open>"Result folder created: " (line 22)\<close>

definition msg_folder_created :: string where
  "msg_folder_created = utf8 [234, 178, 176, 234, 179, 188, 32, 237, 143, 180, 235, 141, 148, 32, 236, 131, 157, 236, 132, 177, 32, 236, 153, 132, 235, 163, 140, 58, 32]"

text \<open>"The analysis and visualisation results are saved in " (line 24, before the folder)\<close>

definition msg_results_in :: string where
  "msg_results_in = utf8 [235, 141, 176, 236, 157, 180, 237, 132, 176, 32, 235, 182, 132, 236, 132, 157, 32, 235, 176, 143, 32, 236, 139, 156, 234, 176, 129, 237, 153, 148, 32, 234, 178, 176, 234, 179, 188, 235, 138, 148, 32]"

text \<open>the end of line 24 after the folder\<close>

definition msg_results_in_end :: string where
  "msg_results_in_end = utf8 [236, 151, 144, 32, 236, 160, 128, 236, 158, 165, 235, 144, 169, 235, 139, 136, 235, 139, 164, 46]"

text \<open>"Visualisation saved: " (lines 47, 68, 93)\<close>

definition msg_chart_saved :: string where
  "msg_chart_saved = utf8 [236, 139, 156, 234, 176, 129, 237, 153, 148, 32, 234, 178, 176, 234, 179, 188, 32, 236, 160, 128, 236, 158, 165, 58, 32]"

text \<open>" or " (lines 50, 71)\<close>

definition msg_or :: string where
  "msg_or = utf8 [32, 235, 152, 144, 235, 138, 148, 32]"

text \<open>" file does not exist." (lines 50, 71, 96)\<close>

definition msg_not_exist :: string where
  "msg_not_exist = utf8 [32, 237, 140, 140, 236, 157, 188, 236, 157, 180, 32, 236, 161, 180, 236, 158, 172, 237, 149, 152, 236, 167, 128, 32, 236, 149, 138, 236, 138, 181, 235, 139, 136, 235, 139, 164, 46]"

text \<open>"Generated files:" (line 99)\<close>

definition msg_generated :: string where
  "msg_generated = utf8 [236, 131, 157, 236, 132, 177, 235, 144, 156, 32, 237, 140, 140, 236, 157, 188, 235, 147, 164, 58]"

subsection \<open>Python values the renderer prints\<close>

text \<open>
  \<open>repr\<close> of a string (Python's rules for its quote: single quotes unless
  the text holds a single quote and no double quote; backslash, the quote,
  tab, line feed and carriage return escaped, other control characters as
  \<open>\xNN\<close>; bytes above 127 are kept, as Python keeps printable non-ASCII
  characters) and of a list of strings, as \<open>print\<close> shows a list.
\<close>

definition repr_char :: "char \<Rightarrow> char \<Rightarrow> string" where
  "repr_char q c =
     (if c = CHR 0x5C then [CHR 0x5C, CHR 0x5C]
      else if c = q then [CHR 0x5C, q]
      else if c = CHR 0x09 then [CHR 0x5C, CHR ''t'']
      else if c = CHR 0x0A then [CHR 0x5C, CHR ''n'']
      else if c = CHR 0x0D then [CHR 0x5C, CHR ''r'']
      else if of_char c < (32::nat) \<or> of_char c = (127::nat)
      then [CHR 0x5C, CHR ''x'', hex_digit (of_char c div 16), hex_digit (of_char c mod 16)]
      else [c])"

definition py_repr_str :: "string \<Rightarrow> string" where
  "py_repr_str s =
     (let q = (if CHR 0x27 \<in> set s \<and> CHR 0x22 \<notin> set s then CHR 0x22 else CHR 0x27)
      in q # concat (map (repr_char q) s) @ [q])"

definition py_repr_list :: "string list \<Rightarrow> string" where
  "py_repr_list xs = CHR ''['' # py_join_str '', '' (map py_repr_str xs) @ '']''"

text \<open>
  A reader of what \<open>py_repr_list\<close> prints, as Python's literal syntax reads
  it: a string in either quote with the escapes \<open>repr\<close> writes, and a
  bracketed list of strings separated by a comma and a space. It is the
  specification side of the round trip below, not code of the program.
\<close>

fun py_read_str_body :: "char \<Rightarrow> string \<Rightarrow> (string \<times> string) option" where
  "py_read_str_body q [] = None"
| "py_read_str_body q (c # cs) =
     (if c = q then Some ([], cs)
      else if c \<noteq> CHR 0x5C then map_option (apfst (Cons c)) (py_read_str_body q cs)
      else case cs of
        [] \<Rightarrow> None
      | d # ds \<Rightarrow>
          if d = CHR 0x5C \<or> d = q then map_option (apfst (Cons d)) (py_read_str_body q ds)
          else if d = CHR ''t'' then map_option (apfst (Cons (CHR 0x09))) (py_read_str_body q ds)
          else if d = CHR ''n'' then map_option (apfst (Cons (CHR 0x0A))) (py_read_str_body q ds)
          else if d = CHR ''r'' then map_option (apfst (Cons (CHR 0x0D))) (py_read_str_body q ds)
          else if d = CHR ''x'' \<and> 2 \<le> length ds \<and> list_all (\<lambda>h. hex_value h \<noteq> None) (take 2 ds) then
            map_option (apfst (Cons (char_of (hex_number (take 2 ds))))) (py_read_str_body q (drop 2 ds))
          else None)"

definition py_read_str :: "string \<Rightarrow> (string \<times> string) option" where
  "py_read_str s =
     (case s of [] \<Rightarrow> None
      | q # cs \<Rightarrow> if q = CHR 0x27 \<or> q = CHR 0x22 then py_read_str_body q cs else None)"

partial_function (option) py_read_items :: "string \<Rightarrow> string list option" where
  "py_read_items s =
     (case py_read_str s of
        None \<Rightarrow> None
      | Some (x, rest) \<Rightarrow>
          if rest = '']'' then Some [x]
          else if take 2 rest = '', '' then Option.bind (py_read_items (drop 2 rest)) (\<lambda>xs. Some (x # xs))
          else None)"

definition py_read_list :: "string \<Rightarrow> string list option" where
  "py_read_list s =
     (if s = ''[]'' then Some []
      else case s of [] \<Rightarrow> None | c # r \<Rightarrow> if c = CHR ''['' then py_read_items r else None)"

subsection \<open>Columns and arithmetic\<close>

definition path_exists :: "world \<Rightarrow> path \<Rightarrow> bool" where
  "path_exists w p \<longleftrightarrow> p \<in> dom (files w) \<or> p \<in> dirs w"

text \<open>\<open>df[c]\<close>: the column's cells in row order, \<open>KeyError\<close> when absent.\<close>

definition column :: "frame \<Rightarrow> string \<Rightarrow> py_error + cell list" where
  "column df c =
     (if c \<in> set (columns df) then Inr (map (\<lambda>r. cell_at (columns df) r c) (rows df))
      else Inl (KeyError c))"

text \<open>\<open>series / 1e6\<close>: a missing value stays missing, text raises.\<close>

fun scale_cell :: "cell \<Rightarrow> py_error + rat option" where
  "scale_cell NaN = Inr None"
| "scale_cell (IntVal i) = Inr (Some (of_int i / 1000000))"
| "scale_cell (StrVal s) = Inl (TypeError ''unsupported operand type(s) for /'')"

fun map_err :: "('a \<Rightarrow> py_error + 'b) \<Rightarrow> 'a list \<Rightarrow> py_error + 'b list" where
  "map_err f [] = Inr []"
| "map_err f (x # xs) = bindE (f x) (\<lambda>y. bindE (map_err f xs) (\<lambda>ys. Inr (y # ys)))"

text \<open>The integer of a cell for \<open>sum\<close>, which skips missing values and raises on text.\<close>

fun stream_value :: "cell \<Rightarrow> py_error + int" where
  "stream_value NaN = Inr 0"
| "stream_value (IntVal i) = Inr i"
| "stream_value (StrVal s) = Inl (TypeError ''unsupported operand type(s) for +'')"

subsection \<open>Charts\<close>

datatype chart =
    BarChart "(cell \<times> rat option) list" "(cell \<times> rat option) list"
  | VennChart nat nat nat
  | LineChart "(cell \<times> (cell \<times> rat option) list) list"

text \<open>
  matplotlib's category axis (Matplotlib before 3.9, \<open>matplotlib.category\<close>).
  A call that draws \<open>x\<close> values chooses the unit converter from the first
  value that is not a missing float (\<open>_safe_first_finite\<close>): a text selects
  \<open>StrCategoryConverter\<close>, whose \<open>UnitData.update\<close> checks every value with
  \<open>_api.check_isinstance((str, bytes), value=val)\<close> and raises \<open>TypeError\<close>
  at the first value that is not a text; once the axis has category units
  every later call's \<open>x\<close> values are converted, and so checked, the same way.
  \<open>category_axis cat xs\<close> is one call on an axis whose units are categorical
  when \<open>cat\<close> holds; it returns whether they are afterwards.
\<close>

fun is_str_cell :: "cell \<Rightarrow> bool" where
  "is_str_cell (StrVal s) = True"
| "is_str_cell _ = False"

definition text_axis :: "cell list \<Rightarrow> bool" where
  "text_axis xs \<longleftrightarrow> (case find (\<lambda>c. c \<noteq> NaN) xs of Some (StrVal s) \<Rightarrow> True | _ \<Rightarrow> False)"

definition category_axis :: "bool \<Rightarrow> cell list \<Rightarrow> py_error + bool" where
  "category_axis cat xs =
     (if cat \<or> text_axis xs then
        (case find (\<lambda>c. \<not> is_str_cell c) xs of
           None \<Rightarrow> Inr True
         | Some c \<Rightarrow> Inl (TypeError (CHR 0x27 # ''value'' @ CHR 0x27 #
                      '' must be an instance of str or bytes, not a '' @
                      (case c of IntVal i \<Rightarrow> ''int'' | _ \<Rightarrow> ''float''))))
      else Inr False)"

fun category_lines :: "bool \<Rightarrow> cell list list \<Rightarrow> py_error + bool" where
  "category_lines cat [] = Inr cat"
| "category_lines cat (xs # xss) = bindE (category_axis cat xs) (\<lambda>cat'. category_lines cat' xss)"

text \<open>
  Lines 33--36: the bars of the maximum and of the minimum streams per
  country; each \<open>plt.bar\<close> call checks its countries on the category axis.
\<close>

definition bar_chart :: "frame \<Rightarrow> frame \<Rightarrow> py_error + chart" where
  "bar_chart max_df min_df =
     bindE (column max_df ''Country'') (\<lambda>xs1.
     bindE (column max_df ''streams'') (\<lambda>s1.
     bindE (map_err scale_cell s1) (\<lambda>h1.
     bindE (category_axis False xs1) (\<lambda>cat.
     bindE (column min_df ''Country'') (\<lambda>xs2.
     bindE (column min_df ''streams'') (\<lambda>s2.
     bindE (map_err scale_cell s2) (\<lambda>h2.
     bindE (category_axis cat xs2) (\<lambda>_.
       Inr (BarChart (zip xs1 h1) (zip xs2 h2))))))))))"

text \<open>Lines 57--60: \<open>venn2\<close> of the two sets of artist names draws the sizes of the three regions.\<close>

definition venn_chart :: "frame \<Rightarrow> frame \<Rightarrow> py_error + chart" where
  "venn_chart local_df global_df =
     bindE (column local_df ''artist_names'') (\<lambda>a.
     bindE (column global_df ''artist_names'') (\<lambda>b.
       Inr (VennChart (card (set a - set b)) (card (set b - set a)) (card (set a \<inter> set b)))))"

subsection \<open>The order of group keys\<close>

text \<open>
  \<open>groupby\<close> sorts its keys. A column pandas reads holds either integers
  only or texts and missing values, so keys of one column are all integers
  or all texts; integers compare as numbers and texts as Python strings
  (code point order, which is the order of their UTF-8 bytes).
\<close>

instantiation cell :: linorder
begin

fun less_cell :: "cell \<Rightarrow> cell \<Rightarrow> bool" where
  "less_cell NaN NaN = False"
| "less_cell NaN _ = True"
| "less_cell (IntVal i) NaN = False"
| "less_cell (IntVal i) (IntVal j) = (i < j)"
| "less_cell (IntVal i) (StrVal t) = True"
| "less_cell (StrVal s) (StrVal t) = (s < t)"
| "less_cell (StrVal s) _ = False"

definition less_eq_cell :: "cell \<Rightarrow> cell \<Rightarrow> bool" where
  "less_eq_cell a b \<longleftrightarrow> a < b \<or> a = b"

instance
proof
  fix x y z :: cell
  show "(x < y) = (x \<le> y \<and> \<not> y \<le> x)"
    by (cases x; cases y) (auto simp: less_eq_cell_def)
  show "x \<le> x" by (simp add: less_eq_cell_def)
  show "x \<le> y \<Longrightarrow> y \<le> z \<Longrightarrow> x \<le> z"
    by (cases x; cases y; cases z) (auto simp: less_eq_cell_def)
  show "x \<le> y \<Longrightarrow> y \<le> x \<Longrightarrow> x = y"
    by (cases x; cases y) (auto simp: less_eq_cell_def)
  show "x \<le> y \<or> y \<le> x"
    by (cases x; cases y) (auto simp: less_eq_cell_def)
qed

end

subsection \<open>The ten names with the most streams\<close>

text \<open>
  \<open>combined_df.groupby('Name')['streams'].sum()\<close> (line 77): one total per
  name, names in sorted order, missing names dropped, missing streams
  counted as nothing.
\<close>

definition group_sums :: "cell list \<Rightarrow> int list \<Rightarrow> (cell \<times> int) list" where
  "group_sums names vals =
     map (\<lambda>k. (k, sum_list (map snd (filter (\<lambda>p. fst p = k) (zip names vals)))))
       (sort (remdups (filter (\<lambda>c. c \<noteq> NaN) names)))"

text \<open>
  \<open>.nlargest(n).index\<close>: the keys of the \<open>n\<close> largest totals, larger first,
  ties in the order of the series (\<open>keep='first'\<close>): a stable sort on the
  negated total, then the first \<open>n\<close>.
\<close>

definition nlargest :: "nat \<Rightarrow> (cell \<times> int) list \<Rightarrow> cell list" where
  "nlargest n totals = map fst (take n (sort_key (\<lambda>p. - snd p) totals))"

text \<open>
  Lines 76--83: the rows whose name is among the top ten, grouped by name in
  sorted order; each group is a line of (month, streams in millions) points.
  The month column is read only when there is a group to draw. Each
  \<open>plt.plot\<close> call checks its months on the shared category axis
  (\<open>category_lines\<close>, in group order); every stream has passed \<open>sum\<close> by
  then, so no group's division can fail and checking once the lines are
  built raises what the loop raises.
\<close>

definition trend_chart :: "frame \<Rightarrow> py_error + chart" where
  "trend_chart combined_df =
     bindE (column combined_df ''Name'') (\<lambda>names.
     bindE (column combined_df ''streams'') (\<lambda>streams.
     bindE (map_err stream_value streams) (\<lambda>vals.
       let top_items = nlargest 10 (group_sums names vals);
           sel = filter (\<lambda>i. names ! i \<in> set top_items) [0..<length names];
           keys = sort (remdups (map (\<lambda>i. names ! i) sel))
       in if keys = [] then Inr (LineChart [])
          else bindE (column combined_df ''Month'') (\<lambda>months.
               bindE (map_err (\<lambda>k.
                        bindE (map_err (\<lambda>i. map_sum id (Pair (months ! i)) (scale_cell (streams ! i)))
                                 (filter (\<lambda>i. names ! i = k) sel))
                          (\<lambda>pts. Inr (k, pts))) keys)
               (\<lambda>lines. bindE (category_lines False (map (\<lambda>l. map fst (snd l)) lines))
                  (\<lambda>_. Inr (LineChart lines)))))))"

subsection \<open>The renderer\<close>

fun read_all :: "path list \<Rightarrow> frame list io" where
  "read_all [] = io_return []"
| "read_all (p # ps) = io_bind (read_csv p) (\<lambda>df. io_bind (read_all ps) (\<lambda>dfs. io_return (df # dfs)))"

text \<open>
  One chart block (lines 29--50, 54--71, 74--96): when every input file
  exists, read them in order, build the chart, save it with
  \<open>plt.savefig(result_path)\<close>, print a line and return the path for
  \<open>generated_files\<close>; otherwise print which files do not exist and return
  nothing.
\<close>

definition chart_step ::
  "(chart \<Rightarrow> contents) \<Rightarrow> path list \<Rightarrow> (frame list \<Rightarrow> py_error + chart) \<Rightarrow> path \<Rightarrow> path list io" where
  "chart_step png inputs build result_path w =
     (if list_all (path_exists w) inputs
      then io_bind (read_all inputs) (\<lambda>dfs.
           io_bind (io_lift (build dfs)) (\<lambda>ch.
           io_seq (write_file result_path (png ch))
           (io_seq (print_line (msg_chart_saved @ result_path))
            (io_return [result_path])))) w
      else io_seq (print_line (py_join_str msg_or inputs @ msg_not_exist)) (io_return []) w)"

definition bar_inputs :: "path \<Rightarrow> path list" where
  "bar_inputs input_folder =
     [path_join input_folder ''max_stream_month.csv'', path_join input_folder ''min_stream_month.csv'']"

definition venn_inputs :: "path \<Rightarrow> path list" where
  "venn_inputs input_folder =
     [path_join input_folder ''top_artists_by_country.csv'', path_join input_folder ''global_top_artists.csv'']"

definition trend_inputs :: "path \<Rightarrow> path list" where
  "trend_inputs input_folder = [path_join input_folder ''monthly_common_tracks_and_artists.csv'']"

definition chart_outputs :: "path \<Rightarrow> path list" where
  "chart_outputs output_folder =
     [path_join output_folder ''country_stream_trends_improved.png'',
      path_join output_folder ''artist_overlap_improved.png'',
      path_join output_folder ''global_trends_improved.png'']"

definition prepare_output :: "path \<Rightarrow> unit io" where
  "prepare_output output_folder w =
     (if path_exists w output_folder then io_return () w
      else io_seq (makedirs output_folder) (print_line (msg_folder_created @ output_folder)) w)"

definition analyze_and_visualize_insights :: "(chart \<Rightarrow> contents) \<Rightarrow> path \<Rightarrow> path \<Rightarrow> unit io" where
  "analyze_and_visualize_insights png input_folder output_folder =
     io_seq (prepare_output output_folder)
     (io_seq (print_line (msg_results_in @ output_folder @ msg_results_in_end))
     (io_bind (chart_step png (bar_inputs input_folder) (\<lambda>dfs. bar_chart (dfs ! 0) (dfs ! 1))
                (chart_outputs output_folder ! 0)) (\<lambda>g1.
      io_bind (chart_step png (venn_inputs input_folder) (\<lambda>dfs. venn_chart (dfs ! 0) (dfs ! 1))
                (chart_outputs output_folder ! 1)) (\<lambda>g2.
      io_bind (chart_step png (trend_inputs input_folder) (\<lambda>dfs. trend_chart (dfs ! 0))
                (chart_outputs output_folder ! 2)) (\<lambda>g3.
      print_line (msg_generated @ '' '' @ py_repr_list (g1 @ g2 @ g3)))))))"

definition font_path :: path where
  "font_path = ''/usr/share/fonts/opentype/noto/NotoSansCJK-Regular.ttc''"

definition setup_korean_font :: "unit io" where
  "setup_korean_font w =
     (if path_exists w font_path then print_line (msg_font_set @ font_path) w
      else print_line msg_font_missing w)"

text \<open>
  The renderer's input files, and the charts a run is expected to generate
  from a world: those whose input files all exist.
\<close>

definition insight_inputs :: "path \<Rightarrow> path list" where
  "insight_inputs input_folder = bar_inputs input_folder @ venn_inputs input_folder @ trend_inputs input_folder"

definition insight_generated :: "world \<Rightarrow> path \<Rightarrow> path \<Rightarrow> path list" where
  "insight_generated w input_folder output_folder =
     (if list_all (path_exists w) (bar_inputs input_folder) then [chart_outputs output_folder ! 0] else []) @
     (if list_all (path_exists w) (venn_inputs input_folder) then [chart_outputs output_folder ! 1] else []) @
     (if list_all (path_exists w) (trend_inputs input_folder) then [chart_outputs output_folder ! 2] else [])"

text \<open>Running the script: the font set-up at import (line 17), then the entry point (lines 102--105).\<close>

definition insight_main :: "(chart \<Rightarrow> contents) \<Rightarrow> unit io" where
  "insight_main png = io_seq setup_korean_font (analyze_and_visualize_insights png ''./final_data'' ''./insights'')"

text \<open>
  A sample world for the examples: the merge's final folder holding only the
  input of the trend chart, three rows of two names, and the output folder
  already present.
\<close>

definition insight_world :: world where
  "insight_world =
     \<lparr>files = [''./final_data/monthly_common_tracks_and_artists.csv'' \<mapsto>
                ''Month,Name,streams'' @ CHR 0x0A # ''2023-01,a,5'' @ CHR 0x0A #
                ''2023-02,a,3'' @ CHR 0x0A # ''2023-01,b,7'' @ [CHR 0x0A]],
      dirs = {''./final_data'', ''./insights''}, denied = {}, stdout = []\<rparr>"

subsection \<open>Lemmas\<close>

lemma keeps_read_all [keeps_rules]: "keeps_files P (read_all ps)"
  by (induction ps) (simp_all add: keeps_rules)

lemma chart_step_fun:
  "chart_step png inputs build r =
     (\<lambda>w. if list_all (path_exists w) inputs
          then io_bind (read_all inputs) (\<lambda>dfs. io_bind (io_lift (build dfs)) (\<lambda>ch.
                 io_seq (write_file r (png ch)) (io_seq (print_line (msg_chart_saved @ r)) (io_return [r])))) w
          else io_seq (print_line (py_join_str msg_or inputs @ msg_not_exist)) (io_return []) w)"
  by (simp add: fun_eq_iff chart_step_def)

lemma keeps_chart_step [keeps_rules]: "P r \<Longrightarrow> keeps_files P (chart_step png inputs build r)"
  unfolding chart_step_fun by (intro keeps_rules)

lemma prepare_output_fun:
  "prepare_output d =
     (\<lambda>w. if path_exists w d then io_return () w
          else io_seq (makedirs d) (print_line (msg_folder_created @ d)) w)"
  by (simp add: fun_eq_iff prepare_output_def)

lemma keeps_prepare_output [keeps_rules]: "keeps_files P (prepare_output d)"
  unfolding prepare_output_fun by (intro keeps_rules)

lemma keeps_analyze [keeps_rules]:
  "keeps_files (\<lambda>p. p \<in> set (chart_outputs output_folder))
     (analyze_and_visualize_insights png input_folder output_folder)"
  unfolding analyze_and_visualize_insights_def
  by (intro keeps_rules) (simp_all add: chart_outputs_def)

lemma read_all_world [simp]: "snd (read_all ps w) = w"
proof (induction ps)
  case Nil
  then show ?case by (simp add: io_return_def)
next
  case (Cons p ps)
  obtain r where r: "read_csv p w = (r, w)" using read_csv_world [of p w] by (metis prod.collapse)
  obtain q where q: "read_all ps w = (q, w)" using Cons by (metis prod.collapse)
  show ?case
    by (cases r; cases q) (simp_all add: r q io_bind_def io_return_def)
qed

lemma chart_step_result:
  assumes "chart_step png inputs build r w = (Inr g, w')"
  shows "(if list_all (path_exists w) inputs then g = [r] \<and> files w' r \<noteq> None else g = []) \<and>
         dirs w' = dirs w \<and> (\<forall>p. p \<noteq> r \<longrightarrow> files w' p = files w p)"
proof -
  have ra: "read_all inputs w = (fst (read_all inputs w), w)"
    by (metis prod.collapse read_all_world)
  show ?thesis
  proof (cases "list_all (path_exists w) inputs")
    case True
    with assms ra show ?thesis
      by (auto simp: chart_step_def io_bind_def io_seq_def io_lift_def io_return_def write_file_def
          print_line_def split: prod.splits sum.splits if_splits)
  next
    case False
    with assms show ?thesis
      by (auto simp: chart_step_def io_seq_def io_bind_def io_return_def print_line_def)
  qed
qed

lemma prepare_output_result:
  "prepare_output d w = (Inr (), w') \<Longrightarrow> files w' = files w \<and> dirs w \<subseteq> dirs w' \<and> dirs w' \<subseteq> insert d (dirs w)"
  by (auto simp: prepare_output_def io_return_def io_seq_def io_bind_def makedirs_def print_line_def
      split: if_splits prod.splits sum.splits)

lemma distinct_chart_outputs: "distinct (chart_outputs out)"
proof -
  have "map basename (chart_outputs out) =
        [''country_stream_trends_improved.png'', ''artist_overlap_improved.png'', ''global_trends_improved.png'']"
    by (simp add: chart_outputs_def basename_path_join)
  moreover have "distinct [''country_stream_trends_improved.png'', ''artist_overlap_improved.png'', ''global_trends_improved.png'']"
    by simp
  ultimately show ?thesis by (metis distinct_map)
qed

lemma map_err_keys:
  "map_err (\<lambda>k. bindE (g k) (\<lambda>pts. Inr (k, pts))) ks = Inr ys \<Longrightarrow> map fst ys = ks"
proof (induction ks arbitrary: ys)
  case (Cons k ks)
  then show ?case
    by (auto simp: bindE_Inr_iff)
qed simp

lemma length_nlargest: "length (nlargest n totals) \<le> n"
  by (simp add: nlargest_def)

lemma chart_step_skip:
  "\<not> list_all (path_exists w) inputs \<Longrightarrow>
   chart_step png inputs build r w =
     (Inr [], w\<lparr>stdout := stdout w @ [py_join_str msg_or inputs @ msg_not_exist]\<rparr>)"
  by (simp add: chart_step_def io_seq_def io_bind_def io_return_def print_line_def)

lemma path_exists_stdout [simp]: "path_exists (w\<lparr>stdout := s\<rparr>) = path_exists w"
  by (simp add: path_exists_def fun_eq_iff)

lemma analyze_Inr_steps:
  assumes run: "analyze_and_visualize_insights png input_folder output_folder w = (Inr (), w')"
  shows "\<exists>w1 g1 w3 g2 w4 g3 w5.
           prepare_output output_folder w = (Inr (), w1) \<and>
           chart_step png (bar_inputs input_folder) (\<lambda>dfs. bar_chart (dfs ! 0) (dfs ! 1)) (chart_outputs output_folder ! 0)
             (w1\<lparr>stdout := stdout w1 @ [msg_results_in @ output_folder @ msg_results_in_end]\<rparr>) = (Inr g1, w3) \<and>
           chart_step png (venn_inputs input_folder) (\<lambda>dfs. venn_chart (dfs ! 0) (dfs ! 1)) (chart_outputs output_folder ! 1) w3 = (Inr g2, w4) \<and>
           chart_step png (trend_inputs input_folder) (\<lambda>dfs. trend_chart (dfs ! 0)) (chart_outputs output_folder ! 2) w4 = (Inr g3, w5) \<and>
           w' = w5\<lparr>stdout := stdout w5 @ [msg_generated @ '' '' @ py_repr_list (g1 @ g2 @ g3)]\<rparr>"
proof -
  let ?o = "chart_outputs output_folder"
  from run obtain w1 where p: "prepare_output output_folder w = (Inr (), w1)"
    and rest1: "io_seq (print_line (msg_results_in @ output_folder @ msg_results_in_end))
     (io_bind (chart_step png (bar_inputs input_folder) (\<lambda>dfs. bar_chart (dfs ! 0) (dfs ! 1)) (?o ! 0)) (\<lambda>g1.
      io_bind (chart_step png (venn_inputs input_folder) (\<lambda>dfs. venn_chart (dfs ! 0) (dfs ! 1)) (?o ! 1)) (\<lambda>g2.
      io_bind (chart_step png (trend_inputs input_folder) (\<lambda>dfs. trend_chart (dfs ! 0)) (?o ! 2)) (\<lambda>g3.
      print_line (msg_generated @ '' '' @ py_repr_list (g1 @ g2 @ g3)))))) w1 = (Inr (), w')"
    unfolding analyze_and_visualize_insights_def by (blast dest: io_seq_Inr)
  let ?w2 = "w1\<lparr>stdout := stdout w1 @ [msg_results_in @ output_folder @ msg_results_in_end]\<rparr>"
  from rest1 obtain w2 where pw: "print_line (msg_results_in @ output_folder @ msg_results_in_end) w1 = (Inr (), w2)"
    and rest1': "io_bind (chart_step png (bar_inputs input_folder) (\<lambda>dfs. bar_chart (dfs ! 0) (dfs ! 1)) (?o ! 0)) (\<lambda>g1.
      io_bind (chart_step png (venn_inputs input_folder) (\<lambda>dfs. venn_chart (dfs ! 0) (dfs ! 1)) (?o ! 1)) (\<lambda>g2.
      io_bind (chart_step png (trend_inputs input_folder) (\<lambda>dfs. trend_chart (dfs ! 0)) (?o ! 2)) (\<lambda>g3.
      print_line (msg_generated @ '' '' @ py_repr_list (g1 @ g2 @ g3))))) w2 = (Inr (), w')"
    by (blast dest: io_seq_Inr)
  from pw have w2: "w2 = ?w2" by (simp add: print_line_def)
  from rest1' [unfolded w2] obtain g1 w3 where s1: "chart_step png (bar_inputs input_folder) (\<lambda>dfs. bar_chart (dfs ! 0) (dfs ! 1)) (?o ! 0) ?w2 = (Inr g1, w3)"
    and rest2: "io_bind (chart_step png (venn_inputs input_folder) (\<lambda>dfs. venn_chart (dfs ! 0) (dfs ! 1)) (?o ! 1)) (\<lambda>g2.
      io_bind (chart_step png (trend_inputs input_folder) (\<lambda>dfs. trend_chart (dfs ! 0)) (?o ! 2)) (\<lambda>g3.
      print_line (msg_generated @ '' '' @ py_repr_list (g1 @ g2 @ g3)))) w3 = (Inr (), w')"
    by (blast dest: io_bind_Inr)
  from rest2 obtain g2 w4 where s2: "chart_step png (venn_inputs input_folder) (\<lambda>dfs. venn_chart (dfs ! 0) (dfs ! 1)) (?o ! 1) w3 = (Inr g2, w4)"
    and rest3: "io_bind (chart_step png (trend_inputs input_folder) (\<lambda>dfs. trend_chart (dfs ! 0)) (?o ! 2)) (\<lambda>g3.
      print_line (msg_generated @ '' '' @ py_repr_list (g1 @ g2 @ g3))) w4 = (Inr (), w')"
    by (blast dest: io_bind_Inr)
  from rest3 obtain g3 w5 where s3: "chart_step png (trend_inputs input_folder) (\<lambda>dfs. trend_chart (dfs ! 0)) (?o ! 2) w4 = (Inr g3, w5)"
    and fin: "print_line (msg_generated @ '' '' @ py_repr_list (g1 @ g2 @ g3)) w5 = (Inr (), w')"
    by (blast dest: io_bind_Inr)
  have "w' = w5\<lparr>stdout := stdout w5 @ [msg_generated @ '' '' @ py_repr_list (g1 @ g2 @ g3)]\<rparr>"
    using fin by (simp add: print_line_def)
  with p s1 s2 s3 show ?thesis by blast
qed

text \<open>
  When none of the renderer's input files exists and the output folder
  does, the renderer raises nothing, writes nothing and prints the folder
  line, one line per missing chart input and an empty list of generated
  files: missing inputs are skipped with a diagnostic.
\<close>

lemma analyze_no_inputs:
  assumes none: "list_all (\<lambda>p. \<not> path_exists w p) (insight_inputs input_folder)"
    and out: "path_exists w output_folder"
  shows "analyze_and_visualize_insights png input_folder output_folder w =
           (Inr (), w\<lparr>stdout := stdout w @
              [msg_results_in @ output_folder @ msg_results_in_end,
               py_join_str msg_or (bar_inputs input_folder) @ msg_not_exist,
               py_join_str msg_or (venn_inputs input_folder) @ msg_not_exist,
               py_join_str msg_or (trend_inputs input_folder) @ msg_not_exist,
               msg_generated @ '' []'']\<rparr>)"
proof -
  have n: "\<not> list_all (path_exists w) (bar_inputs input_folder)"
          "\<not> list_all (path_exists w) (venn_inputs input_folder)"
          "\<not> list_all (path_exists w) (trend_inputs input_folder)"
    using none by (auto simp: insight_inputs_def bar_inputs_def venn_inputs_def trend_inputs_def)
  show ?thesis
    using out n
    by (simp add: analyze_and_visualize_insights_def prepare_output_def chart_step_skip io_seq_def
        io_bind_def io_return_def print_line_def py_repr_list_def)
qed

lemma setup_korean_font_line: "\<exists>l. setup_korean_font w = (Inr (), w\<lparr>stdout := stdout w @ [l]\<rparr>)"
  by (auto simp: setup_korean_font_def print_line_def)

lemma sum_filter_keys:
  "finite K \<Longrightarrow> (\<Sum>k\<in>K. sum_list (map snd (filter (\<lambda>p. fst p = k) zs))) =
     sum_list (map snd (filter (\<lambda>p. fst p \<in> K) zs))"
proof (induction zs)
  case (Cons z zs)
  have "(\<Sum>k\<in>K. sum_list (map snd (filter (\<lambda>p. fst p = k) (z # zs)))) =
        (\<Sum>k\<in>K. (if fst z = k then snd z else 0)) + (\<Sum>k\<in>K. sum_list (map snd (filter (\<lambda>p. fst p = k) zs)))"
  proof -
    have "(\<Sum>k\<in>K. sum_list (map snd (filter (\<lambda>p. fst p = k) (z # zs)))) =
          (\<Sum>k\<in>K. (if fst z = k then snd z else 0) + sum_list (map snd (filter (\<lambda>p. fst p = k) zs)))"
      by (rule sum.cong) auto
    then show ?thesis by (simp only: sum.distrib)
  qed
  also have "\<dots> = (if fst z \<in> K then snd z else 0) + sum_list (map snd (filter (\<lambda>p. fst p \<in> K) zs))"
    using Cons by (simp add: sum.delta)
  finally show ?case by simp
qed simp

lemma hex2_char:
  assumes "of_char c < (128::nat)"
  shows "hex_number [hex_digit (of_char c div 16), hex_digit (of_char c mod 16)] = of_char c"
    "list_all (\<lambda>h. hex_value h \<noteq> None) [hex_digit (of_char c div 16), hex_digit (of_char c mod 16)]"
proof -
  have "(of_char c :: nat) div 16 < 16" using assms by simp
  then show "hex_number [hex_digit (of_char c div 16), hex_digit (of_char c mod 16)] = of_char c"
    "list_all (\<lambda>h. hex_value h \<noteq> None) [hex_digit (of_char c div 16), hex_digit (of_char c mod 16)]"
    by (simp_all add: hex_number_def hex_value_digit)
qed

lemma read_repr_char:
  assumes q: "q = CHR 0x27 \<or> q = CHR 0x22"
  shows "py_read_str_body q (repr_char q c @ rest) = map_option (apfst (Cons c)) (py_read_str_body q rest)"
proof -
  have q1: "q \<noteq> CHR 0x5C" "q \<noteq> CHR ''t''" "q \<noteq> CHR ''n''" "q \<noteq> CHR ''r''" "q \<noteq> CHR ''x''"
    using q by auto
  consider "c = CHR 0x5C" | "c \<noteq> CHR 0x5C" "c = q"
    | "c \<noteq> CHR 0x5C" "c \<noteq> q" "c = CHR 0x09 \<or> c = CHR 0x0A \<or> c = CHR 0x0D"
    | "c \<noteq> CHR 0x5C" "c \<noteq> q" "\<not> (c = CHR 0x09 \<or> c = CHR 0x0A \<or> c = CHR 0x0D)"
        "of_char c < (32::nat) \<or> of_char c = (127::nat)"
    | "c \<noteq> CHR 0x5C" "c \<noteq> q" "\<not> (c = CHR 0x09 \<or> c = CHR 0x0A \<or> c = CHR 0x0D)"
        "\<not> (of_char c < (32::nat) \<or> of_char c = (127::nat))"
    by blast
  then show ?thesis
  proof cases
    case 1
    then show ?thesis using q1 by (simp add: repr_char_def)
  next
    case 2
    then show ?thesis using q1 by (simp add: repr_char_def)
  next
    case 3
    then show ?thesis using q1 by (elim disjE) (simp_all add: repr_char_def)
  next
    case 4
    then have "of_char c < (128::nat)" by auto
    note h = hex2_char [OF this]
    have x: "CHR ''x'' \<noteq> CHR 0x5C" "CHR ''x'' \<noteq> q" "CHR ''x'' \<noteq> CHR ''t''" "CHR ''x'' \<noteq> CHR ''n''"
      "CHR ''x'' \<noteq> CHR ''r''"
      using q by auto
    have "repr_char q c = [CHR 0x5C, CHR ''x'', hex_digit (of_char c div 16), hex_digit (of_char c mod 16)]"
      using 4 by (simp add: repr_char_def)
    then show ?thesis using q1 x h by simp
  next
    case 5
    then have "repr_char q c = [c]" by (simp add: repr_char_def)
    then show ?thesis using 5 by simp
  qed
qed

lemma read_repr_body:
  "q = CHR 0x27 \<or> q = CHR 0x22 \<Longrightarrow>
   py_read_str_body q (concat (map (repr_char q) s) @ q # rest) = Some (s, rest)"
  by (induction s) (simp_all add: read_repr_char)

lemma read_py_repr_str:
  "py_read_str (py_repr_str s @ rest) = Some (s, rest)"
  by (simp add: py_repr_str_def py_read_str_def Let_def read_repr_body)

lemma read_py_repr_items:
  "xs \<noteq> [] \<Longrightarrow> py_read_items (py_join_str '', '' (map py_repr_str xs) @ '']'') = Some xs"
proof (induction xs)
  case (Cons x xs)
  show ?case
  proof (cases xs)
    case Nil
    then show ?thesis by (subst py_read_items.simps) (simp add: read_py_repr_str)
  next
    case (Cons y ys)
    with Cons.IH show ?thesis by (subst py_read_items.simps) (simp add: read_py_repr_str)
  qed
qed simp

lemma py_join_repr_nonempty: "py_join_str sep (map py_repr_str (x # xs)) \<noteq> []"
  by (cases xs) (simp_all add: py_repr_str_def Let_def)

lemma map_err_scale_cell:
  "map_err scale_cell cs = Inr hs \<longleftrightarrow>
   (\<forall>c\<in>set cs. \<forall>s. c \<noteq> StrVal s) \<and>
   hs = map (\<lambda>c. case c of IntVal i \<Rightarrow> Some (of_int i / 1000000) | _ \<Rightarrow> None) cs"
proof (induction cs arbitrary: hs)
  case (Cons c cs)
  then show ?case by (cases c) (auto simp: bindE_Inr_iff)
qed auto

lemma column_Inr:
  "column df c = Inr xs \<longleftrightarrow> c \<in> set (columns df) \<and> xs = map (\<lambda>r. cell_at (columns df) r c) (rows df)"
  by (auto simp: column_def)

lemma category_axis_Inr:
  "category_axis cat xs = Inr b \<longleftrightarrow>
   b = (cat \<or> text_axis xs) \<and> (cat \<or> text_axis xs \<longrightarrow> list_all is_str_cell xs)"
proof (cases "find (\<lambda>c. \<not> is_str_cell c) xs")
  case None
  then have "list_all is_str_cell xs" by (auto simp: find_None_iff list_all_iff)
  with None show ?thesis by (auto simp: category_axis_def)
next
  case (Some c)
  then have "c \<in> set xs" "\<not> is_str_cell c" by (auto simp: find_Some_iff)
  with Some show ?thesis by (auto simp: category_axis_def list_all_iff)
qed

subsection \<open>Properties of the renderer\<close>

text \<open>
  C16. Running the script (the font set-up, then the renderer on
  \<open>./final_data\<close> and \<open>./insights\<close>) changes no file but its three chart
  images, whatever the files contain and whether or not it fails: the merge
  pipeline's outputs and the renderer's inputs are left as they are.
\<close>

theorem insight_main_writes_only_charts:
  "p \<notin> set (chart_outputs ''./insights'') \<Longrightarrow> files (snd (insight_main png w)) p = files w p"
proof -
  have "keeps_files (\<lambda>p. p \<in> set (chart_outputs ''./insights'')) (insight_main png)"
    unfolding insight_main_def setup_korean_font_def by (intro keeps_rules keeps_analyze)
  then show "p \<notin> set (chart_outputs ''./insights'') \<Longrightarrow> files (snd (insight_main png w)) p = files w p"
    by (rule keeps_files_apply)
qed

theorem insight_main_writes_only_charts_witness:
  "files (snd (insight_main (\<lambda>_. ''PNG'') insight_world)) ''./final_data/monthly_common_tracks_and_artists.csv'' =
   files insight_world ''./final_data/monthly_common_tracks_and_artists.csv''"
  using insight_main_writes_only_charts [of "''./final_data/monthly_common_tracks_and_artists.csv''" "\<lambda>_. ''PNG''" insight_world]
  by (simp add: chart_outputs_def path_join_def)

text \<open>
  C12. After a run of the renderer that returns normally, its last printed
  line lists exactly the charts whose input files all existed, in the
  order of the code, and each of them has been written (provided no input
  file is the output folder or a chart image).
\<close>

theorem insight_generated_files:
  assumes run: "analyze_and_visualize_insights png input_folder output_folder w = (Inr (), w')"
    and sep: "list_all (\<lambda>p. p \<notin> set (output_folder # chart_outputs output_folder)) (insight_inputs input_folder)"
  shows "last (stdout w') = msg_generated @ '' '' @ py_repr_list (insight_generated w input_folder output_folder) \<and>
         list_all (\<lambda>p. files w' p \<noteq> None) (insight_generated w input_folder output_folder)"
proof -
  let ?o = "chart_outputs output_folder"
  let ?w2 = "\<lambda>w1. w1\<lparr>stdout := stdout w1 @ [msg_results_in @ output_folder @ msg_results_in_end]\<rparr>"
  obtain w1 g1 w3 g2 w4 g3 w5 where p: "prepare_output output_folder w = (Inr (), w1)"
    and s1: "chart_step png (bar_inputs input_folder) (\<lambda>dfs. bar_chart (dfs ! 0) (dfs ! 1)) (?o ! 0) (?w2 w1) = (Inr g1, w3)"
    and s2: "chart_step png (venn_inputs input_folder) (\<lambda>dfs. venn_chart (dfs ! 0) (dfs ! 1)) (?o ! 1) w3 = (Inr g2, w4)"
    and s3: "chart_step png (trend_inputs input_folder) (\<lambda>dfs. trend_chart (dfs ! 0)) (?o ! 2) w4 = (Inr g3, w5)"
    and w': "w' = w5\<lparr>stdout := stdout w5 @ [msg_generated @ '' '' @ py_repr_list (g1 @ g2 @ g3)]\<rparr>"
    using analyze_Inr_steps [OF run] by blast
  note r1 = chart_step_result [OF s1] and r2 = chart_step_result [OF s2] and r3 = chart_step_result [OF s3]
  note pr = prepare_output_result [OF p]
  have d: "distinct ?o" by (rule distinct_chart_outputs)
  have o3: "length ?o = 3" by (simp add: chart_outputs_def)
  have ne: "?o ! 0 \<noteq> ?o ! 1" "?o ! 0 \<noteq> ?o ! 2" "?o ! 1 \<noteq> ?o ! 2"
    using d o3 by (simp_all add: nth_eq_iff_index_eq)
  have outs: "p \<notin> set ?o" if "p \<in> set (insight_inputs input_folder)" for p
    using sep that by (auto simp: list_all_iff)
  have notout: "p \<noteq> output_folder" if "p \<in> set (insight_inputs input_folder)" for p
    using sep that by (auto simp: list_all_iff)
  have inset: "?o ! 0 \<in> set ?o" "?o ! 1 \<in> set ?o" "?o ! 2 \<in> set ?o" using o3 by simp_all
  have ex: "path_exists w4 p = path_exists w p" "path_exists w3 p = path_exists w p" "path_exists (?w2 w1) p = path_exists w p"
    if "p \<in> set (insight_inputs input_folder)" for p
  proof -
    have a: "p \<noteq> ?o ! 0" "p \<noteq> ?o ! 1" using outs [OF that] inset by auto
    have "path_exists (?w2 w1) p = path_exists w p"
      using pr notout [OF that] by (auto simp: path_exists_def)
    moreover have "path_exists w3 p = path_exists (?w2 w1) p"
      using r1 a by (simp add: path_exists_def dom_def)
    moreover have "path_exists w4 p = path_exists w3 p"
      using r2 a by (simp add: path_exists_def dom_def)
    ultimately show "path_exists w4 p = path_exists w p" "path_exists w3 p = path_exists w p"
      "path_exists (?w2 w1) p = path_exists w p" by simp_all
  qed
  have e1: "list_all (path_exists (?w2 w1)) (bar_inputs input_folder) = list_all (path_exists w) (bar_inputs input_folder)"
    using ex(3) by (auto simp: list_all_iff insight_inputs_def)
  have e2: "list_all (path_exists w3) (venn_inputs input_folder) = list_all (path_exists w) (venn_inputs input_folder)"
    using ex(2) by (auto simp: list_all_iff insight_inputs_def)
  have e3: "list_all (path_exists w4) (trend_inputs input_folder) = list_all (path_exists w) (trend_inputs input_folder)"
    using ex(1) by (auto simp: list_all_iff insight_inputs_def)
  have gen: "g1 @ g2 @ g3 = insight_generated w input_folder output_folder"
    using r1 r2 r3 e1 e2 e3 by (simp add: insight_generated_def split: if_splits)
  have f1: "list_all (path_exists w) (bar_inputs input_folder) \<Longrightarrow> files w' (?o ! 0) \<noteq> None"
    using r1 r2 r3 e1 ne w' by auto
  have f2: "list_all (path_exists w) (venn_inputs input_folder) \<Longrightarrow> files w' (?o ! 1) \<noteq> None"
    using r2 r3 e2 ne w' by auto
  have f3: "list_all (path_exists w) (trend_inputs input_folder) \<Longrightarrow> files w' (?o ! 2) \<noteq> None"
    using r3 e3 w' by auto
  show ?thesis
    using gen w' f1 f2 f3 by (simp add: insight_generated_def)
qed

theorem insight_generated_files_witness:
  "last (stdout (snd (analyze_and_visualize_insights (\<lambda>_. ''PNG'') ''./final_data'' ''./insights'' insight_world))) =
     msg_generated @ '' '' @ py_repr_list [''./insights/global_trends_improved.png''] \<and>
   files (snd (analyze_and_visualize_insights (\<lambda>_. ''PNG'') ''./final_data'' ''./insights'' insight_world))
     ''./insights/global_trends_improved.png'' \<noteq> None"
proof -
  let ?run = "analyze_and_visualize_insights (\<lambda>_. ''PNG'') ''./final_data'' ''./insights'' insight_world"
  have "fst ?run = Inr ()"
    by code_simp
  then have run: "?run = (Inr (), snd ?run)"
    by (metis prod.collapse)
  have sep: "list_all (\<lambda>p. p \<notin> set (''./insights'' # chart_outputs ''./insights'')) (insight_inputs ''./final_data'')"
    by (simp add: insight_inputs_def bar_inputs_def venn_inputs_def trend_inputs_def chart_outputs_def path_join_def)
  have gen: "insight_generated insight_world ''./final_data'' ''./insights'' = [''./insights/global_trends_improved.png'']"
    by (simp add: insight_generated_def insight_world_def path_exists_def bar_inputs_def venn_inputs_def
        trend_inputs_def chart_outputs_def path_join_def)
  show ?thesis
    using insight_generated_files [OF run sep] gen by simp
qed

text \<open>
  C17. The names \<open>nlargest\<close> selects have the largest totals: among names
  with distinct keys, every selected name's total is at least every
  unselected name's total.
\<close>

theorem nlargest_correct:
  assumes d: "distinct (map fst totals)"
    and kv: "(k, v) \<in> set totals" and kv': "(k', v') \<in> set totals"
    and k: "k \<in> set (nlargest n totals)" and k': "k' \<notin> set (nlargest n totals)"
  shows "v' \<le> v"
proof -
  let ?s = "sort_key (\<lambda>p. - snd p) totals"
  have sorted: "sorted (map (\<lambda>p. - snd p) ?s)" by simp
  have ds: "distinct (map fst ?s)" using d by (simp add: distinct_map)
  from k obtain v2 where in1: "(k, v2) \<in> set (take n ?s)" by (auto simp: nlargest_def)
  have "(k, v2) \<in> set totals" using in1 by (auto dest: in_set_takeD)
  with kv d have v2: "v2 = v" by (metis eq_key_imp_eq_value)
  have "(k', v') \<in> set ?s" using kv' by simp
  moreover have "(k', v') \<notin> set (take n ?s)"
    using k' by (force simp: nlargest_def)
  ultimately have in2: "(k', v') \<in> set (drop n ?s)"
    by (metis Un_iff append_take_drop_id set_append)
  from sorted_take_drop_le [OF sorted in1 in2] v2 show ?thesis by simp
qed

theorem nlargest_correct_witness:
  "nlargest 1 [(StrVal ''a'', 5), (StrVal ''b'', 7), (StrVal ''c'', 1)] = [StrVal ''b''] \<and> (5::int) \<le> 7"
proof -
  have n: "nlargest 1 [(StrVal ''a'', 5), (StrVal ''b'', 7), (StrVal ''c'', 1)] = [StrVal ''b'']"
    by (simp add: nlargest_def)
  have "(5::int) \<le> 7"
    using nlargest_correct [of "[(StrVal ''a'', 5), (StrVal ''b'', 7), (StrVal ''c'', 1)]" "StrVal ''b''" 7 "StrVal ''a''" 5 1] n
    by simp
  with n show ?thesis by simp
qed

text \<open>
  C18. The trend chart draws at most ten lines, one per distinct name, for
  any input frame.
\<close>

theorem trend_chart_lines:
  "trend_chart combined_df = Inr (LineChart lines) \<Longrightarrow> length lines \<le> 10 \<and> distinct (map fst lines)"
proof -
  assume t: "trend_chart combined_df = Inr (LineChart lines)"
  then obtain names streams vals where
    "column combined_df ''Name'' = Inr names" "column combined_df ''streams'' = Inr streams"
    and v: "map_err stream_value streams = Inr vals"
    and rest: "(let top_items = nlargest 10 (group_sums names vals);
           sel = filter (\<lambda>i. names ! i \<in> set top_items) [0..<length names];
           keys = sort (remdups (map (\<lambda>i. names ! i) sel))
       in if keys = [] then Inr (LineChart [])
          else bindE (column combined_df ''Month'') (\<lambda>months.
               bindE (map_err (\<lambda>k.
                        bindE (map_err (\<lambda>i. map_sum id (Pair (months ! i)) (scale_cell (streams ! i)))
                                 (filter (\<lambda>i. names ! i = k) sel))
                          (\<lambda>pts. Inr (k, pts))) keys)
               (\<lambda>lines. bindE (category_lines False (map (\<lambda>l. map fst (snd l)) lines))
                  (\<lambda>_. Inr (LineChart lines))))) = Inr (LineChart lines)"
    by (auto simp: trend_chart_def bindE_Inr_iff)
  define top where "top = nlargest 10 (group_sums names vals)"
  define keys where "keys = sort (remdups (map (\<lambda>i. names ! i) (filter (\<lambda>i. names ! i \<in> set top) [0..<length names])))"
  have sub: "set keys \<subseteq> set top" by (auto simp: keys_def)
  have dk: "distinct keys" by (simp add: keys_def)
  then have "length keys = card (set keys)" by (simp only: distinct_card)
  also have "\<dots> \<le> card (set top)" using sub by (simp add: card_mono)
  also have "\<dots> \<le> length top" by (rule card_length)
  also have "\<dots> \<le> 10" by (simp add: top_def length_nlargest)
  finally have len: "length keys \<le> 10" .
  have "map fst lines = keys"
  proof (cases "keys = []")
    case True
    with rest show ?thesis by (simp add: Let_def top_def keys_def)
  next
    case False
    with rest show ?thesis
      by (auto simp: Let_def top_def [symmetric] keys_def [symmetric] bindE_Inr_iff dest: map_err_keys)
  qed
  with len dk show ?thesis by (metis length_map)
qed

theorem trend_chart_lines_witness:
  "trend_chart \<lparr>columns = [''Month'', ''Name'', ''streams''],
                rows = [[StrVal ''2023-01'', StrVal ''a'', IntVal 5], [StrVal ''2023-02'', StrVal ''a'', IntVal 3],
                        [StrVal ''2023-01'', StrVal ''b'', IntVal 7]]\<rparr> =
     Inr (LineChart [(StrVal ''a'', [(StrVal ''2023-01'', Some (1 / 200000)), (StrVal ''2023-02'', Some (3 / 1000000))]),
                     (StrVal ''b'', [(StrVal ''2023-01'', Some (7 / 1000000))])]) \<and>
   length [(StrVal ''a'', [(StrVal ''2023-01'', Some (1 / 200000)), (StrVal ''2023-02'', Some (3 / 1000000::rat))]),
           (StrVal ''b'', [(StrVal ''2023-01'', Some (7 / 1000000))])] \<le> 10"
proof -
  have t: "trend_chart \<lparr>columns = [''Month'', ''Name'', ''streams''],
                rows = [[StrVal ''2023-01'', StrVal ''a'', IntVal 5], [StrVal ''2023-02'', StrVal ''a'', IntVal 3],
                        [StrVal ''2023-01'', StrVal ''b'', IntVal 7]]\<rparr> =
     Inr (LineChart [(StrVal ''a'', [(StrVal ''2023-01'', Some (1 / 200000)), (StrVal ''2023-02'', Some (3 / 1000000))]),
                     (StrVal ''b'', [(StrVal ''2023-01'', Some (7 / 1000000))])])"
    by code_simp
  show ?thesis
    using trend_chart_lines [OF t] t by simp
qed


text \<open>
  C22. The totals \<open>groupby('Name')['streams'].sum()\<close> gives add up to the
  streams of all rows with a name: grouping loses and duplicates nothing
  (rows without a name are dropped, as pandas drops missing keys).
\<close>

theorem group_sums_total:
  "sum_list (map snd (group_sums names vals)) = sum_list (map snd (filter (\<lambda>p. fst p \<noteq> NaN) (zip names vals)))"
proof -
  let ?ks = "sort (remdups (filter (\<lambda>c. c \<noteq> NaN) names))"
  have "sum_list (map snd (group_sums names vals)) =
        (\<Sum>k\<in>set ?ks. sum_list (map snd (filter (\<lambda>p. fst p = k) (zip names vals))))"
    by (simp add: group_sums_def comp_def sum_list_distinct_conv_sum_set)
  also have "\<dots> = sum_list (map snd (filter (\<lambda>p. fst p \<in> set ?ks) (zip names vals)))"
    by (rule sum_filter_keys) simp
  also have "filter (\<lambda>p. fst p \<in> set ?ks) (zip names vals) = filter (\<lambda>p. fst p \<noteq> NaN) (zip names vals)"
    by (rule filter_cong) (auto dest: set_zip_leftD)
  finally show ?thesis .
qed

text \<open>
  C23. The Venn diagram's three regions partition the artists: local only
  plus both is the number of distinct local artists, global only plus both
  the number of distinct global artists, and the three add up to the
  number of distinct artists of either list.
\<close>

theorem venn_chart_regions:
  assumes "column local_df ''artist_names'' = Inr xs" and "column global_df ''artist_names'' = Inr ys"
  shows "\<exists>a b c. venn_chart local_df global_df = Inr (VennChart a b c) \<and>
           a + c = card (set xs) \<and> b + c = card (set ys) \<and> a + b + c = card (set xs \<union> set ys)"
proof -
  have split: "card S = card (S - T) + card (S \<inter> T)" if "finite S" for S T :: "cell set"
    using that card_mono [OF that, of "S \<inter> T"] by (simp add: card_Diff_subset_Int)
  have a: "card (set xs - set ys) + card (set xs \<inter> set ys) = card (set xs)"
    using split [of "set xs" "set ys"] by simp
  have b: "card (set ys - set xs) + card (set xs \<inter> set ys) = card (set ys)"
    using split [of "set ys" "set xs"] by (simp add: Int_commute)
  have "card (set xs \<union> set ys) = card ((set xs \<union> set ys) - set xs) + card ((set xs \<union> set ys) \<inter> set xs)"
    by (rule split) simp
  also have "(set xs \<union> set ys) - set xs = set ys - set xs" by blast
  also have "(set xs \<union> set ys) \<inter> set xs = set xs" by blast
  finally have u: "card (set xs - set ys) + card (set ys - set xs) + card (set xs \<inter> set ys) = card (set xs \<union> set ys)"
    using a by simp
  show ?thesis
    using assms a b u by (auto simp: venn_chart_def Int_commute)
qed

theorem venn_chart_regions_witness:
  "venn_chart \<lparr>columns = [''artist_names''], rows = [[StrVal ''a''], [StrVal ''b''], [StrVal ''a'']]\<rparr>
              \<lparr>columns = [''artist_names''], rows = [[StrVal ''b''], [StrVal ''c'']]\<rparr> = Inr (VennChart 1 1 1)"
proof -
  have l: "column \<lparr>columns = [''artist_names''], rows = [[StrVal ''a''], [StrVal ''b''], [StrVal ''a'']]\<rparr> ''artist_names'' =
             Inr [StrVal ''a'', StrVal ''b'', StrVal ''a'']"
    by code_simp
  have g: "column \<lparr>columns = [''artist_names''], rows = [[StrVal ''b''], [StrVal ''c'']]\<rparr> ''artist_names'' =
             Inr [StrVal ''b'', StrVal ''c'']"
    by code_simp
  have "\<exists>a b c. venn_chart \<lparr>columns = [''artist_names''], rows = [[StrVal ''a''], [StrVal ''b''], [StrVal ''a'']]\<rparr>
              \<lparr>columns = [''artist_names''], rows = [[StrVal ''b''], [StrVal ''c'']]\<rparr> = Inr (VennChart a b c) \<and>
          a + c = 2 \<and> b + c = 2 \<and> a + b + c = 3"
    using venn_chart_regions [OF l g] by (simp add: insert_commute numeral_2_eq_2 numeral_3_eq_3)
  then obtain a b c where v: "venn_chart \<lparr>columns = [''artist_names''], rows = [[StrVal ''a''], [StrVal ''b''], [StrVal ''a'']]\<rparr>
              \<lparr>columns = [''artist_names''], rows = [[StrVal ''b''], [StrVal ''c'']]\<rparr> = Inr (VennChart a b c)"
    and n: "a + c = 2" "b + c = 2" "a + b + c = 3"
    by blast
  from n have "a = 1 \<and> b = 1 \<and> c = 1" by arith
  with v show ?thesis by simp
qed

text \<open>
  C20. A chart input that exists but cannot be parsed aborts the renderer:
  when the output folder exists and the first input of the bar chart does
  not parse, the run raises the reader's exception after printing the
  folder line, and no chart is written.
\<close>

theorem insight_read_error:
  assumes out: "path_exists w output_folder"
    and ex: "list_all (path_exists w) (bar_inputs input_folder)"
    and err: "fst (read_csv (bar_inputs input_folder ! 0) w) = Inl e"
  shows "analyze_and_visualize_insights png input_folder output_folder w =
           (Inl e, w\<lparr>stdout := stdout w @ [msg_results_in @ output_folder @ msg_results_in_end]\<rparr>)"
proof -
  let ?w1 = "w\<lparr>stdout := stdout w @ [msg_results_in @ output_folder @ msg_results_in_end]\<rparr>"
  have r: "read_csv (bar_inputs input_folder ! 0) ?w1 = (Inl e, ?w1)"
    using read_csv_same_file [of ?w1 "bar_inputs input_folder ! 0" w] err by simp
  have "read_all (bar_inputs input_folder) ?w1 = (Inl e, ?w1)"
    using r by (simp add: bar_inputs_def io_bind_def)
  then show ?thesis
    using out ex by (simp add: analyze_and_visualize_insights_def prepare_output_def chart_step_def
        io_seq_def io_bind_def io_return_def print_line_def)
qed

theorem insight_read_error_witness:
  "analyze_and_visualize_insights (\<lambda>_. ''PNG'') ''./final_data'' ''./insights''
     \<lparr>files = [''./final_data/max_stream_month.csv'' \<mapsto> [], ''./final_data/min_stream_month.csv'' \<mapsto> []],
      dirs = {''./insights''}, denied = {}, stdout = []\<rparr> =
   (Inl (EmptyDataError ''No columns to parse from file''),
    \<lparr>files = [''./final_data/max_stream_month.csv'' \<mapsto> [], ''./final_data/min_stream_month.csv'' \<mapsto> []],
     dirs = {''./insights''}, denied = {}, stdout = [msg_results_in @ ''./insights'' @ msg_results_in_end]\<rparr>)"
proof -
  let ?w = "\<lparr>files = [''./final_data/max_stream_month.csv'' \<mapsto> [], ''./final_data/min_stream_month.csv'' \<mapsto> []],
      dirs = {''./insights''}, denied = {}, stdout = []\<rparr>"
  have out: "path_exists ?w ''./insights''" by (simp add: path_exists_def)
  have ex: "list_all (path_exists ?w) (bar_inputs ''./final_data'')"
    by (simp add: path_exists_def bar_inputs_def path_join_def)
  have err: "fst (read_csv (bar_inputs ''./final_data'' ! 0) ?w) = Inl (EmptyDataError ''No columns to parse from file'')"
    by code_simp
  show ?thesis
    using insight_read_error [OF out ex err, of "\<lambda>_. ''PNG''"] by simp
qed

text \<open>
  C37. The list of generated files the renderer prints reads back as that
  list: a reader of Python's literal syntax recovers every list of strings
  from its \<open>repr\<close>, whatever quotes, backslashes or control characters the
  paths hold.
\<close>

theorem py_repr_list_roundtrip: "py_read_list (py_repr_list xs) = Some xs"
proof (cases xs)
  case Nil
  then show ?thesis by (simp add: py_read_list_def py_repr_list_def)
next
  case (Cons x xs')
  then have "py_join_str '', '' (map py_repr_str xs) \<noteq> []" using py_join_repr_nonempty by blast
  with Cons show ?thesis using read_py_repr_items [of xs] by (simp add: py_read_list_def py_repr_list_def)
qed

text \<open>
  C24. The bar chart (lines 33--36) succeeds exactly when both frames have a
  \<open>Country\<close> and a \<open>streams\<close> column, no \<open>streams\<close> cell is text, and the
  countries fit the category axis: when the first present country of the
  maximum frame is a text all its countries are texts, and from then on (or
  from the first present text country of the minimum frame) all the minimum
  frame's countries are texts. Its bars are then each row's country paired
  with its streams divided by \<open>1e6\<close>, a missing value giving no bar height,
  in row order.
\<close>

theorem bar_chart_result:
  "bar_chart max_df min_df = Inr ch \<longleftrightarrow>
   (\<forall>df\<in>{max_df, min_df}. ''Country'' \<in> set (columns df) \<and> ''streams'' \<in> set (columns df) \<and>
      (\<forall>r\<in>set (rows df). \<forall>s. cell_at (columns df) r ''streams'' \<noteq> StrVal s)) \<and>
   (text_axis (map (\<lambda>r. cell_at (columns max_df) r ''Country'') (rows max_df)) \<longrightarrow>
      list_all is_str_cell (map (\<lambda>r. cell_at (columns max_df) r ''Country'') (rows max_df))) \<and>
   (text_axis (map (\<lambda>r. cell_at (columns max_df) r ''Country'') (rows max_df)) \<or>
    text_axis (map (\<lambda>r. cell_at (columns min_df) r ''Country'') (rows min_df)) \<longrightarrow>
      list_all is_str_cell (map (\<lambda>r. cell_at (columns min_df) r ''Country'') (rows min_df))) \<and>
   ch = BarChart
     (map (\<lambda>r. (cell_at (columns max_df) r ''Country'',
               case cell_at (columns max_df) r ''streams'' of IntVal i \<Rightarrow> Some (of_int i / 1000000) | _ \<Rightarrow> None))
          (rows max_df))
     (map (\<lambda>r. (cell_at (columns min_df) r ''Country'',
               case cell_at (columns min_df) r ''streams'' of IntVal i \<Rightarrow> Some (of_int i / 1000000) | _ \<Rightarrow> None))
          (rows min_df))"
  by (auto simp: bar_chart_def bindE_Inr_iff column_Inr map_err_scale_cell category_axis_Inr
      zip_map_map zip_same_conv_map)

theorem bar_chart_result_witness:
  "bar_chart \<lparr>columns = [''Country'', ''streams''], rows = [[StrVal ''AU'', IntVal 3000000], [StrVal ''US'', NaN]]\<rparr>
             \<lparr>columns = [''streams'', ''Country''], rows = [[IntVal 500000, StrVal ''AU'']]\<rparr> =
   Inr (BarChart [(StrVal ''AU'', Some 3), (StrVal ''US'', None)] [(StrVal ''AU'', Some (1 / 2))])"
  using bar_chart_result [of "\<lparr>columns = [''Country'', ''streams''], rows = [[StrVal ''AU'', IntVal 3000000], [StrVal ''US'', NaN]]\<rparr>"
      "\<lparr>columns = [''streams'', ''Country''], rows = [[IntVal 500000, StrVal ''AU'']]\<rparr>"
      "BarChart [(StrVal ''AU'', Some 3), (StrVal ''US'', None)] [(StrVal ''AU'', Some (1 / 2))]"]
  by (simp add: cell_at_def text_axis_def)

end
