(* ===== verification/Spec2Isabelle.thy ===== *)
theory Spec2Isabelle
  imports Orchestrator Insight
begin

text \<open>
  \<^bold>\<open>A verification library for the country-merge pipeline and its chart renderer.\<close>

  The program has two scripts. \<open>src/merge_csv.py\<close>: \<open>merge_by_country\<close>
  walks an input folder, reads every CSV file with pandas, tags its rows with
  a country code taken from the file name, accumulates one frame per country
  in a dictionary, writes each country's frame as CSV, JSON and HTML into an
  intermediate folder, concatenates the country frames and writes the result
  in the same three formats into a final folder, printing a line after each
  group of writes. \<open>src/insight_analysis.py\<close>: sets up a font, then
  \<open>analyze_and_visualize_insights\<close> reads up to five CSV files from
  \<open>./final_data\<close> and saves up to three PNG charts into \<open>./insights\<close>,
  skipping a chart whose inputs are missing. The two scripts interact only
  through the file system, which is the shared state of the model (the
  world of \<open>FileSystem\<close>).

  \<^bold>\<open>Theories, leaves first.\<close>
  \<^item> \<open>Prelude\<close>: the model's type names (\<open>path\<close>, \<open>contents\<close>, \<open>dict\<close>),
    Python's \<open>str.join\<close> (\<open>py_join\<close>, \<open>py_join_str\<close>), \<open>first_seen\<close>,
    dictionary assignment as \<open>AList.update\<close> and its lemmas, the exceptions
    the program raises (\<open>py_error\<close>) with \<open>bindE\<close> propagating them, and
    the collection \<open>keeps_rules\<close> of frame rules.
  \<^item> \<open>Country\<close>: \<open>extract_country_from_filename\<close> (lines 6--13) over
    \<open>py_split\<close> (\<open>str.split\<close>) and \<open>py_upper\<close> (\<open>str.upper\<close> on ASCII).
  \<^item> \<open>Frame\<close>: a pandas DataFrame as a record of column names and rows of
    cells (\<open>NaN\<close>, integer, text); \<open>set_column\<close> is \<open>df['country'] = c\<close>
    (line 91), \<open>concat2\<close> and \<open>concat_frames\<close> are \<open>pd.concat\<close> (lines 96 and
    116) with its outer join on columns and its \<open>ValueError\<close> on no input.
    \<open>records\<close> abstracts a frame to its rows as partial maps.
  \<^item> \<open>Paths\<close>: \<open>os.path.join\<close>, \<open>os.path.basename\<close>, \<open>str.endswith\<close> and the
    discovery loop \<open>collect_csv_files\<close> (lines 77--81) over the listing
    \<open>os.walk\<close> yields.
  \<^item> \<open>Accumulate\<close>: the classification loop (lines 87--96) on frames already
    read: \<open>tag_country\<close>, \<open>add_country_frame\<close>, \<open>accumulate_file\<close>,
    \<open>accumulate\<close>; \<open>country_groups\<close> is the declarative specification.
  \<^item> \<open>FileSystem\<close>: the world (files, directories, denied paths, printed
    lines), the state-passing monad \<open>'a io\<close>, \<open>write_file\<close>, \<open>read_file\<close>,
    \<open>makedirs\<close> (\<open>exist_ok=True\<close>), \<open>print_line\<close>, lists of \<open>action\<close>s with
    the closed form of their runs (\<open>run_actions_eq\<close>), and the frame
    condition \<open>keeps_files\<close> with its rules.
  \<^item> \<open>Csv\<close>: \<open>to_csv(index=False, encoding='utf-8-sig', line_terminator='\n')\<close>
    as \<open>to_csv_text\<close>, and \<open>pd.read_csv\<close> as \<open>read_csv_text\<close>: the C
    tokenizer's state machine, missing-value strings, integer inference,
    \<open>Unnamed: i\<close> and the mangling of duplicate names (\<open>dedup_names\<close>).
  \<^item> \<open>Utf8\<close>: the UTF-8 decoding pandas' JSON encoder performs on each text
    (\<open>utf8_units\<close>, one \<open>utf8_head\<close> at a time) and the encoding of a code
    point (\<open>utf8_encode\<close>), proved inverse on well-formed sequences.
  \<^item> \<open>Json\<close>: \<open>to_json(orient='records', indent=4)\<close> as \<open>to_json_text\<close> over
    a JSON value type, with \<open>force_ascii\<close>'s \<open>\uXXXX\<close> escapes and surrogate
    pairs, and a reader for what it writes (\<open>json_parse\<close>, a
    \<open>partial_function\<close> in the option monad from the JSON grammar; it is not
    code of the repository and only serves the round-trip theorems).
  \<^item> \<open>Html\<close>: \<open>to_html(index=False, classes='table table-striped')\<close> as
    \<open>to_html\<close> and the Jinja page of lines 21--70 as \<open>html_page\<close>.
  \<^item> \<open>Orchestrator\<close>: \<open>merge_by_country\<close> itself, with its phases
    \<open>read_and_accumulate\<close>, \<open>save_country\<close>/\<open>save_countries\<close> and
    \<open>save_final\<close>, each output phase also given as an action list
    (\<open>country_plan\<close>, \<open>final_plan\<close>, \<open>output_plan\<close>), and \<open>run_main\<close>.
  \<^item> \<open>Insight\<close>: the renderer, \<open>setup_korean_font\<close>, \<open>prepare_output\<close>, one
    \<open>chart_step\<close> per chart block, the chart data (\<open>bar_chart\<close>,
    \<open>venn_chart\<close>, \<open>trend_chart\<close> with \<open>group_sums\<close> and \<open>nlargest\<close>),
    \<open>analyze_and_visualize_insights\<close> and \<open>insight_main\<close>, Python's \<open>repr\<close> of the
    printed list (\<open>py_repr_list\<close>) with its reader \<open>py_read_list\<close>; the PNG bytes are a
    parameter \<open>png\<close> of the chart data.

  \<^bold>\<open>What is proved.\<close>
  The pipeline (\<open>Orchestrator\<close>): \<open>merge_by_country\<close> is reading (which does
  not change the world) followed by the two folder creations and the run of
  \<open>output_plan\<close>; a run that returns leaves every country file and merged
  file holding the text of its frame; any run, failed or not, leaves a prefix
  of the planned outputs and creates no folder but its two; a run without CSV
  files raises \<open>ValueError\<close>; a run whose files all parse and whose
  output locations are free returns normally (\<open>run_main_completes\<close>);
  folder creation is idempotent, and a second run returns normally and
  changes no file (\<open>merge_rerun_same_files\<close>); the reading loop keeps
  its dictionary well formed; a run stops, changing nothing, at the first
  file that does not parse (\<open>merge_first_read_error\<close>); a run that returns
  prints exactly one line per country and one for the merged files
  (\<open>merge_success_stdout\<close>, over \<open>printed_lines\<close>), and these lines come
  after the three writes they name, so a failed JSON write leaves a CSV
  file written and unreported (\<open>save_country_unreported_write\<close>). The accumulation (\<open>Accumulate\<close>):
  the dictionary refines \<open>country_groups\<close> and is only appended to; row
  counts add up; the merged
  frame has all rows. The classifier, the frames and the formats: CSV
  write-then-read is the identity on frames pandas reads back unchanged,
  every frame \<open>pd.read_csv\<close> returns is well formed, JSON documents read
  back as one object per row and are pure ASCII, the HTML markup is fixed by the frame's shape.
  The renderer (\<open>Insight\<close>): it writes no file but its charts, reports
  exactly the charts whose inputs exist, stops at an input that does not
  parse, \<open>nlargest\<close> selects the largest totals, the group totals add up
  to the named rows' streams, the Venn regions partition the artists and
  the trend chart has at most ten distinct lines, the bar chart succeeds
  exactly on frames with its two columns, no text streams and countries that
  fit matplotlib's category axis (\<open>category_axis\<close>: no missing country
  among text ones), and draws each row's streams over \<open>1e6\<close>
  (\<open>bar_chart_result\<close>), and the printed
  list of generated files reads back as that list (\<open>py_repr_list_roundtrip\<close>,
  against \<open>py_read_list\<close>, a reader of Python's literal syntax that is
  not code of the repository). Below, the
  properties that span components: the Namibian country code does not
  survive the CSV round trip, for every frame that otherwise does, every page the pipeline writes has the markup
  of its frame's shape, and the renderer run after the pipeline finds none of
  its inputs.

  \<^bold>\<open>Bounds and fuel.\<close> All definitions are total and executable. The only
  loop without a structural measure in the code is pandas' renaming of a
  duplicate column (\<open>while cur_count > 0\<close>); \<open>dedup_while\<close> runs it on fuel
  \<open>Suc (length counts)\<close>, which \<open>dedup_names_Some\<close> proves always
  sufficient: each iteration moves to a strictly longer name among the keys
  already counted. The JSON reader and the reader of Python lists
  (\<open>py_read_items\<close>) are \<open>partial_function\<close>s; that they return on the
  writers' output is part of their round-trip theorems.

  \<^bold>\<open>Not modelled.\<close> The pandas version is 1.x (the keyword
  \<open>line_terminator\<close> was removed in pandas 2.0) and Matplotlib is older than
  3.9 (\<open>plt.cm.get_cmap\<close> was removed there). Float and boolean columns
  (among them the float columns \<open>pd.concat\<close> makes of integer columns it
  fills with missing values when schemas differ; the model reads a float
  literal as text, so a float \<open>streams\<close> column makes the model's charts
  raise \<open>TypeError\<close> where pandas divides, and \<open>csv_stable\<close> excludes every
  text pandas may convert), integers beyond 64 bits,
  floating-point rounding of \<open>streams / 1e6\<close> (exact rationals here), the
  implicit index pandas makes of a data row one field longer than the header,
  whitespace around numbers, the backtracking of the tokenizer's
  \<open>WHITESPACE_LINE\<close> state after a line ended by a lone carriage return, the decoding of input files (bytes that are
  not well-formed UTF-8, which \<open>pd.read_csv\<close> rejects, are carried through
  as they are), the order in which \<open>os.walk\<close>
  lists files (an input), parent directories created by \<open>os.makedirs\<close>,
  matplotlib's figure state and styling and the bytes of its PNG files.
\<close>

subsection \<open>A country code the CSV reader does not read back\<close>

text \<open>
  C38. A file named \<open>regional-na-weekly-...\<close> (Namibia) is classified as
  \<open>NA\<close>, and the country column written for it does not read back:
  \<open>NA\<close> is one of pandas' default missing-value strings, so for every frame
  that otherwise survives the CSV round trip, reading back the tagged frame
  gives the frame with the country column missing in every row.
\<close>

theorem na_country_lost:
  assumes na: "country_of p = ''NA''" and st: "csv_stable df" and nc: "''country'' \<notin> set (columns df)"
  shows "read_csv_text (to_csv_text (snd (tag_country p df))) = Inr (set_column ''country'' NaN df)"
proof -
  let ?n = "length (columns df)"
  let ?rs = "map (\<lambda>r. r @ [StrVal ''NA'']) (rows df)"
  have wf: "wf_frame df" and ne: "columns df \<noteq> []" "list_all (\<lambda>c. c \<noteq> []) (columns df)"
    and cols: "\<forall>j<?n. stable_column (map (\<lambda>r. r ! j) (rows df))"
    using st by (simp_all add: csv_stable_def list_all_iff)
  have len: "\<forall>r\<in>set (rows df). length r = ?n" using wf by (simp add: wf_frame_def)
  have tag: "snd (tag_country p df) = \<lparr>columns = columns df @ [''country''], rows = ?rs\<rparr>"
    using na nc by (simp add: tag_country_def set_column_def Let_def)
  have wf': "wf_frame \<lparr>columns = columns df @ [''country''], rows = ?rs\<rparr>"
    using wf nc by (auto simp: wf_frame_def)
  have ne': "columns df @ [''country''] \<noteq> []" "list_all (\<lambda>c. c \<noteq> []) (columns df @ [''country''])"
    using ne by simp_all
  have two: "2 \<le> length (columns df @ [''country''])" using ne by (cases "columns df") auto
  have nb': "list_all (\<lambda>r. \<not> blank_record r) ((columns df @ [''country'']) # map (map cell_text) ?rs)"
    using two len by (auto simp: list_all_iff intro!: not_blank_record_long)
  have row: "map (\<lambda>j. parse_cell (column_is_int (map (\<lambda>r. cell_text (r ! j)) ?rs)) (cell_text ((r @ [StrVal ''NA'']) ! j)))
               [0..<Suc ?n] = r @ [NaN]" if r: "r \<in> set (rows df)" for r
  proof -
    have lr: "length r = ?n" using len r by blast
    have "map (\<lambda>j. parse_cell (column_is_int (map (\<lambda>r. cell_text (r ! j)) ?rs)) (cell_text ((r @ [StrVal ''NA'']) ! j)))
            [0..<?n] = r"
    proof (rule nth_equalityI)
      fix j assume "j < length (map (\<lambda>j. parse_cell (column_is_int (map (\<lambda>r. cell_text (r ! j)) ?rs))
                                        (cell_text ((r @ [StrVal ''NA'']) ! j))) [0..<?n])"
      then have j: "j < ?n" by simp
      have c: "map (\<lambda>r. cell_text (r ! j)) ?rs = map cell_text (map (\<lambda>r. r ! j) (rows df))"
        using len j by (simp add: nth_append)
      have e: "column_is_int (map (\<lambda>r. cell_text (r ! j)) ?rs) =
               column_is_int (map cell_text (map (\<lambda>r. r ! j) (rows df)))"
        by (simp only: c)
      have a: "(r @ [StrVal ''NA'']) ! j = r ! j" using j lr by (simp add: nth_append)
      have p: "parse_cell (column_is_int (map cell_text (map (\<lambda>r. r ! j) (rows df)))) (cell_text (r ! j)) = r ! j"
        using cols j r by (intro parse_cell_stable) auto
      have "map (\<lambda>j. parse_cell (column_is_int (map (\<lambda>r. cell_text (r ! j)) ?rs))
                     (cell_text ((r @ [StrVal ''NA'']) ! j))) [0..<?n] ! j =
            parse_cell (column_is_int (map (\<lambda>r. cell_text (r ! j)) ?rs)) (cell_text ((r @ [StrVal ''NA'']) ! j))"
        using j by (simp only: nth_map_upt diff_zero add.left_neutral)
      also have "\<dots> = r ! j"
        unfolding e a by (rule p)
      finally show "map (\<lambda>j. parse_cell (column_is_int (map (\<lambda>r. cell_text (r ! j)) ?rs))
                              (cell_text ((r @ [StrVal ''NA'']) ! j))) [0..<?n] ! j = r ! j" .
    qed (simp add: lr)
    moreover have "parse_cell (column_is_int (map (\<lambda>r. cell_text (r ! ?n)) ?rs))
                     (cell_text ((r @ [StrVal ''NA'']) ! ?n)) = NaN"
    proof -
      have e: "map (\<lambda>r. cell_text (r ! ?n)) ?rs = map (\<lambda>r. ''NA'') (rows df)"
        using len by (simp add: nth_append)
      have a: "cell_text ((r @ [StrVal ''NA'']) ! ?n) = ''NA''"
        using lr by (simp add: nth_append)
      have "rows df \<noteq> []" using r by auto
      then show ?thesis
        unfolding e a by (rule parse_column_NA)
    qed
    ultimately show ?thesis
      by (simp only: upt_Suc map_append list.map le0 if_True)
  qed
  have len': "\<forall>r\<in>set ?rs. length r = Suc ?n" using len by simp
  have "build_rows (Suc ?n) (map (map cell_text) ?rs) =
        map (\<lambda>r. map (\<lambda>j. parse_cell (column_is_int (map (\<lambda>r. cell_text (r ! j)) ?rs)) (cell_text (r ! j)))
                     [0..<Suc ?n]) ?rs"
    by (rule build_rows_columns [OF len'])
  also have "\<dots> = map (\<lambda>r. r @ [NaN]) (rows df)"
    by (subst map_map, rule map_cong [OF refl], simp only: comp_apply, rule row)
  finally have "build_rows (Suc ?n) (map (map cell_text) ?rs) = map (\<lambda>r. r @ [NaN]) (rows df)" .
  moreover have "read_csv_text (to_csv_text \<lparr>columns = columns df @ [''country''], rows = ?rs\<rparr>) =
      Inr \<lparr>columns = columns df @ [''country''], rows = build_rows (Suc ?n) (map (map cell_text) ?rs)\<rparr>"
    using read_csv_text_written [of "\<lparr>columns = columns df @ [''country''], rows = ?rs\<rparr>"] wf' ne' nb'
    by simp
  ultimately show ?thesis
    using tag nc by (simp add: set_column_def)
qed

theorem na_country_lost_witness:
  "read_csv_text (to_csv_text (snd (tag_country ''spotify_data/regional-na-weekly-2023-06-15.csv''
      \<lparr>columns = [''track'', ''streams''], rows = [[StrVal ''x'', IntVal 5]]\<rparr>))) =
   Inr \<lparr>columns = [''track'', ''streams'', ''country''], rows = [[StrVal ''x'', IntVal 5, NaN]]\<rparr>"
proof -
  have na: "country_of ''spotify_data/regional-na-weekly-2023-06-15.csv'' = ''NA''"
    by (simp add: country_of_def basename_def classifier_eval)
  have st: "csv_stable \<lparr>columns = [''track'', ''streams''], rows = [[StrVal ''x'', IntVal 5]]\<rparr>"
    by code_simp
  have nc: "''country'' \<notin> set (columns \<lparr>columns = [''track'', ''streams''], rows = [[StrVal ''x'', IntVal 5]]\<rparr>)"
    by simp
  show ?thesis
    using na_country_lost [OF na st nc] by (simp add: set_column_def)
qed

subsection \<open>The pages the pipeline writes\<close>

text \<open>
  C28. In a run that returns normally, every HTML page written, the page of
  each country and the merged page, has exactly as many tags as the template
  and the shape of its frame give: since every frame pandas reads is well
  formed and accumulation and concatenation keep frames well formed, no cell
  of any input file can add or remove markup in any output page.
\<close>

theorem merge_pages_markup:
  assumes run: "merge_by_country walk i f w = (Inr (), w')"
    and rd: "read_frames w (collect_csv_files walk) = Inr fs"
  shows "list_all (\<lambda>cd. \<exists>page. files w' (path_join i (fst cd @ ''_data.html'')) = Some page \<and>
                   count_list page CHR ''<'' = 23 + 2 * length (columns (snd cd)) + row_count (snd cd) * (2 + 2 * length (columns (snd cd))))
           (accumulate [] fs) \<and>
         (\<exists>m page. concat_frames (map snd (accumulate [] fs)) = Inr m \<and>
            files w' (path_join f ''final_merged_data.html'') = Some page \<and>
            count_list page CHR ''<'' = 23 + 2 * length (columns m) + row_count m * (2 + 2 * length (columns m)))"
proof -
  have wf: "\<forall>d\<in>set (map snd (accumulate [] fs)). wf_frame d"
    using wf_accumulate [of "[]" fs] read_frames_wf [OF rd] by simp
  have countries: "\<exists>page. files w' (path_join i (fst cd @ ''_data.html'')) = Some page \<and>
                   count_list page CHR ''<'' = 23 + 2 * length (columns (snd cd)) + row_count (snd cd) * (2 + 2 * length (columns (snd cd)))"
    if cd: "cd \<in> set (accumulate [] fs)" for cd
  proof -
    have "wf_frame (snd cd)" using wf cd by simp
    then show ?thesis
      using merge_success_country_files [OF run rd cd] html_tags_fixed by simp
  qed
  obtain m where m: "concat_frames (map snd (accumulate [] fs)) = Inr m"
    and mf: "files w' (path_join f ''final_merged_data.html'') = Some (html_page (to_html m))"
    using merge_success_final_files [OF run rd] by blast
  have "wf_frame m" using wf_concat_frames [OF _ m] wf by simp
  with m mf have "\<exists>m page. concat_frames (map snd (accumulate [] fs)) = Inr m \<and>
            files w' (path_join f ''final_merged_data.html'') = Some page \<and>
            count_list page CHR ''<'' = 23 + 2 * length (columns m) + row_count m * (2 + 2 * length (columns m))"
    using html_tags_fixed by blast
  with countries show ?thesis by (simp add: list_all_iff)
qed

theorem merge_pages_markup_witness:
  "\<exists>m page. concat_frames (map snd (accumulate [] (projr (read_frames example_world (collect_csv_files example_walk))))) = Inr m \<and>
     files (snd (merge_by_country example_walk ''country_data'' ''final_data'' example_world)) ''final_data/final_merged_data.html'' = Some page \<and>
     count_list page CHR ''<'' = 23 + 2 * length (columns m) + row_count m * (2 + 2 * length (columns m))"
proof -
  let ?run = "merge_by_country example_walk ''country_data'' ''final_data'' example_world"
  have "fst ?run = Inr ()"
    by code_simp
  then have run: "?run = (Inr (), snd ?run)"
    by (metis prod.collapse)
  have rd: "read_frames example_world (collect_csv_files example_walk) =
            Inr (projr (read_frames example_world (collect_csv_files example_walk)))"
    by code_simp
  have p: "path_join ''final_data'' ''final_merged_data.html'' = ''final_data/final_merged_data.html''"
    by (simp add: path_join_def)
  show ?thesis
    using merge_pages_markup [OF run rd] p by simp
qed

subsection \<open>The renderer after the pipeline\<close>

text \<open>
  No file the merge writes is an input of the renderer: every written path
  ends in \<open>data.csv\<close>, \<open>data.json\<close> or \<open>data.html\<close>, and the only
  folders it creates are its two output folders.
\<close>

lemma merge_keeps_insight_inputs:
  assumes run: "run_main walk w = (r, w')"
  shows "dirs w \<subseteq> dirs w' \<and> (\<forall>p\<in>set (insight_inputs ''./final_data''). path_exists w' p = path_exists w p)"
proof -
  let ?P = "merge_plan w walk ''./country_data'' ''./final_data''"
  obtain k D where D: "dirs w \<subseteq> D" "D \<subseteq> insert ''./country_data'' (insert ''./final_data'' (dirs w))"
    and w': "w' = (effects (take k ?P) w)\<lparr>dirs := D\<rparr>"
    using merge_run_effects [OF run [unfolded run_main_def]] by blast
  have keep: "path_exists w' p = path_exists w p" if p: "p \<in> set (insight_inputs ''./final_data'')" for p
  proof -
    have "\<not> (py_endswith p ''data.csv'' \<or> py_endswith p ''data.json'' \<or> py_endswith p ''data.html'')"
      using p by (auto simp: insight_inputs_def bar_inputs_def venn_inputs_def trend_inputs_def
          path_join_def py_endswith_def)
    then have "p \<notin> set (written_paths (take k ?P))"
      using written_paths_take written_merge_suffix by blast
    then have f: "files w' p = files w p"
      using w' by (simp add: files_effects_unwritten)
    have "p \<noteq> ''./country_data'' \<and> p \<noteq> ''./final_data''"
      using p by (auto simp: insight_inputs_def bar_inputs_def venn_inputs_def trend_inputs_def path_join_def)
    with D w' have "p \<in> dirs w' \<longleftrightarrow> p \<in> dirs w" by auto
    with f show ?thesis by (simp add: path_exists_def dom_def)
  qed
  from D w' keep show ?thesis by auto
qed

text \<open>
  C11. The renderer does not consume what the pipeline produces. From a world
  holding none of the renderer's input files and its output folder, after
  any run of the merge script (successful or not), running the renderer
  script writes no file, raises nothing and reports every chart input
  missing and no chart generated: the merged data in \<open>./final_data\<close> is
  never read.
\<close>

theorem merge_then_insights:
  assumes run: "run_main walk w = (r, w')"
    and none: "list_all (\<lambda>p. \<not> path_exists w p) (insight_inputs ''./final_data'')"
    and out: "''./insights'' \<in> dirs w"
  shows "\<exists>font_line. insight_main png w' =
           (Inr (), w'\<lparr>stdout := stdout w' @
              [font_line, msg_results_in @ ''./insights'' @ msg_results_in_end,
               py_join_str msg_or (bar_inputs ''./final_data'') @ msg_not_exist,
               py_join_str msg_or (venn_inputs ''./final_data'') @ msg_not_exist,
               py_join_str msg_or (trend_inputs ''./final_data'') @ msg_not_exist,
               msg_generated @ '' []'']\<rparr>)"
proof -
  note mk = merge_keeps_insight_inputs [OF run]
  obtain l where l: "setup_korean_font w' = (Inr (), w'\<lparr>stdout := stdout w' @ [l]\<rparr>)"
    using setup_korean_font_line by blast
  let ?w1 = "w'\<lparr>stdout := stdout w' @ [l]\<rparr>"
  have none': "list_all (\<lambda>p. \<not> path_exists ?w1 p) (insight_inputs ''./final_data'')"
    using none mk by (auto simp: list_all_iff)
  have out': "path_exists ?w1 ''./insights''"
    using out mk by (auto simp: path_exists_def)
  show ?thesis
    using analyze_no_inputs [OF none' out', of png] l
    by (intro exI [of _ l]) (simp add: insight_main_def io_seq_eq)
qed

theorem merge_then_insights_witness:
  "\<exists>font_line. insight_main (\<lambda>_. ''PNG'')
       (snd (run_main example_walk (example_world\<lparr>dirs := {''spotify_data'', ''./insights''}\<rparr>))) =
     (Inr (), (snd (run_main example_walk (example_world\<lparr>dirs := {''spotify_data'', ''./insights''}\<rparr>)))\<lparr>stdout :=
        stdout (snd (run_main example_walk (example_world\<lparr>dirs := {''spotify_data'', ''./insights''}\<rparr>))) @
        [font_line, msg_results_in @ ''./insights'' @ msg_results_in_end,
         py_join_str msg_or (bar_inputs ''./final_data'') @ msg_not_exist,
         py_join_str msg_or (venn_inputs ''./final_data'') @ msg_not_exist,
         py_join_str msg_or (trend_inputs ''./final_data'') @ msg_not_exist,
         msg_generated @ '' []'']\<rparr>)"
proof -
  let ?w = "example_world\<lparr>dirs := {''spotify_data'', ''./insights''}\<rparr>"
  have none: "list_all (\<lambda>p. \<not> path_exists ?w p) (insight_inputs ''./final_data'')"
    by (simp add: example_world_def path_exists_def insight_inputs_def bar_inputs_def venn_inputs_def
        trend_inputs_def path_join_def)
  show ?thesis
    using merge_then_insights [OF prod.collapse [symmetric] none, where walk = example_walk and png = "\<lambda>_. ''PNG''"] by simp
qed

end
